(* ===== verification/Rust_Prelude.thy ===== *)
theory Rust_Prelude
  imports Main "HOL-Library.Word"
begin

text \<open>
  The vocabulary shared by every component: the machine integers of the Rust sources, results
  with an explicit panic, slices of byte vectors, checked and saturating \<open>usize\<close> arithmetic and
  the little-endian byte codecs.

  \<^item> \<open>u8\<close>, \<open>u16\<close>, \<open>u32\<close>, \<open>u64\<close> are words of that width. A \<open>usize\<close> (64 bits on the guest
    target) is a \<^typ>\<open>nat\<close>; the operations on it carry the bound of the type.
  \<^item> \<open>('a, 'e) res\<close> is \<open>Result<T, E>\<close> with a third outcome \<open>Panic\<close>: an index or slice out of
    range, \<open>unwrap\<close> of nothing, or an overflow of \<open>+\<close> and \<open>*\<close> on \<open>usize\<close>. Where a theorem
    excludes \<open>Panic\<close>, no intermediate sum wrapped, so that builds with and without overflow
    checks compute the same value.
  \<^item> A slice is a list. \<open>slice_range\<close> is \<open>&xs[a..b]\<close>, \<open>get_range\<close> is \<open>xs.get(a..b)\<close> and
    \<open>put_range\<close> is \<open>xs[a..a + n].copy_from_slice(bs)\<close> with \<open>n\<close> the length of \<open>bs\<close>.
\<close>

section \<open>Machine integers, results, slices\<close>

unbundle bit_operations_syntax

type_synonym u8 = "8 word"
type_synonym u16 = "16 word"
type_synonym u32 = "32 word"
type_synonym u64 = "64 word"
type_synonym usize = nat
type_synonym bytes = "u8 list"

named_theorems res_simps \<open>evaluation of results, slices and byte codecs\<close>

datatype ('a, 'e) res = Ok 'a | Err 'e | Panic

fun res_bind :: "('a, 'e) res \<Rightarrow> ('a \<Rightarrow> ('b, 'e) res) \<Rightarrow> ('b, 'e) res" where
  "res_bind (Ok x) k = k x"
| "res_bind (Err e) k = Err e"
| "res_bind Panic k = Panic"

fun map_err :: "('e \<Rightarrow> 'f) \<Rightarrow> ('a, 'e) res \<Rightarrow> ('a, 'f) res" where
  "map_err f (Ok x) = Ok x"
| "map_err f (Err e) = Err (f e)"
| "map_err f Panic = Panic"

fun ok_or :: "'a option \<Rightarrow> 'e \<Rightarrow> ('a, 'e) res" where
  "ok_or (Some x) e = Ok x"
| "ok_or None e = Err e"

fun is_Ok :: "('a, 'e) res \<Rightarrow> bool" where
  "is_Ok (Ok x) = True"
| "is_Ok (Err e) = False"
| "is_Ok Panic = False"

definition USIZE_MAX :: nat where
  "USIZE_MAX = 2 ^ 64 - 1"

text \<open>No Rust slice is longer than \<open>isize::MAX\<close> bytes.\<close>

definition ISIZE_MAX :: nat where
  "ISIZE_MAX = 2 ^ 63 - 1"

definition usize_add :: "usize \<Rightarrow> usize \<Rightarrow> (usize, 'e) res" where
  "usize_add a b = (if a + b \<le> USIZE_MAX then Ok (a + b) else Panic)"

definition usize_mul :: "usize \<Rightarrow> usize \<Rightarrow> (usize, 'e) res" where
  "usize_mul a b = (if a * b \<le> USIZE_MAX then Ok (a * b) else Panic)"

definition checked_add :: "usize \<Rightarrow> usize \<Rightarrow> usize option" where
  "checked_add a b = (if a + b \<le> USIZE_MAX then Some (a + b) else None)"

definition saturating_add :: "usize \<Rightarrow> usize \<Rightarrow> usize" where
  "saturating_add a b = min (a + b) USIZE_MAX"

definition slice_range :: "'a list \<Rightarrow> usize \<Rightarrow> usize \<Rightarrow> ('a list, 'e) res" where
  "slice_range xs a b =
     (if a \<le> b \<and> b \<le> length xs then Ok (take (b - a) (drop a xs)) else Panic)"

definition slice_from :: "'a list \<Rightarrow> usize \<Rightarrow> ('a list, 'e) res" where
  "slice_from xs a = (if a \<le> length xs then Ok (drop a xs) else Panic)"

definition get_range :: "'a list \<Rightarrow> usize \<Rightarrow> usize \<Rightarrow> 'a list option" where
  "get_range xs a b =
     (if a \<le> b \<and> b \<le> length xs then Some (take (b - a) (drop a xs)) else None)"

definition put_range :: "'a list \<Rightarrow> usize \<Rightarrow> 'a list \<Rightarrow> ('a list, 'e) res" where
  "put_range xs a bs =
     (if a + length bs \<le> length xs then Ok (take a xs @ bs @ drop (a + length bs) xs)
      else Panic)"

text \<open>A call \<open>f(&mut xs[a..a + n])\<close> that may fail: the callee sees and rewrites the sub-slice only.\<close>

definition on_slice ::
  "'a list \<Rightarrow> usize \<Rightarrow> usize \<Rightarrow> ('a list \<Rightarrow> ('a list, 'e) res) \<Rightarrow> ('a list, 'e) res" where
  "on_slice xs a n f =
     res_bind (slice_range xs a (a + n)) (\<lambda>s. res_bind (f s) (\<lambda>s'. put_range xs a s'))"

definition index :: "'a list \<Rightarrow> usize \<Rightarrow> ('a, 'e) res" where
  "index xs i = (if i < length xs then Ok (xs ! i) else Panic)"

section \<open>Little-endian codecs\<close>

fun le_bytes :: "nat \<Rightarrow> nat \<Rightarrow> bytes" where
  "le_bytes 0 n = []"
| "le_bytes (Suc k) n = word_of_nat n # le_bytes k (n div 256)"

fun le_val :: "bytes \<Rightarrow> nat" where
  "le_val [] = 0"
| "le_val (b # bs) = unat b + 256 * le_val bs"

definition to_le_bytes :: "'a::len word \<Rightarrow> bytes" where
  "to_le_bytes v = le_bytes (LENGTH('a) div 8) (unat v)"

definition from_le_bytes :: "bytes \<Rightarrow> 'a::len word" where
  "from_le_bytes bs = word_of_nat (le_val bs)"

definition to_be_bytes :: "'a::len word \<Rightarrow> bytes" where
  "to_be_bytes v = rev (to_le_bytes v)"

definition from_be_bytes :: "bytes \<Rightarrow> 'a::len word" where
  "from_be_bytes bs = from_le_bytes (rev bs)"

text \<open>\<open>T::from_le_bytes(b[off..off + n].try_into().unwrap())\<close>\<close>

definition read_le :: "bytes \<Rightarrow> usize \<Rightarrow> ('a::len word, 'e) res" where
  "read_le b off =
     res_bind (slice_range b off (off + LENGTH('a) div 8)) (\<lambda>s. Ok (from_le_bytes s))"

text \<open>\<open>out[off..off + n].copy_from_slice(&v.to_le_bytes())\<close>\<close>

definition write_le :: "bytes \<Rightarrow> usize \<Rightarrow> 'a::len word \<Rightarrow> (bytes, 'e) res" where
  "write_le out off v = put_range out off (to_le_bytes v)"

section \<open>Strings as bytes\<close>

text \<open>String literals of the source are ASCII; \<open>core::str::from_utf8\<close> accepts the well-formed
  UTF-8 sequences of the Unicode standard (no overlong forms, no surrogates, at most U+10FFFF).\<close>

definition ascii :: "string \<Rightarrow> bytes" where
  "ascii s = map of_char s"

definition utf8_cont :: "u8 \<Rightarrow> bool" where
  "utf8_cont b \<longleftrightarrow> 0x80 \<le> b \<and> b \<le> 0xBF"

fun utf8_valid :: "bytes \<Rightarrow> bool" where
  "utf8_valid [] = True"
| "utf8_valid (a # r) =
     (if a < 0x80 then utf8_valid r
      else case r of [] \<Rightarrow> False | b # r1 \<Rightarrow>
        if 0xC2 \<le> a \<and> a \<le> 0xDF then utf8_cont b \<and> utf8_valid r1
        else case r1 of [] \<Rightarrow> False | c # r2 \<Rightarrow>
          if 0xE0 \<le> a \<and> a \<le> 0xEF
          then (if a = 0xE0 then 0xA0 \<le> b \<and> b \<le> 0xBF
                else if a = 0xED then 0x80 \<le> b \<and> b \<le> 0x9F else utf8_cont b) \<and>
               utf8_cont c \<and> utf8_valid r2
          else case r2 of [] \<Rightarrow> False | d # r3 \<Rightarrow>
            0xF0 \<le> a \<and> a \<le> 0xF4 \<and>
            (if a = 0xF0 then 0x90 \<le> b \<and> b \<le> 0xBF
             else if a = 0xF4 then 0x80 \<le> b \<and> b \<le> 0x8F else utf8_cont b) \<and>
            utf8_cont c \<and> utf8_cont d \<and> utf8_valid r3)"

definition from_utf8 :: "bytes \<Rightarrow> bytes option" where
  "from_utf8 b = (if utf8_valid b then Some b else None)"

text \<open>\<open>s.iter().position(|&b| b == 0)\<close>\<close>

fun position_zero :: "bytes \<Rightarrow> usize option" where
  "position_zero [] = None"
| "position_zero (b # bs) = (if b = 0 then Some 0 else map_option Suc (position_zero bs))"

section \<open>Facts about results and slices\<close>

lemma res_bind_eq_Ok [simp]:
  "res_bind m k = Ok y \<longleftrightarrow> (\<exists>x. m = Ok x \<and> k x = Ok y)"
  by (cases m) auto

lemma res_bind_eq_Err [simp]:
  "res_bind m k = Err e \<longleftrightarrow> m = Err e \<or> (\<exists>x. m = Ok x \<and> k x = Err e)"
  by (cases m) auto

lemma res_bind_eq_Panic [simp]:
  "res_bind m k = Panic \<longleftrightarrow> m = Panic \<or> (\<exists>x. m = Ok x \<and> k x = Panic)"
  by (cases m) auto

lemma map_err_eq [simp]:
  "map_err f m = Ok x \<longleftrightarrow> m = Ok x"
  "map_err f m = Err e \<longleftrightarrow> (\<exists>e'. m = Err e' \<and> e = f e')"
  "map_err f m = Panic \<longleftrightarrow> m = Panic"
  by (cases m; auto)+

lemma ok_or_eq [simp]:
  "ok_or m e = Ok x \<longleftrightarrow> m = Some x"
  "ok_or m e = Err e' \<longleftrightarrow> m = None \<and> e' = e"
  "ok_or m e \<noteq> Panic"
  by (cases m; auto)+

lemma is_Ok_iff: "is_Ok m \<longleftrightarrow> (\<exists>x. m = Ok x)"
  by (cases m) auto

lemma usize_add_Ok [res_simps]: "a + b \<le> USIZE_MAX \<Longrightarrow> usize_add a b = Ok (a + b)"
  by (simp add: usize_add_def)

lemma usize_add_eq:
  "usize_add a b = Ok c \<longleftrightarrow> c = a + b \<and> a + b \<le> USIZE_MAX"
  "usize_add a b \<noteq> Err e"
  "usize_add a b = Panic \<longleftrightarrow> USIZE_MAX < a + b"
  by (auto simp: usize_add_def)

lemma slice_range_Ok [res_simps]:
  "a \<le> b \<Longrightarrow> b \<le> length xs \<Longrightarrow> slice_range xs a b = Ok (take (b - a) (drop a xs))"
  by (simp add: slice_range_def)

lemma slice_range_eq_Ok:
  "slice_range xs a b = Ok ys \<longleftrightarrow> a \<le> b \<and> b \<le> length xs \<and> ys = take (b - a) (drop a xs)"
  by (auto simp: slice_range_def)

lemma slice_range_not_Err [simp]: "slice_range xs a b \<noteq> Err e"
  by (simp add: slice_range_def)

lemma le_length_drop: "a + n \<le> length xs \<Longrightarrow> n \<le> length (drop a xs)"
  by simp

lemma slice_from_Ok [res_simps]: "a \<le> length xs \<Longrightarrow> slice_from xs a = Ok (drop a xs)"
  by (simp add: slice_from_def)

lemma put_range_Ok [res_simps]:
  "a + length bs \<le> length xs \<Longrightarrow>
   put_range xs a bs = Ok (take a xs @ bs @ drop (a + length bs) xs)"
  by (simp add: put_range_def)

lemma put_range_eq_Ok:
  "put_range xs a bs = Ok ys \<longleftrightarrow>
   a + length bs \<le> length xs \<and> ys = take a xs @ bs @ drop (a + length bs) xs"
  by (auto simp: put_range_def)

lemma put_range_not_Err [simp]: "put_range xs a bs \<noteq> Err e"
  by (simp add: put_range_def)

lemma put_range_length: "put_range xs a bs = Ok ys \<Longrightarrow> length ys = length xs"
  by (auto simp: put_range_eq_Ok)

text \<open>Writing right after a known prefix: the step of every field-by-field encoder.\<close>

lemma put_range_append:
  "off = length pre \<Longrightarrow> length bs \<le> length rest \<Longrightarrow>
   put_range (pre @ rest) off bs = Ok (pre @ bs @ drop (length bs) rest)"
  by (simp add: put_range_def)

lemma take_take_drop: "take m xs @ take n (drop m xs) = take (m + n) xs"
  by (simp add: take_add)

lemma nth_splice:
  assumes "a + length m \<le> length xs" and "j < length xs"
  shows "(take a xs @ m @ drop (a + length m) xs) ! j =
         (if a \<le> j \<and> j < a + length m then m ! (j - a) else xs ! j)"
  using assms by (auto simp: nth_append)

text \<open>To evaluate on a list of a given length.\<close>

lemma replicate_unroll: "replicate (numeral n) x = x # replicate (pred_numeral n) x"
  by (simp add: numeral_eq_Suc)

lemma drop_split: "drop a xs = take n (drop a xs) @ drop (a + n) xs"
  using append_take_drop_id [of n "drop a xs", symmetric] by (simp only: drop_drop add.commute)

lemma drop_split3:
  "drop a xs = take h (drop a xs) @ take s (drop (a + h) xs) @ take n (drop (a + h + s) xs) @
     drop (a + h + s + n) xs"
proof -
  have "drop a xs = take h (drop a xs) @ drop (a + h) xs" by (rule drop_split)
  also have "drop (a + h) xs = take s (drop (a + h) xs) @ drop (a + h + s) xs" by (rule drop_split)
  also have "drop (a + h + s) xs = take n (drop (a + h + s) xs) @ drop (a + h + s + n) xs"
    by (rule drop_split)
  finally show ?thesis .
qed

section \<open>Facts about the byte codecs\<close>

lemma length_le_bytes [simp]: "length (le_bytes k n) = k"
  by (induction k arbitrary: n) auto

lemma le_bytes_numeral:
  "le_bytes (numeral k) n = word_of_nat n # le_bytes (pred_numeral k) (n div 256)"
  by (simp only: numeral_eq_Suc [of k] le_bytes.simps)

lemma le_val_le_bytes: "le_val (le_bytes k n) = n mod 256 ^ k"
proof (induction k arbitrary: n)
  case 0
  then show ?case by simp
next
  case (Suc k)
  have "le_val (le_bytes (Suc k) n) = n mod 256 + 256 * (n div 256 mod 256 ^ k)"
    using Suc by (simp add: unat_of_nat)
  also have "\<dots> = n mod (256 * 256 ^ k)"
    by (simp add: mod_mult2_eq)
  finally show ?case by simp
qed

lemma le_val_bound: "le_val bs < 256 ^ length bs"
proof (induction bs)
  case Nil
  then show ?case by simp
next
  case (Cons b bs)
  have "unat b < 256" using unsigned_less [of b, where 'a = nat] by simp
  with Cons show ?case by simp
qed

lemma le_bytes_le_val: "le_bytes (length bs) (le_val bs) = bs"
proof (induction bs)
  case Nil
  then show ?case by simp
next
  case (Cons b bs)
  have b: "unat b < 256" using unsigned_less [of b, where 'a = nat] by simp
  have "(unat b + 256 * le_val bs) div 256 = le_val bs" using b by simp
  moreover have "word_of_nat (unat b + 256 * le_val bs) = b"
  proof (rule word_unat_eq_iff [THEN iffD2])
    show "unat (word_of_nat (unat b + 256 * le_val bs) :: u8) = unat b"
      using b by (simp add: unat_of_nat del: of_nat_add of_nat_mult)
  qed
  ultimately show ?case using Cons by (simp del: of_nat_add of_nat_mult)
qed

lemma length_to_le_bytes [simp]: "length (to_le_bytes (v :: 'a::len word)) = LENGTH('a) div 8"
  by (simp add: to_le_bytes_def)

lemma pow256: "(256 :: nat) ^ k = 2 ^ (8 * k)"
  by (simp add: power_mult)

lemma from_le_to_le:
  fixes v :: "'a::len word"
  assumes "8 dvd LENGTH('a)"
  shows "from_le_bytes (to_le_bytes v) = v"
proof -
  have "8 * (LENGTH('a) div 8) = LENGTH('a)" using assms by simp
  then have "unat v mod 256 ^ (LENGTH('a) div 8) = unat v"
    using unsigned_less [of v, where 'a = nat] by (simp add: pow256)
  then show ?thesis by (simp add: from_le_bytes_def to_le_bytes_def le_val_le_bytes)
qed

lemma to_le_from_le:
  assumes "8 dvd LENGTH('a)" and "length bs = LENGTH('a) div 8"
  shows "to_le_bytes (from_le_bytes bs :: 'a::len word) = bs"
proof -
  have "8 * length bs = LENGTH('a)" using assms by simp
  then have "le_val bs < 2 ^ LENGTH('a)"
    using le_val_bound [of bs] by (simp add: pow256)
  then have "unat (from_le_bytes bs :: 'a word) = le_val bs"
    by (simp add: from_le_bytes_def unat_of_nat)
  then show ?thesis using assms(2) le_bytes_le_val [of bs] by (simp add: to_le_bytes_def)
qed

lemma from_le_to_le_u16 [simp]: "from_le_bytes (to_le_bytes v) = (v :: u16)"
  and from_le_to_le_u32 [simp]: "from_le_bytes (to_le_bytes w) = (w :: u32)"
  and from_le_to_le_u64 [simp]: "from_le_bytes (to_le_bytes x) = (x :: u64)"
  by (simp_all add: from_le_to_le)

lemma to_le_read_u16 [simp]:
    "off + 2 \<le> length b \<Longrightarrow>
     to_le_bytes (from_le_bytes (take 2 (drop off b)) :: u16) = take 2 (drop off b)"
  and to_le_read_u32 [simp]:
    "off + 4 \<le> length b \<Longrightarrow>
     to_le_bytes (from_le_bytes (take 4 (drop off b)) :: u32) = take 4 (drop off b)"
  and to_le_read_u64 [simp]:
    "off + 8 \<le> length b \<Longrightarrow>
     to_le_bytes (from_le_bytes (take 8 (drop off b)) :: u64) = take 8 (drop off b)"
  by (simp_all add: to_le_from_le)

lemma read_le_Ok [res_simps]:
  "off + LENGTH('a) div 8 \<le> length b \<Longrightarrow>
   (read_le b off :: ('a::len word, 'e) res) =
     Ok (from_le_bytes (take (LENGTH('a) div 8) (drop off b)))"
  by (simp add: read_le_def slice_range_def)

lemma read_le_not_Err [simp]: "read_le b off \<noteq> Err e"
  by (auto simp: read_le_def)

text \<open>Reading the field that starts right after a known prefix.\<close>

lemma read_le_append:
  fixes v :: "'a::len word"
  assumes "8 dvd LENGTH('a)" and "off = length pre"
  shows "read_le (pre @ to_le_bytes v @ rest) off = Ok v"
  using assms by (simp add: read_le_Ok from_le_to_le)

end
