(* ===== verification/Slot_Table.thy ===== *)
theory Slot_Table
  imports Rust_Prelude
begin

text \<open>
  The slot tables behind sessions and instances. \<open>session.rs\<close> and \<open>instance.rs\<close> declare the same
  structure twice: a fixed vector of optional entries, each carrying its identifier, and a
  wrapping counter for the next identifier. The operations are written once over the two functions
  that read and set an entry's identifier; the locale \<open>slot_entry\<close> holds what both tables need of
  these functions and proves that a table refines a finite map from identifiers to entries.
\<close>

section \<open>Operations\<close>

record 'e slot_table =
  slots :: "'e option list"
  next_id :: u32

definition tbl_new :: "usize \<Rightarrow> 'e slot_table" where
  "tbl_new cap = \<lparr>slots = replicate cap None, next_id = 1\<rparr>"

fun flatten :: "'e option list \<Rightarrow> 'e list" where
  "flatten [] = []"
| "flatten (None # ss) = flatten ss"
| "flatten (Some e # ss) = e # flatten ss"

fun put_first :: "'e \<Rightarrow> 'e option list \<Rightarrow> 'e option list option" where
  "put_first e [] = None"
| "put_first e (None # ss) = Some (Some e # ss)"
| "put_first e (Some x # ss) = map_option ((#) (Some x)) (put_first e ss)"

fun modify_first :: "('e \<Rightarrow> bool) \<Rightarrow> ('e \<Rightarrow> 'e) \<Rightarrow> 'e option list \<Rightarrow> 'e option list" where
  "modify_first P f [] = []"
| "modify_first P f (None # ss) = None # modify_first P f ss"
| "modify_first P f (Some x # ss) = (if P x then Some (f x) # ss else Some x # modify_first P f ss)"

fun take_first :: "('e \<Rightarrow> bool) \<Rightarrow> 'e option list \<Rightarrow> 'e option \<times> 'e option list" where
  "take_first P [] = (None, [])"
| "take_first P (None # ss) = (let (r, ss') = take_first P ss in (r, None # ss'))"
| "take_first P (Some x # ss) =
     (if P x then (Some x, None # ss) else let (r, ss') = take_first P ss in (r, Some x # ss'))"

definition bump_id :: "u32 \<Rightarrow> u32" where
  "bump_id n = max (n + 1) 1"

definition tbl_alloc ::
  "(u32 \<Rightarrow> 'e \<Rightarrow> 'e) \<Rightarrow> 'e slot_table \<Rightarrow> 'e \<Rightarrow> u32 option \<times> 'e slot_table" where
  "tbl_alloc with_id t e =
     (let i = next_id t; t' = t\<lparr>next_id := bump_id (next_id t)\<rparr> in
      case put_first (with_id i e) (slots t') of
        Some ss \<Rightarrow> (Some i, t'\<lparr>slots := ss\<rparr>)
      | None \<Rightarrow> (None, t'))"

definition tbl_get :: "('e \<Rightarrow> u32) \<Rightarrow> 'e slot_table \<Rightarrow> u32 \<Rightarrow> 'e option" where
  "tbl_get ident t i = find (\<lambda>e. ident e = i) (flatten (slots t))"

text \<open>\<open>if let Some(e) = t.get_mut(i) { *e = f(*e) }\<close>\<close>

definition tbl_update :: "('e \<Rightarrow> u32) \<Rightarrow> 'e slot_table \<Rightarrow> u32 \<Rightarrow> ('e \<Rightarrow> 'e) \<Rightarrow> 'e slot_table" where
  "tbl_update ident t i f = t\<lparr>slots := modify_first (\<lambda>e. ident e = i) f (slots t)\<rparr>"

definition tbl_take :: "('e \<Rightarrow> u32) \<Rightarrow> 'e slot_table \<Rightarrow> u32 \<Rightarrow> 'e option \<times> 'e slot_table" where
  "tbl_take ident t i =
     (let (r, ss) = take_first (\<lambda>e. ident e = i) (slots t) in (r, t\<lparr>slots := ss\<rparr>))"

text \<open>
  The table invariant: identifiers are distinct, positive and older than the next one. It is kept
  as long as the counter has not wrapped around, which takes \<open>2^32 - 1\<close> allocations.
\<close>

definition tbl_ids :: "('e \<Rightarrow> u32) \<Rightarrow> 'e slot_table \<Rightarrow> u32 list" where
  "tbl_ids ident t = map ident (flatten (slots t))"

definition tbl_ok :: "('e \<Rightarrow> u32) \<Rightarrow> 'e slot_table \<Rightarrow> bool" where
  "tbl_ok ident t \<longleftrightarrow>
     distinct (tbl_ids ident t) \<and> 0 < unat (next_id t) \<and>
     (\<forall>i \<in> set (tbl_ids ident t). 0 < unat i \<and> unat i < unat (next_id t))"

definition not_wrapped :: "'e slot_table \<Rightarrow> bool" where
  "not_wrapped t \<longleftrightarrow> unat (next_id t) < 2 ^ 32 - 1"

section \<open>Lists of slots\<close>

lemma set_flatten: "e \<in> set (flatten ss) \<longleftrightarrow> Some e \<in> set ss"
  by (induction ss rule: flatten.induct) auto

lemma flatten_replicate [simp]: "flatten (replicate n None) = []"
  by (induction n) auto

lemma find_Some_iff_distinct:
  "distinct (map f xs) \<Longrightarrow> find (\<lambda>x. f x = i) xs = Some x \<longleftrightarrow> x \<in> set xs \<and> f x = i"
  by (induction xs) (auto simp: inj_on_def)

lemma find_append:
  "find P (xs @ ys) = (case find P xs of None \<Rightarrow> find P ys | Some x \<Rightarrow> Some x)"
  by (induction xs) auto

lemma put_first_None: "put_first e ss = None \<longleftrightarrow> None \<notin> set ss"
  by (induction e ss rule: put_first.induct) auto

lemma put_first_length: "put_first e ss = Some ss' \<Longrightarrow> length ss' = length ss"
  by (induction e ss arbitrary: ss' rule: put_first.induct) auto

lemma put_first_split:
  "put_first e ss = Some ss' \<Longrightarrow>
   \<exists>us vs. flatten ss = us @ vs \<and> flatten ss' = us @ e # vs"
proof (induction e ss arbitrary: ss' rule: put_first.induct)
  case (2 e ss)
  then show ?case by (auto intro: exI [of _ "[]"])
next
  case (3 e x ss)
  then obtain ss'' where s: "put_first e ss = Some ss''" "ss' = Some x # ss''" by auto
  with 3 obtain us vs where "flatten ss = us @ vs" "flatten ss'' = us @ e # vs" by blast
  then have "flatten (Some x # ss) = (x # us) @ vs" "flatten ss' = (x # us) @ e # vs"
    using s by auto
  then show ?case by blast
qed auto

lemma modify_first_length [simp]: "length (modify_first P f ss) = length ss"
  by (induction P f ss rule: modify_first.induct) auto

lemma modify_first_ids:
  "(\<And>e. P e \<Longrightarrow> ident (f e) = ident e) \<Longrightarrow>
   map ident (flatten (modify_first P f ss)) = map ident (flatten ss)"
  by (induction P f ss rule: modify_first.induct) auto

lemma find_modify_first:
  assumes "\<And>e. ident (f e) = ident e"
  shows "find (\<lambda>e. ident e = j) (flatten (modify_first (\<lambda>e. ident e = i) f ss)) =
         (if j = i then map_option f (find (\<lambda>e. ident e = i) (flatten ss))
          else find (\<lambda>e. ident e = j) (flatten ss))"
  by (induction ss rule: flatten.induct) (auto simp: assms)

lemma take_first_fst: "fst (take_first P ss) = find P (flatten ss)"
  by (induction P ss rule: take_first.induct) (auto split: prod.splits)

lemma take_first_length: "length (snd (take_first P ss)) = length ss"
  by (induction P ss rule: take_first.induct) (auto split: prod.splits)

lemma take_first_split:
  "find P (flatten ss) = Some e \<Longrightarrow>
   \<exists>us vs. flatten ss = us @ e # vs \<and> flatten (snd (take_first P ss)) = us @ vs"
proof (induction P ss rule: take_first.induct)
  case (2 P ss)
  then show ?case by (simp add: split_beta Let_def)
next
  case (3 P x ss)
  show ?case
  proof (cases "P x")
    case True
    with 3 show ?thesis by (auto intro: exI [of _ "[]"])
  next
    case False
    with 3 obtain us vs where "flatten ss = us @ e # vs" "flatten (snd (take_first P ss)) = us @ vs"
      by auto
    then have "flatten (Some x # ss) = (x # us) @ e # vs"
      "flatten (snd (take_first P (Some x # ss))) = (x # us) @ vs"
      using False by (auto split: prod.splits)
    then show ?thesis by blast
  qed
qed simp

lemma take_first_none: "find P (flatten ss) = None \<Longrightarrow> snd (take_first P ss) = ss"
  by (induction P ss rule: take_first.induct) (auto split: prod.splits if_splits)

lemma unat_bump: "unat n < 2 ^ 32 - 1 \<Longrightarrow> unat (bump_id n) = unat n + 1"
proof -
  assume n: "unat n < 2 ^ 32 - 1"
  then have "unat (n + 1) = unat n + 1" by (simp add: unat_word_ariths)
  moreover have "1 \<le> n + 1" using n by (simp add: word_le_nat_alt unat_word_ariths)
  ultimately show ?thesis by (simp add: bump_id_def max_def)
qed

section \<open>A table refines a finite map\<close>

locale slot_entry =
  fixes ident :: "'e \<Rightarrow> u32"
    and with_id :: "u32 \<Rightarrow> 'e \<Rightarrow> 'e"
  assumes ident_with_id [simp]: "ident (with_id i e) = i"
begin

lemma get_new [simp]: "tbl_get ident (tbl_new cap) = Map.empty"
  by (simp add: tbl_get_def tbl_new_def fun_eq_iff)

lemma ok_new: "tbl_ok ident (tbl_new cap)"
  by (simp add: tbl_ok_def tbl_new_def tbl_ids_def)

lemma get_in_set: "tbl_get ident t i = Some e \<Longrightarrow> Some e \<in> set (slots t) \<and> ident e = i"
  by (auto simp: tbl_get_def find_Some_iff set_flatten [symmetric])

lemma get_ident: "tbl_get ident t i = Some e \<Longrightarrow> ident e = i"
  by (simp add: get_in_set)

lemma in_set_get: "tbl_ok ident t \<Longrightarrow> Some e \<in> set (slots t) \<Longrightarrow> tbl_get ident t (ident e) = Some e"
  by (simp add: tbl_ok_def tbl_ids_def tbl_get_def find_Some_iff_distinct set_flatten)

lemma get_old: "tbl_ok ident t \<Longrightarrow> tbl_get ident t i = Some e \<Longrightarrow> 0 < unat i \<and> unat i < unat (next_id t)"
  by (auto simp: tbl_ok_def tbl_ids_def dest!: get_in_set simp: set_flatten)

lemma get_next: "tbl_ok ident t \<Longrightarrow> tbl_get ident t (next_id t) = None"
  using get_old by (metis less_irrefl not_Some_eq)

lemma finite_dom: "finite (dom (tbl_get ident t))"
proof (rule finite_subset)
  show "dom (tbl_get ident t) \<subseteq> ident ` set (flatten (slots t))"
    by (auto simp: set_flatten dest!: get_in_set)
qed simp

lemma card_dom: "card (dom (tbl_get ident t)) \<le> length (slots t)"
proof -
  have "length (flatten ss) \<le> length ss" for ss :: "'e option list"
    by (induction ss rule: flatten.induct) auto
  moreover have "dom (tbl_get ident t) \<subseteq> ident ` set (flatten (slots t))"
    by (auto simp: set_flatten dest!: get_in_set)
  then have "card (dom (tbl_get ident t)) \<le> length (flatten (slots t))"
    by (meson card_image_le card_length card_mono finite_imageI finite_set le_trans)
  ultimately show ?thesis using le_trans by blast
qed

lemma alloc_full:
  "fst (tbl_alloc with_id t e) = None \<longleftrightarrow> None \<notin> set (slots t)"
  using put_first_None [of "with_id (next_id t) e" "slots t"]
  by (auto simp: tbl_alloc_def Let_def split: option.splits)

lemma alloc_id: "tbl_alloc with_id t e = (Some i, t') \<Longrightarrow> i = next_id t"
  by (auto simp: tbl_alloc_def Let_def split: option.splits)

lemma alloc_next: "tbl_alloc with_id t e = (r, t') \<Longrightarrow> next_id t' = bump_id (next_id t)"
  by (auto simp: tbl_alloc_def Let_def split: option.splits)

lemma alloc_length: "tbl_alloc with_id t e = (r, t') \<Longrightarrow> length (slots t') = length (slots t)"
  by (auto simp: tbl_alloc_def Let_def put_first_length split: option.splits)

lemma alloc_none_get: "tbl_alloc with_id t e = (None, t') \<Longrightarrow> tbl_get ident t' = tbl_get ident t"
  by (auto simp: tbl_alloc_def Let_def tbl_get_def split: option.splits)

lemma alloc_get:
  assumes "tbl_ok ident t" and "tbl_alloc with_id t e = (Some i, t')"
  shows "tbl_get ident t' = (tbl_get ident t)(i \<mapsto> with_id i e)"
proof -
  have i: "i = next_id t" using alloc_id assms(2) by blast
  from assms(2) i obtain ss where put: "put_first (with_id i e) (slots t) = Some ss" and t': "slots t' = ss"
    by (auto simp: tbl_alloc_def Let_def split: option.splits)
  obtain us vs where uv: "flatten (slots t) = us @ vs" "flatten ss = us @ with_id i e # vs"
    using put_first_split [OF put] by blast
  have "find (\<lambda>x. ident x = i) us = None"
    using get_next [OF assms(1)] uv i by (auto simp: tbl_get_def find_None_iff)
  then show ?thesis
    by (auto simp: tbl_get_def t' uv fun_eq_iff find_append split: option.splits)
qed

lemma alloc_ok:
  assumes "tbl_ok ident t" and "not_wrapped t" and "tbl_alloc with_id t e = (r, t')"
  shows "tbl_ok ident t'"
proof (cases r)
  case None
  with assms show ?thesis
    by (auto simp: tbl_alloc_def Let_def tbl_ok_def tbl_ids_def not_wrapped_def unat_bump
        less_Suc_eq split: option.splits)
next
  case (Some i)
  with assms(3) have i: "i = next_id t" using alloc_id by blast
  from assms(3) Some i obtain ss where
    put: "put_first (with_id i e) (slots t) = Some ss" and t': "slots t' = ss"
    by (auto simp: tbl_alloc_def Let_def split: option.splits)
  obtain us vs where uv: "flatten (slots t) = us @ vs" "flatten ss = us @ with_id i e # vs"
    using put_first_split [OF put] by blast
  have nx: "unat (next_id t') = unat (next_id t) + 1"
    using assms(2) alloc_next [OF assms(3)] by (simp add: not_wrapped_def unat_bump)
  have "i \<notin> set (tbl_ids ident t)" using assms(1) i by (auto simp: tbl_ok_def)
  with assms(1) show ?thesis
    by (auto simp: tbl_ok_def tbl_ids_def uv t' nx i less_Suc_eq)
qed

lemma update_get:
  "(\<And>e. ident (f e) = ident e) \<Longrightarrow>
   tbl_get ident (tbl_update ident t i f) =
     (\<lambda>j. if j = i then map_option f (tbl_get ident t i) else tbl_get ident t j)"
  by (auto simp: tbl_get_def tbl_update_def fun_eq_iff find_modify_first)

lemma update_length [simp]: "length (slots (tbl_update ident t i f)) = length (slots t)"
  by (simp add: tbl_update_def)

lemma update_next [simp]: "next_id (tbl_update ident t i f) = next_id t"
  by (simp add: tbl_update_def)

lemma update_ok:
  "(\<And>e. ident (f e) = ident e) \<Longrightarrow> tbl_ok ident (tbl_update ident t i f) = tbl_ok ident t"
  by (simp add: tbl_ok_def tbl_ids_def tbl_update_def modify_first_ids)

lemma take_fst: "fst (tbl_take ident t i) = tbl_get ident t i"
  by (simp add: tbl_take_def tbl_get_def take_first_fst split_beta)

lemma take_next [simp]: "next_id (snd (tbl_take ident t i)) = next_id t"
  by (simp add: tbl_take_def split_beta)

lemma take_length [simp]: "length (slots (snd (tbl_take ident t i))) = length (slots t)"
  by (simp add: tbl_take_def split_beta take_first_length)

lemma take_split:
  assumes "tbl_get ident t i = Some e"
  obtains us vs where "flatten (slots t) = us @ e # vs"
    "flatten (slots (snd (tbl_take ident t i))) = us @ vs"
  using take_first_split [of "\<lambda>e. ident e = i" "slots t" e] assms that
  by (auto simp: tbl_get_def tbl_take_def split_beta)

lemma take_get:
  assumes "tbl_ok ident t"
  shows "tbl_get ident (snd (tbl_take ident t i)) = (tbl_get ident t)(i := None)"
proof (cases "tbl_get ident t i")
  case None
  then show ?thesis
    by (auto simp: tbl_take_def tbl_get_def split_beta take_first_none fun_eq_iff)
next
  case (Some e)
  then obtain us vs where uv: "flatten (slots t) = us @ e # vs"
    "flatten (slots (snd (tbl_take ident t i))) = us @ vs"
    using take_split by blast
  have e: "ident e = i" using get_ident Some by blast
  have "i \<notin> ident ` set us" "i \<notin> ident ` set vs"
    using assms e by (auto simp: tbl_ok_def tbl_ids_def uv)
  then have "find (\<lambda>x. ident x = i) us = None" "find (\<lambda>x. ident x = i) vs = None"
    by (auto simp: find_None_iff)
  then show ?thesis
    using e by (auto simp: tbl_get_def uv fun_eq_iff find_append split: option.splits)
qed

lemma take_ok:
  assumes "tbl_ok ident t"
  shows "tbl_ok ident (snd (tbl_take ident t i))"
proof (cases "tbl_get ident t i")
  case None
  then have "snd (tbl_take ident t i) = t"
    by (simp add: tbl_take_def tbl_get_def split_beta take_first_none)
  with assms show ?thesis by simp
next
  case (Some e)
  then obtain us vs where "flatten (slots t) = us @ e # vs"
    "flatten (slots (snd (tbl_take ident t i))) = us @ vs"
    using take_split by blast
  with assms show ?thesis by (auto simp: tbl_ok_def tbl_ids_def)
qed

lemma map_slots_ok:
  "(\<And>e. ident (f e) = ident e) \<Longrightarrow>
   tbl_ok ident (t\<lparr>slots := map (map_option f) (slots t)\<rparr>) = tbl_ok ident t"
proof -
  assume f: "\<And>e. ident (f e) = ident e"
  have "map ident (flatten (map (map_option f) ss)) = map ident (flatten ss)" for ss
    by (induction ss rule: flatten.induct) (auto simp: f)
  then show ?thesis by (simp add: tbl_ok_def tbl_ids_def)
qed

lemma map_slots_get:
  "(\<And>e. ident (f e) = ident e) \<Longrightarrow>
   tbl_get ident (t\<lparr>slots := map (map_option f) (slots t)\<rparr>) i = map_option f (tbl_get ident t i)"
proof -
  assume f: "\<And>e. ident (f e) = ident e"
  have "find (\<lambda>e. ident e = i) (flatten (map (map_option f) ss)) =
        map_option f (find (\<lambda>e. ident e = i) (flatten ss))" for ss
    by (induction ss rule: flatten.induct) (auto simp: f)
  then show ?thesis by (simp add: tbl_get_def)
qed

end

end
