(* ===== verification/Os_Abi.thy ===== *)
theory Os_Abi
  imports Rust_Prelude
begin

text \<open>
  The kernel's system-call types, \<open>crates/rustee-os/src/abi.rs\<close>: results and origins, logins,
  parameters, commands and answers, and the marshalling of the four parameters to the raw
  \<open>TEE_Param\<close> union a trusted application sees (\<open>param_types_of\<close>, \<open>params_to_raw\<close>,
  \<open>params_from_raw\<close>). A \<open>Uuid\<close> is a list of 16 bytes and a parameter array a list of four
  parameters; a raw parameter is the two machine words of the union.
\<close>

section \<open>Constants\<close>

definition PARAM_COUNT :: usize where "PARAM_COUNT = 4"
definition TEE_SUCCESS :: u32 where "TEE_SUCCESS = 0x00000000"
definition TEE_ERROR_CANCEL :: u32 where "TEE_ERROR_CANCEL = 0xFFFF0002"
definition TEE_ERROR_BAD_PARAMETERS :: u32 where "TEE_ERROR_BAD_PARAMETERS = 0xFFFF0006"
definition TEE_ERROR_ITEM_NOT_FOUND :: u32 where "TEE_ERROR_ITEM_NOT_FOUND = 0xFFFF0008"
definition TEE_ERROR_NOT_SUPPORTED :: u32 where "TEE_ERROR_NOT_SUPPORTED = 0xFFFF000A"
definition TEE_ERROR_OUT_OF_MEMORY :: u32 where "TEE_ERROR_OUT_OF_MEMORY = 0xFFFF000C"
definition TEE_ERROR_BUSY :: u32 where "TEE_ERROR_BUSY = 0xFFFF000D"
definition TEE_ERROR_SECURITY :: u32 where "TEE_ERROR_SECURITY = 0xFFFF000F"
definition TEE_ERROR_TARGET_DEAD :: u32 where "TEE_ERROR_TARGET_DEAD = 0xFFFF3024"
definition TEE_ORIGIN_TEE :: u32 where "TEE_ORIGIN_TEE = 0x00000003"
definition TEE_ORIGIN_TRUSTED_APP :: u32 where "TEE_ORIGIN_TRUSTED_APP = 0x00000004"

definition TEE_PARAM_TYPE_VALUE_INPUT :: u32 where "TEE_PARAM_TYPE_VALUE_INPUT = 1"
definition TEE_PARAM_TYPE_VALUE_OUTPUT :: u32 where "TEE_PARAM_TYPE_VALUE_OUTPUT = 2"
definition TEE_PARAM_TYPE_VALUE_INOUT :: u32 where "TEE_PARAM_TYPE_VALUE_INOUT = 3"
definition TEE_PARAM_TYPE_MEMREF_INPUT :: u32 where "TEE_PARAM_TYPE_MEMREF_INPUT = 5"
definition TEE_PARAM_TYPE_MEMREF_OUTPUT :: u32 where "TEE_PARAM_TYPE_MEMREF_OUTPUT = 6"
definition TEE_PARAM_TYPE_MEMREF_INOUT :: u32 where "TEE_PARAM_TYPE_MEMREF_INOUT = 7"

lemmas tee_code_defs =
  TEE_SUCCESS_def TEE_ERROR_CANCEL_def TEE_ERROR_BAD_PARAMETERS_def TEE_ERROR_ITEM_NOT_FOUND_def
  TEE_ERROR_NOT_SUPPORTED_def TEE_ERROR_OUT_OF_MEMORY_def TEE_ERROR_BUSY_def
  TEE_ERROR_SECURITY_def TEE_ERROR_TARGET_DEAD_def

lemmas param_type_defs =
  TEE_PARAM_TYPE_VALUE_INPUT_def TEE_PARAM_TYPE_VALUE_OUTPUT_def TEE_PARAM_TYPE_VALUE_INOUT_def
  TEE_PARAM_TYPE_MEMREF_INPUT_def TEE_PARAM_TYPE_MEMREF_OUTPUT_def
  TEE_PARAM_TYPE_MEMREF_INOUT_def

section \<open>Types\<close>

type_synonym uuid = bytes
type_synonym session_id = u32
type_synonym instance_id = u32

datatype origin = Origin_Tee | Origin_TrustedApp

primrec as_gp :: "origin \<Rightarrow> u32" where
  "as_gp Origin_Tee = TEE_ORIGIN_TEE"
| "as_gp Origin_TrustedApp = TEE_ORIGIN_TRUSTED_APP"

record tee_result =
  res_code :: u32
  res_origin :: origin

definition TeeResult_ok :: tee_result where
  "TeeResult_ok = \<lparr>res_code = TEE_SUCCESS, res_origin = Origin_Tee\<rparr>"
definition TeeResult_tee :: "u32 \<Rightarrow> tee_result" where
  "TeeResult_tee code = \<lparr>res_code = code, res_origin = Origin_Tee\<rparr>"
definition TeeResult_ta :: "u32 \<Rightarrow> tee_result" where
  "TeeResult_ta code = \<lparr>res_code = code, res_origin = Origin_TrustedApp\<rparr>"

datatype dir = Dir_In | Dir_Out | Dir_InOut

datatype login =
    Login_Public
  | Login_User
  | Login_Group u32
  | Login_Application
  | Login_UserApplication
  | Login_GroupApplication u32
  | Login_TrustedApp uuid

datatype memref_src =
    Ree u64 usize
  | Ta usize

datatype param =
    PNone
  | PValue u32 u32 dir
  | PMemref memref_src usize dir

datatype hal_rpc = Rpc_LoadTa uuid | Rpc_GetTime | Rpc_Fs | Rpc_ShmAlloc | Rpc_ShmFree

datatype rpc_response =
    Resp_LoadTa bytes
  | Resp_Time u32 u32
  | Resp_Fs u32
  | Resp_Shm u64
  | Resp_Error u32

datatype kernel_cmd =
    OpenSession uuid login "param list" u32 u32
  | Invoke session_id u32 "param list" u32 u32
  | CloseSession session_id
  | Cancel u32
  | RpcComplete rpc_response

datatype kernel_out =
    Done tee_result "session_id option" "param list"
  | Rpc hal_rpc

definition no_params :: "param list" where
  "no_params = replicate PARAM_COUNT PNone"

definition done_err :: "u32 \<Rightarrow> kernel_out" where
  "done_err code = Done (TeeResult_tee code) None no_params"

section \<open>Displaying a UUID\<close>

definition hex_digit :: "nat \<Rightarrow> char" where
  "hex_digit n = ''0123456789abcdef'' ! n"

definition hex2 :: "u8 \<Rightarrow> string" where
  "hex2 b = [hex_digit (unat b div 16), hex_digit (unat b mod 16)]"

definition uuid_display :: "uuid \<Rightarrow> string" where
  "uuid_display u =
     concat (map (\<lambda>i. (if i = 4 \<or> i = 6 \<or> i = 8 \<or> i = 10 then ''-'' else '''') @ hex2 (u ! i))
       [0..<length u])"

section \<open>Raw parameters\<close>

text \<open>
  \<open>ParamRaw\<close> is a C union of a memref (pointer and size) and a value (two 32-bit words): two
  64-bit words, of which a value occupies the low and high half of the first.
\<close>

record param_raw =
  raw0 :: u64
  raw1 :: u64

definition memref_raw :: "u64 \<Rightarrow> usize \<Rightarrow> param_raw" where
  "memref_raw buffer sz = \<lparr>raw0 = buffer, raw1 = word_of_nat sz\<rparr>"

definition value_raw :: "u32 \<Rightarrow> u32 \<Rightarrow> param_raw" where
  "value_raw a b = \<lparr>raw0 = ucast a OR push_bit 32 (ucast b), raw1 = 0\<rparr>"

definition raw_buffer :: "param_raw \<Rightarrow> u64" where "raw_buffer r = raw0 r"
definition raw_size :: "param_raw \<Rightarrow> usize" where "raw_size r = unat (raw1 r)"
definition raw_a :: "param_raw \<Rightarrow> u32" where "raw_a r = ucast (raw0 r)"
definition raw_b :: "param_raw \<Rightarrow> u32" where "raw_b r = ucast (drop_bit 32 (raw0 r))"

definition ParamRaw_none :: param_raw where
  "ParamRaw_none = value_raw 0 0"

text \<open>Entry points are code addresses; what the code there does is a parameter of the kernel.\<close>

record ta_entry_points =
  ep_create :: u64
  ep_destroy :: u64
  ep_open_session :: u64
  ep_close_session :: u64
  ep_invoke :: u64

fun param_type :: "param \<Rightarrow> u32" where
  "param_type PNone = 0"
| "param_type (PValue a b Dir_In) = TEE_PARAM_TYPE_VALUE_INPUT"
| "param_type (PValue a b Dir_Out) = TEE_PARAM_TYPE_VALUE_OUTPUT"
| "param_type (PValue a b Dir_InOut) = TEE_PARAM_TYPE_VALUE_INOUT"
| "param_type (PMemref s n Dir_In) = TEE_PARAM_TYPE_MEMREF_INPUT"
| "param_type (PMemref s n Dir_Out) = TEE_PARAM_TYPE_MEMREF_OUTPUT"
| "param_type (PMemref s n Dir_InOut) = TEE_PARAM_TYPE_MEMREF_INOUT"

fun types_loop :: "nat \<Rightarrow> param list \<Rightarrow> u32 \<Rightarrow> u32" where
  "types_loop i [] t = t"
| "types_loop i (p # ps) t = types_loop (Suc i) ps (t OR push_bit (4 * i) (param_type p))"

definition param_types_of :: "param list \<Rightarrow> u32" where
  "param_types_of params = types_loop 0 params 0"

fun param_to_raw :: "param \<Rightarrow> param_raw" where
  "param_to_raw PNone = ParamRaw_none"
| "param_to_raw (PValue a b d) = value_raw a b"
| "param_to_raw (PMemref (Ta va) n d) = memref_raw (word_of_nat va) n"
| "param_to_raw (PMemref (Ree ck offs) n d) = memref_raw 0 n"

definition params_to_raw :: "param list \<Rightarrow> param_raw list" where
  "params_to_raw params = map param_to_raw params"

fun param_from_raw :: "param \<Rightarrow> param_raw \<Rightarrow> param" where
  "param_from_raw (PValue a b Dir_Out) r = PValue (raw_a r) (raw_b r) Dir_Out"
| "param_from_raw (PValue a b Dir_InOut) r = PValue (raw_a r) (raw_b r) Dir_InOut"
| "param_from_raw (PMemref s n Dir_Out) r = PMemref s (raw_size r) Dir_Out"
| "param_from_raw (PMemref s n Dir_InOut) r = PMemref s (raw_size r) Dir_InOut"
| "param_from_raw p r = p"

definition params_from_raw :: "param list \<Rightarrow> param_raw list \<Rightarrow> param list" where
  "params_from_raw params raw = map (\<lambda>i. param_from_raw (params ! i) (raw ! i)) [0..<PARAM_COUNT]"

text \<open>What a trusted application cannot change: the kind, the direction and the source of a
  parameter, and the whole of an input.\<close>

fun is_output :: "param \<Rightarrow> bool" where
  "is_output (PValue a b d) = (d \<noteq> Dir_In)"
| "is_output (PMemref s n d) = (d \<noteq> Dir_In)"
| "is_output PNone = False"

fun same_shape :: "param \<Rightarrow> param \<Rightarrow> bool" where
  "same_shape PNone PNone = True"
| "same_shape (PValue a b d) (PValue a' b' d') = (d = d')"
| "same_shape (PMemref s n d) (PMemref s' n' d') = (s = s' \<and> d = d')"
| "same_shape p q = False"

fun wf_param :: "param \<Rightarrow> bool" where
  "wf_param (PMemref (Ree ck offs) n d) = (offs \<le> USIZE_MAX \<and> n \<le> USIZE_MAX)"
| "wf_param (PMemref (Ta va) n d) = (va \<le> USIZE_MAX \<and> n \<le> USIZE_MAX)"
| "wf_param p = True"

section \<open>Marshalling lemmas\<close>

lemma not_bit_u32 [simp]: "\<not> bit (w :: u32) (32 + n)"
  using bit_imp_le_length [of w "32 + n"] by auto

lemma raw_value [simp]: "raw_a (value_raw a b) = a" "raw_b (value_raw a b) = b"
  by (auto simp: raw_a_def raw_b_def value_raw_def bit_simps intro!: bit_word_eqI)

lemma raw_memref [simp]:
  "raw_buffer (memref_raw p n) = p"
  "n \<le> USIZE_MAX \<Longrightarrow> raw_size (memref_raw p n) = n"
  by (simp_all add: raw_buffer_def raw_size_def memref_raw_def USIZE_MAX_def unat_of_nat)

lemma length_params_from_raw [simp]: "length (params_from_raw ps raw) = 4"
  by (simp add: params_from_raw_def PARAM_COUNT_def)

lemma length_no_params [simp]: "length no_params = 4"
  by (simp add: no_params_def PARAM_COUNT_def)

lemma nth_params_from_raw:
  "i < 4 \<Longrightarrow> params_from_raw ps raw ! i = param_from_raw (ps ! i) (raw ! i)"
  by (simp add: params_from_raw_def PARAM_COUNT_def)

lemma param_type_low: "param_type p AND mask 3 = param_type p"
  by (cases p rule: param_type.cases) (simp_all add: param_type_defs mask_eq_exp_minus_1)

lemma bit_param_type: "bit (param_type p) n \<Longrightarrow> n < 3"
  by (metis param_type_low bit_and_iff bit_mask_iff)

lemma bit_types_loop:
  "bit (types_loop i ps t) n \<longleftrightarrow>
   bit t n \<or> (\<exists>j < length ps. 4 * (i + j) \<le> n \<and> n < 32 \<and> bit (param_type (ps ! j)) (n - 4 * (i + j)))"
proof (induction ps arbitrary: i t)
  case Nil
  then show ?case by simp
next
  case (Cons p ps)
  have split: "(\<exists>j < length (p # ps). Q j) \<longleftrightarrow> Q 0 \<or> (\<exists>j < length ps. Q (Suc j))" for Q
    by (simp add: Ex_less_Suc2)
  show ?case
    unfolding split by (auto simp: Cons.IH bit_simps add_ac)
qed

lemma types_nibble:
  assumes "length ps = 4" and "i < 4"
  shows "drop_bit (4 * i) (param_types_of ps) AND 0xf = param_type (ps ! i)"
proof (rule bit_word_eqI)
  fix n assume "n < LENGTH(32)"
  have m: "(0xf :: u32) = mask 4" by (simp add: mask_eq_exp_minus_1)
  have "(n < 4 \<and> (\<exists>j < 4. 4 * j \<le> 4 * i + n \<and> 4 * i + n < 32 \<and>
           bit (param_type (ps ! j)) (4 * i + n - 4 * j))) \<longleftrightarrow>
        bit (param_type (ps ! i)) n" (is "?L \<longleftrightarrow> ?R")
  proof
    assume ?L
    then obtain j where j: "n < 4" "4 * j \<le> 4 * i + n" "bit (param_type (ps ! j)) (4 * i + n - 4 * j)"
      by blast
    with bit_param_type have "4 * i + n - 4 * j < 3" by blast
    with j have "j = i" by linarith
    with j show ?R by simp
  next
    assume ?R
    with bit_param_type have "n < 3" by blast
    with \<open>?R\<close> assms(2) show ?L by (auto intro!: exI [of _ i])
  qed
  then show "bit (drop_bit (4 * i) (param_types_of ps) AND 0xf) n = bit (param_type (ps ! i)) n"
    unfolding m using assms(1) by (auto simp: param_types_of_def bit_types_loop bit_simps)
qed

lemma same_shape_from_raw: "same_shape p (param_from_raw p r)"
  by (cases "(p, r)" rule: param_from_raw.cases) auto

lemma param_from_raw_input: "\<not> is_output p \<Longrightarrow> param_from_raw p r = p"
  by (cases "(p, r)" rule: param_from_raw.cases) auto

lemma param_from_to_raw: "wf_param p \<Longrightarrow> param_from_raw p (param_to_raw p) = p"
proof (cases p)
  case (PValue a b d)
  then show ?thesis by (cases d) auto
next
  case (PMemref s n d)
  assume "wf_param p"
  with PMemref show ?thesis by (cases s; cases d) auto
qed simp

lemma wf_param_from_raw: "wf_param p \<Longrightarrow> wf_param (param_from_raw p r)"
proof -
  have "raw_size r \<le> USIZE_MAX"
    using unsigned_less [of "raw1 r", where 'a = nat] by (simp add: raw_size_def USIZE_MAX_def)
  moreover assume "wf_param p"
  ultimately show ?thesis
    by (cases "(p, r)" rule: param_from_raw.cases; cases "case p of PMemref s n d \<Rightarrow> s")
      (auto elim!: wf_param.elims)
qed

section \<open>Properties of the parameter marshalling\<close>

text \<open>What the application finds in a slot of the raw array.\<close>

fun raw_shows :: "param \<Rightarrow> param_raw \<Rightarrow> bool" where
  "raw_shows PNone r = (raw_a r = 0 \<and> raw_b r = 0)"
| "raw_shows (PValue a b d) r = (raw_a r = a \<and> raw_b r = b)"
| "raw_shows (PMemref (Ta va) n d) r = (unat (raw_buffer r) = va \<and> raw_size r = n)"
| "raw_shows (PMemref (Ree ck offs) n d) r = (raw_buffer r = 0 \<and> raw_size r = n)"

lemma raw_shows_to_raw: "wf_param p \<Longrightarrow> raw_shows p (param_to_raw p)"
  by (cases p rule: param_to_raw.cases) (auto simp: ParamRaw_none_def USIZE_MAX_def unat_of_nat)

text \<open>C3. The four-bit code at position \<open>4 i\<close> of the parameter types a trusted application receives
  is the kind and direction of parameter \<open>i\<close>, for each of the four; its slot of the raw array holds,
  whatever the direction, both words of a value, the address and size of memory of the
  application, the size and no address for shared memory (which is mapped later), and zeros for none;
  and reading the raw parameters back without a change by the application restores every parameter.\<close>

theorem param_marshalling:
  assumes "length ps = 4" and "\<forall>p \<in> set ps. wf_param p"
  shows "(\<forall>i < 4. drop_bit (4 * i) (param_types_of ps) AND 0xf = param_type (ps ! i)) \<and>
         length (params_to_raw ps) = 4 \<and> (\<forall>i < 4. raw_shows (ps ! i) (params_to_raw ps ! i)) \<and>
         params_from_raw ps (params_to_raw ps) = ps"
proof (intro conjI)
  show "\<forall>i < 4. drop_bit (4 * i) (param_types_of ps) AND 0xf = param_type (ps ! i)"
    using assms(1) types_nibble by blast
  show "length (params_to_raw ps) = 4" "\<forall>i < 4. raw_shows (ps ! i) (params_to_raw ps ! i)"
    using assms by (simp_all add: params_to_raw_def raw_shows_to_raw)
  show "params_from_raw ps (params_to_raw ps) = ps"
    using assms by (intro nth_equalityI)
      (auto simp: nth_params_from_raw params_to_raw_def param_from_to_raw)
qed

theorem param_marshalling_witness:
  "raw_shows (PValue 1 2 Dir_In) (params_to_raw [PValue 1 2 Dir_In, PMemref (Ta 64) 16 Dir_Out, PNone, PNone] ! 0) \<and>
   params_from_raw [PValue 1 2 Dir_In, PMemref (Ta 64) 16 Dir_Out, PNone, PNone]
     (params_to_raw [PValue 1 2 Dir_In, PMemref (Ta 64) 16 Dir_Out, PNone, PNone]) =
   [PValue 1 2 Dir_In, PMemref (Ta 64) 16 Dir_Out, PNone, PNone]"
  using param_marshalling [of "[PValue 1 2 Dir_In, PMemref (Ta 64) 16 Dir_Out, PNone, PNone]"]
  by (auto simp: USIZE_MAX_def simp del: raw_shows.simps dest: spec [where x = 0])

text \<open>C4. Whatever a trusted application leaves in the raw parameters, the parameters handed back
  to the client keep their kind, direction and memory source, and every input parameter is the
  client's own.\<close>

theorem outputs_only:
  assumes "length ps = 4" and "i < 4"
  shows "same_shape (ps ! i) (params_from_raw ps raw ! i) \<and>
         (\<not> is_output (ps ! i) \<longrightarrow> params_from_raw ps raw ! i = ps ! i)"
  using assms by (simp add: nth_params_from_raw same_shape_from_raw param_from_raw_input)

theorem outputs_only_witness:
  "params_from_raw [PValue 1 2 Dir_In, PNone, PNone, PNone]
     (replicate 4 (value_raw 9 9)) ! 0 = PValue 1 2 Dir_In"
  using outputs_only [of "[PValue 1 2 Dir_In, PNone, PNone, PNone]" 0 "replicate 4 (value_raw 9 9)"]
  by simp

end
