(* ===== verification/Ta_Header.thy ===== *)
theory Ta_Header
  imports Os_Abi
begin

text \<open>
  The trusted-application header and the signed envelope, \<open>crates/rustee-os/src/header.rs\<close>: the
  40-byte \<open>.rustee.ta_head\<close> record with its validation, the \<open>RTSG\<close> envelope, and the search for
  the header section in an ELF64 image. Errors are GlobalPlatform codes; \<open>Panic\<close> is a Rust panic
  (index out of range or, in a build with overflow checks, an arithmetic overflow).
\<close>

section \<open>Definitions\<close>

definition RTAH_MAGIC :: u32 where "RTAH_MAGIC = 0x48415452"
definition RTAH_ABI :: u16 where "RTAH_ABI = 0"
definition RTAH_SIZE :: u16 where "RTAH_SIZE = 40"
definition RTSG_MAGIC :: u32 where "RTSG_MAGIC = 0x47535452"
definition RTSG_ABI :: u16 where "RTSG_ABI = 0"
definition SECTION_NAME :: bytes where "SECTION_NAME = ascii ''.rustee.ta_head''"

record ta_properties =
  tp_uuid :: uuid
  tp_stack_size :: u32
  tp_data_size :: u32
  tp_single_instance :: bool
  tp_multi_session :: bool
  tp_instance_keep_alive :: bool
  tp_endian :: u8
  tp_ta_version :: u32

definition validate :: "ta_properties \<Rightarrow> (unit, u32) res" where
  "validate p =
     (if tp_endian p \<noteq> 0 then Err TEE_ERROR_BAD_PARAMETERS
      else if tp_stack_size p = 0 \<or> tp_data_size p = 0 then Err TEE_ERROR_BAD_PARAMETERS
      else if \<not> tp_single_instance p \<and> (tp_multi_session p \<or> tp_instance_keep_alive p)
      then Err TEE_ERROR_BAD_PARAMETERS
      else Ok ())"

definition parse_ta_head :: "bytes \<Rightarrow> (ta_properties, u32) res" where
  "parse_ta_head b =
     (if length b < unat RTAH_SIZE then Err TEE_ERROR_BAD_PARAMETERS
      else
        res_bind (read_le b 0) (\<lambda>magic.
        res_bind (read_le b 4) (\<lambda>abi.
        res_bind (read_le b 6) (\<lambda>sz.
        if magic \<noteq> RTAH_MAGIC \<or> abi \<noteq> RTAH_ABI \<or> sz \<noteq> RTAH_SIZE
        then Err TEE_ERROR_BAD_PARAMETERS
        else
          res_bind (slice_range b 8 24) (\<lambda>uuid.
          res_bind (read_le b 24) (\<lambda>stack_size.
          res_bind (read_le b 28) (\<lambda>data_size.
          res_bind (index b 32) (\<lambda>si.
          res_bind (index b 33) (\<lambda>ms.
          res_bind (index b 34) (\<lambda>ka.
          res_bind (index b 35) (\<lambda>en.
          res_bind (read_le b 36) (\<lambda>ta_version.
          let props = \<lparr>tp_uuid = uuid, tp_stack_size = stack_size, tp_data_size = data_size,
                       tp_single_instance = (si \<noteq> 0), tp_multi_session = (ms \<noteq> 0),
                       tp_instance_keep_alive = (ka \<noteq> 0), tp_endian = en,
                       tp_ta_version = ta_version\<rparr>
          in res_bind (validate props) (\<lambda>_. Ok props)))))))))))))"

definition bool_u8 :: "bool \<Rightarrow> u8" where
  "bool_u8 b = (if b then 1 else 0)"

definition encode_ta_head :: "ta_properties \<Rightarrow> bytes" where
  "encode_ta_head p =
     to_le_bytes RTAH_MAGIC @ to_le_bytes RTAH_ABI @ to_le_bytes RTAH_SIZE @ tp_uuid p @
     to_le_bytes (tp_stack_size p) @ to_le_bytes (tp_data_size p) @
     [bool_u8 (tp_single_instance p), bool_u8 (tp_multi_session p),
      bool_u8 (tp_instance_keep_alive p), tp_endian p] @
     to_le_bytes (tp_ta_version p)"

record signed_image =
  si_uuid :: uuid
  si_ta_version :: u32
  si_hash :: bytes
  si_sig :: bytes
  si_elf :: bytes

definition parse_rtsg :: "bytes \<Rightarrow> (signed_image, u32) res" where
  "parse_rtsg b =
     (if length b < 40 then Err TEE_ERROR_BAD_PARAMETERS
      else
        res_bind (read_le b 0) (\<lambda>magic.
        res_bind (read_le b 4) (\<lambda>abi.
        if magic \<noteq> RTSG_MAGIC \<or> abi \<noteq> RTSG_ABI then Err TEE_ERROR_SECURITY
        else
          res_bind (slice_range b 8 24) (\<lambda>uuid.
          res_bind (read_le b 24) (\<lambda>ta_version.
          res_bind (read_le b 28 :: (u32, u32) res) (\<lambda>img.
          res_bind (read_le b 32 :: (u16, u32) res) (\<lambda>hash.
          res_bind (read_le b 34 :: (u16, u32) res) (\<lambda>sig.
          let img_size = unat img; hash_size = unat hash; sig_size = unat sig; rest = 36 in
          if length b < rest + hash_size + sig_size + img_size then Err TEE_ERROR_BAD_PARAMETERS
          else
            res_bind (slice_range b rest (rest + hash_size)) (\<lambda>hash.
            res_bind (slice_range b (rest + hash_size) (rest + hash_size + sig_size)) (\<lambda>sig.
            res_bind (slice_range b (rest + hash_size + sig_size)
                        (rest + hash_size + sig_size + img_size)) (\<lambda>elf.
            Ok \<lparr>si_uuid = uuid, si_ta_version = ta_version, si_hash = hash, si_sig = sig,
                si_elf = elf\<rparr>)))))))))))"

definition ELF_MAGIC :: bytes where
  "ELF_MAGIC = [0x7f, 0x45, 0x4c, 0x46]"

definition section_name :: "bytes \<Rightarrow> usize \<Rightarrow> bytes option" where
  "section_name strtab off =
     Option.bind (get_range strtab off (length strtab)) (\<lambda>s.
     Option.bind (position_zero s) (\<lambda>e. from_utf8 (take e s)))"

fun section_loop ::
  "bytes \<Rightarrow> bytes \<Rightarrow> bytes \<Rightarrow> usize \<Rightarrow> usize \<Rightarrow> nat list \<Rightarrow> (bytes, u32) res" where
  "section_loop img name strtab shoff shentsize [] = Err TEE_ERROR_BAD_PARAMETERS"
| "section_loop img name strtab shoff shentsize (i # is) =
     res_bind (usize_mul i shentsize) (\<lambda>m.
     res_bind (usize_add shoff m) (\<lambda>off.
     res_bind (usize_add off 64) (\<lambda>e.
     if length img < e then Err TEE_ERROR_BAD_PARAMETERS
     else
       res_bind (read_le img off :: (u32, u32) res) (\<lambda>name_off.
       res_bind (read_le img (off + 24) :: (u64, u32) res) (\<lambda>sec_off.
       res_bind (read_le img (off + 32) :: (u64, u32) res) (\<lambda>sec_size.
       if section_name strtab (unat name_off) = Some name
       then ok_or (get_range img (unat sec_off) (saturating_add (unat sec_off) (unat sec_size)))
              TEE_ERROR_BAD_PARAMETERS
       else section_loop img name strtab shoff shentsize is))))))"

definition elf64_section :: "bytes \<Rightarrow> bytes \<Rightarrow> (bytes, u32) res" where
  "elf64_section img name =
     (if length img < 64 \<or> take 4 img \<noteq> ELF_MAGIC \<or> img ! 4 \<noteq> 2 \<or> img ! 5 \<noteq> 1
      then Err TEE_ERROR_BAD_PARAMETERS
      else
        res_bind (read_le img 40 :: (u64, u32) res) (\<lambda>shoff.
        res_bind (read_le img 58 :: (u16, u32) res) (\<lambda>shentsize.
        res_bind (read_le img 60 :: (u16, u32) res) (\<lambda>shnum.
        res_bind (read_le img 62 :: (u16, u32) res) (\<lambda>shstrndx.
        if unat shentsize < 64 \<or> unat shoff = 0 then Err TEE_ERROR_BAD_PARAMETERS
        else
          res_bind (usize_mul (unat shstrndx) (unat shentsize)) (\<lambda>m.
          res_bind (usize_add (unat shoff) m) (\<lambda>shstr.
          res_bind (usize_add shstr 64) (\<lambda>e.
          if length img < e then Err TEE_ERROR_BAD_PARAMETERS
          else
            res_bind (read_le img (shstr + 24) :: (u64, u32) res) (\<lambda>str_off.
            res_bind (read_le img (shstr + 32) :: (u64, u32) res) (\<lambda>str_size.
            res_bind (ok_or (get_range img (unat str_off)
                               (saturating_add (unat str_off) (unat str_size)))
                        TEE_ERROR_BAD_PARAMETERS) (\<lambda>strtab.
            section_loop img name strtab (unat shoff) (unat shentsize) [0..<unat shnum])))))))))))"

definition find_ta_head :: "bytes \<Rightarrow> (bytes, u32) res" where
  "find_ta_head img =
     (if 40 \<le> length img \<and> (from_le_bytes (take 4 img) :: u32) = RTAH_MAGIC
      then Ok (take 40 img)
      else elf64_section img SECTION_NAME)"

section \<open>The header record\<close>

definition wf_props :: "ta_properties \<Rightarrow> bool" where
  "wf_props p \<longleftrightarrow> length (tp_uuid p) = 16"

lemma length_encode_ta_head: "wf_props p \<Longrightarrow> length (encode_ta_head p) = 40"
  by (simp add: encode_ta_head_def wf_props_def)

lemma index_Ok [res_simps]: "i < length xs \<Longrightarrow> index xs i = Ok (xs ! i)"
  by (simp add: index_def)

lemma unat_RTAH_SIZE [simp]: "unat RTAH_SIZE = 40"
  by (simp add: RTAH_SIZE_def)

lemma bool_u8_eq [simp]: "bool_u8 b = 0 \<longleftrightarrow> \<not> b"
  by (simp add: bool_u8_def)

lemma parse_encode_ta_head:
  assumes "wf_props p"
  shows "parse_ta_head (encode_ta_head p @ rest) = res_bind (validate p) (\<lambda>_. Ok p)"
  using assms
  by (cases p) (simp add: parse_ta_head_def encode_ta_head_def wf_props_def res_simps nth_append Let_def)

lemma parse_ta_head_props:
  assumes "parse_ta_head b = Ok p"
  shows "wf_props p \<and> validate p = Ok () \<and> 40 \<le> length b"
proof -
  have len: "40 \<le> length b"
    using assms by (auto simp: parse_ta_head_def split: if_splits)
  then show ?thesis using assms
    by (auto simp: parse_ta_head_def res_simps wf_props_def Let_def split: if_splits)
qed

lemma parse_ta_head_not_Panic: "parse_ta_head b \<noteq> Panic"
  by (auto simp: parse_ta_head_def res_simps validate_def Let_def split: if_splits)

section \<open>The signed envelope\<close>

lemma parse_rtsg_not_Panic: "parse_rtsg b \<noteq> Panic"
  by (auto simp: parse_rtsg_def res_simps Let_def split: if_splits)

lemma parse_rtsg_inv:
  assumes "parse_rtsg b = Ok si"
  shows "40 \<le> length b \<and> length (si_uuid si) = 16 \<and> si_uuid si = take 16 (drop 8 b) \<and>
         si_ta_version si = from_le_bytes (take 4 (drop 24 b)) \<and>
         (\<exists>post. drop 36 b = si_hash si @ si_sig si @ si_elf si @ post) \<and>
         length (si_hash si) = unat (from_le_bytes (take 2 (drop 32 b)) :: u16) \<and>
         length (si_sig si) = unat (from_le_bytes (take 2 (drop 34 b)) :: u16) \<and>
         length (si_elf si) = unat (from_le_bytes (take 4 (drop 28 b)) :: u32)"
proof -
  have len: "40 \<le> length b"
    using assms by (auto simp: parse_rtsg_def split: if_splits)
  define h where "h = unat (from_le_bytes (take 2 (drop 32 b)) :: u16)"
  define s where "s = unat (from_le_bytes (take 2 (drop 34 b)) :: u16)"
  define n where "n = unat (from_le_bytes (take 4 (drop 28 b)) :: u32)"
  have si: "36 + h + s + n \<le> length b"
    "si = \<lparr>si_uuid = take 16 (drop 8 b), si_ta_version = from_le_bytes (take 4 (drop 24 b)),
      si_hash = take h (drop 36 b), si_sig = take s (drop (36 + h) b),
      si_elf = take n (drop (36 + h + s) b)\<rparr>"
    using len assms
    by (auto simp: parse_rtsg_def res_simps Let_def not_less h_def s_def n_def split: if_splits)
  have "\<exists>post. drop 36 b = si_hash si @ si_sig si @ si_elf si @ post"
    unfolding si(2) signed_image.simps by (rule exI, rule drop_split3)
  moreover have "length (si_uuid si) = 16" "si_uuid si = take 16 (drop 8 b)"
    "si_ta_version si = from_le_bytes (take 4 (drop 24 b))"
    "length (si_hash si) = h" "length (si_sig si) = s" "length (si_elf si) = n"
    using si len by simp_all
  ultimately show ?thesis using len unfolding h_def s_def n_def by blast
qed

section \<open>The section search\<close>

lemma usize_mul_u16: "unat (a :: u16) * unat (b :: u16) \<le> 65535 * 65535"
proof -
  have "unat a \<le> 65535" "unat b \<le> 65535"
    using unsigned_less [of a, where 'a = nat] unsigned_less [of b, where 'a = nat] by simp_all
  then show ?thesis by (rule mult_le_mono)
qed

lemma usize_mul_Ok: "a * b \<le> USIZE_MAX \<Longrightarrow> usize_mul a b = Ok (a * b)"
  by (simp add: usize_mul_def)

lemma section_loop_not_Panic:
  assumes "length img \<le> ISIZE_MAX" and "ent \<le> 65535" and "m \<le> 65535"
    and "n \<le> m" and "n < m \<longrightarrow> shoff + n * ent + 64 \<le> USIZE_MAX"
  shows "section_loop img name strtab shoff ent [n..<m] \<noteq> Panic"
  using assms(4,5)
proof (induction "m - n" arbitrary: n)
  case 0
  then show ?case by simp
next
  case (Suc d)
  then have upt: "[n..<m] = n # [Suc n..<m]" by (simp add: upt_rec)
  have fits: "shoff + n * ent + 64 \<le> USIZE_MAX" using Suc by simp
  have "n * ent \<le> 65535 * 65535"
    using Suc.hyps assms(2,3) by (intro mult_le_mono) auto
  then have mul: "(usize_mul n ent :: (usize, u32) res) = Ok (n * ent)"
    by (simp add: usize_mul_Ok USIZE_MAX_def)
  show ?case
  proof (cases "length img < shoff + n * ent + 64")
    case True
    with fits mul show ?thesis by (simp add: upt usize_add_def)
  next
    case False
    then have "shoff + Suc n * ent + 64 \<le> USIZE_MAX"
      using assms(1,2) by (simp add: ISIZE_MAX_def USIZE_MAX_def)
    then have "section_loop img name strtab shoff ent [Suc n..<m] \<noteq> Panic"
      using Suc by (intro Suc.hyps(1)) auto
    with False fits mul show ?thesis
      by (auto simp: upt usize_add_def read_le_Ok)
  qed
qed

text \<open>Where the search panics: the section-name header is computed without an overflow check.\<close>

definition elf_ident :: "bytes \<Rightarrow> bool" where
  "elf_ident img \<longleftrightarrow> 64 \<le> length img \<and> take 4 img = ELF_MAGIC \<and> img ! 4 = 2 \<and> img ! 5 = 1"

definition sh_off :: "bytes \<Rightarrow> usize" where
  "sh_off img = unat (from_le_bytes (take 8 (drop 40 img)) :: u64)"

definition sh_entsize :: "bytes \<Rightarrow> usize" where
  "sh_entsize img = unat (from_le_bytes (take 2 (drop 58 img)) :: u16)"

definition sh_strndx :: "bytes \<Rightarrow> usize" where
  "sh_strndx img = unat (from_le_bytes (take 2 (drop 62 img)) :: u16)"

lemma elf64_section_Panic_iff:
  assumes "length img \<le> ISIZE_MAX"
  shows "elf64_section img name = Panic \<longleftrightarrow>
         elf_ident img \<and> 64 \<le> sh_entsize img \<and> sh_off img \<noteq> 0 \<and>
         USIZE_MAX < sh_off img + sh_strndx img * sh_entsize img + 64"
    (is "_ \<longleftrightarrow> ?over")
proof (cases "elf_ident img \<and> 64 \<le> sh_entsize img \<and> sh_off img \<noteq> 0")
  case False
  then show ?thesis
    by (auto simp: elf64_section_def elf_ident_def sh_entsize_def sh_off_def res_simps)
next
  case True
  then have len: "64 \<le> length img" by (simp add: elf_ident_def)
  have mul: "(usize_mul (sh_strndx img) (sh_entsize img) :: (usize, u32) res) =
             Ok (sh_strndx img * sh_entsize img)"
    using usize_mul_u16 [of "from_le_bytes (take 2 (drop 62 img))"
        "from_le_bytes (take 2 (drop 58 img))"]
    by (intro usize_mul_Ok) (simp add: sh_strndx_def sh_entsize_def USIZE_MAX_def)
  have u16: "sh_entsize img \<le> 65535" for img
    using unsigned_less [of "from_le_bytes (take 2 (drop 58 img)) :: u16", where 'a = nat]
    by (simp add: sh_entsize_def)
  have shnum: "unat (from_le_bytes (take 2 (drop 60 img)) :: u16) \<le> 65535"
    using unsigned_less [of "from_le_bytes (take 2 (drop 60 img)) :: u16", where 'a = nat] by simp
  define shstr where "shstr = sh_off img + sh_strndx img * sh_entsize img"
  have loop: "shstr + 64 \<le> USIZE_MAX \<Longrightarrow>
      section_loop img name strtab (sh_off img) (sh_entsize img)
        [0..<unat (from_le_bytes (take 2 (drop 60 img)) :: u16)] \<noteq> Panic" for strtab
    using assms u16 shnum by (intro section_loop_not_Panic) (auto simp: shstr_def)
  have "elf64_section img name =
    res_bind (usize_add (sh_off img) (sh_strndx img * sh_entsize img)) (\<lambda>shstr.
          res_bind (usize_add shstr 64) (\<lambda>e.
          if length img < e then Err TEE_ERROR_BAD_PARAMETERS
          else
            res_bind (read_le img (shstr + 24) :: (u64, u32) res) (\<lambda>str_off.
            res_bind (read_le img (shstr + 32) :: (u64, u32) res) (\<lambda>str_size.
            res_bind (ok_or (get_range img (unat str_off)
                               (saturating_add (unat str_off) (unat str_size)))
                        TEE_ERROR_BAD_PARAMETERS) (\<lambda>strtab.
            section_loop img name strtab (sh_off img) (sh_entsize img)
              [0..<unat (from_le_bytes (take 2 (drop 60 img)) :: u16)])))))"
    using True len mul unfolding sh_off_def sh_entsize_def sh_strndx_def
    by (simp add: elf64_section_def elf_ident_def read_le_Ok)
  with True loop show ?thesis
    by (auto simp: usize_add_def read_le_Ok shstr_def)
qed

lemma find_ta_head_Panic_iff:
  assumes "length img \<le> ISIZE_MAX"
  shows "find_ta_head img = Panic \<longleftrightarrow>
         (from_le_bytes (take 4 img) :: u32) \<noteq> RTAH_MAGIC \<and>
         elf_ident img \<and> 64 \<le> sh_entsize img \<and> sh_off img \<noteq> 0 \<and>
         USIZE_MAX < sh_off img + sh_strndx img * sh_entsize img + 64"
  using elf64_section_Panic_iff [OF assms, of SECTION_NAME]
  by (auto simp: find_ta_head_def elf_ident_def)

section \<open>Properties of the header and the envelope\<close>

text \<open>C6. The header codec: parsing an encoded header (whatever follows it) returns the same
  properties exactly when they pass validation, and the validation error otherwise; every parsed
  header is validated, so a trusted application that is not single-instance is neither
  multi-session nor kept alive, and has a stack and a heap; the parser never panics.\<close>

theorem ta_head_codec:
  assumes "wf_props p"
  shows "parse_ta_head (encode_ta_head p @ rest) = res_bind (validate p) (\<lambda>_. Ok p) \<and>
         parse_ta_head b \<noteq> Panic \<and>
         (\<forall>q. parse_ta_head b = Ok q \<longrightarrow>
            length (tp_uuid q) = 16 \<and> tp_stack_size q \<noteq> 0 \<and> tp_data_size q \<noteq> 0 \<and> tp_endian q = 0 \<and>
            (tp_multi_session q \<or> tp_instance_keep_alive q \<longrightarrow> tp_single_instance q))"
proof -
  have "length (tp_uuid q) = 16 \<and> tp_stack_size q \<noteq> 0 \<and> tp_data_size q \<noteq> 0 \<and> tp_endian q = 0 \<and>
        (tp_multi_session q \<or> tp_instance_keep_alive q \<longrightarrow> tp_single_instance q)"
    if "parse_ta_head b = Ok q" for q
    using parse_ta_head_props [OF that] by (auto simp: validate_def wf_props_def split: if_splits)
  with assms show ?thesis by (simp add: parse_encode_ta_head parse_ta_head_not_Panic)
qed

theorem ta_head_codec_witness:
  "parse_ta_head (encode_ta_head
     \<lparr>tp_uuid = replicate 16 7, tp_stack_size = 4096, tp_data_size = 4096,
      tp_single_instance = True, tp_multi_session = True, tp_instance_keep_alive = False,
      tp_endian = 0, tp_ta_version = 3\<rparr> @ [1]) =
   Ok \<lparr>tp_uuid = replicate 16 7, tp_stack_size = 4096, tp_data_size = 4096,
      tp_single_instance = True, tp_multi_session = True, tp_instance_keep_alive = False,
      tp_endian = 0, tp_ta_version = 3\<rparr>"
  using ta_head_codec [of "\<lparr>tp_uuid = replicate 16 7, tp_stack_size = 4096, tp_data_size = 4096,
      tp_single_instance = True, tp_multi_session = True, tp_instance_keep_alive = False,
      tp_endian = 0, tp_ta_version = 3\<rparr>" "[1]" "[]"]
  by (simp add: wf_props_def validate_def)

text \<open>The signed envelope is cut into adjacent pieces: when \<open>parse_rtsg\<close> accepts, what follows
  the 36-byte header starts with the hash, then the signature, then the image, with the lengths
  the header gives; the UUID and version are the header's; the parser never panics.\<close>

lemma rtsg_layout:
  "parse_rtsg b \<noteq> Panic \<and>
   (\<forall>si. parse_rtsg b = Ok si \<longrightarrow>
      (\<exists>post. drop 36 b = si_hash si @ si_sig si @ si_elf si @ post) \<and>
      length (si_hash si) = unat (from_le_bytes (take 2 (drop 32 b)) :: u16) \<and>
      length (si_sig si) = unat (from_le_bytes (take 2 (drop 34 b)) :: u16) \<and>
      length (si_elf si) = unat (from_le_bytes (take 4 (drop 28 b)) :: u32) \<and>
      si_uuid si = take 16 (drop 8 b) \<and>
      si_ta_version si = from_le_bytes (take 4 (drop 24 b)))"
  using parse_rtsg_not_Panic parse_rtsg_inv by blast

text \<open>C7. The exact images on which the header search panics: an ELF64 identification, a section
  entry size of at least 64, a section offset that is not zero, and a section-name header whose
  end overflows the address space. On every other image it returns a slice or an error code.\<close>

theorem find_ta_head_panics_iff:
  assumes "length img \<le> ISIZE_MAX"
  shows "find_ta_head img = Panic \<longleftrightarrow>
         (from_le_bytes (take 4 img) :: u32) \<noteq> RTAH_MAGIC \<and>
         elf_ident img \<and> 64 \<le> sh_entsize img \<and> sh_off img \<noteq> 0 \<and>
         USIZE_MAX < sh_off img + sh_strndx img * sh_entsize img + 64"
  using assms by (rule find_ta_head_Panic_iff)

theorem find_ta_head_panics_witness:
  "find_ta_head
     [0x7f, 0x45, 0x4c, 0x46, 2, 1, 0, 0, 0, 0, 0, 0, 0, 0, 0, 0, 0, 0, 0, 0, 0, 0, 0,
      0, 0, 0, 0, 0, 0, 0, 0, 0, 0, 0, 0, 0, 0, 0, 0, 0, 255, 255, 255, 255, 255, 255, 255, 255,
      0, 0, 0, 0, 0, 0, 0, 0, 0, 0, 64, 0, 0, 0, 0, 0] = Panic"
proof -
  let ?img = "[0x7f, 0x45, 0x4c, 0x46, 2, 1, 0, 0, 0, 0, 0, 0, 0, 0, 0, 0, 0, 0, 0, 0, 0, 0, 0,
      0, 0, 0, 0, 0, 0, 0, 0, 0, 0, 0, 0, 0, 0, 0, 0, 0, 255, 255, 255, 255, 255, 255, 255, 255,
      0, 0, 0, 0, 0, 0, 0, 0, 0, 0, 64, 0, 0, 0, 0, 0] :: bytes"
  have "length ?img \<le> ISIZE_MAX" by (simp add: ISIZE_MAX_def)
  from find_ta_head_panics_iff [OF this] show ?thesis
    by (simp add: ELF_MAGIC_def elf_ident_def sh_entsize_def sh_off_def sh_strndx_def USIZE_MAX_def
        RTAH_MAGIC_def from_le_bytes_def)
qed

end
