(* ===== verification/Os_Tables.thy ===== *)
theory Os_Tables
  imports Slot_Table Ta_Header
begin

text \<open>
  Sessions and instances, \<open>crates/rustee-os/src/session.rs\<close> and \<open>instance.rs\<close>: the two records, their
  tables as interpretations of the slot table, and the table operations that are particular to
  one of them (\<open>poison_instance\<close>, \<open>count_for_instance\<close>, \<open>live_single\<close>).
\<close>

section \<open>Sessions\<close>

datatype session_kind = UserTa | Pta

datatype session_state = S_Opening | S_Ready | S_Busy | S_Closing | S_Dead

record session =
  s_id :: session_id
  s_uuid :: uuid
  s_kind :: session_kind
  s_instance :: "instance_id option"
  s_ta_sess_ctx :: usize
  s_state :: session_state
  s_client :: login

type_synonym session_table = "session slot_table"

abbreviation session_set_id :: "u32 \<Rightarrow> session \<Rightarrow> session" where
  "session_set_id i s \<equiv> s\<lparr>s_id := i\<rparr>"

abbreviation session_new :: "usize \<Rightarrow> session_table" where
  "session_new \<equiv> tbl_new"

abbreviation session_alloc :: "session_table \<Rightarrow> session \<Rightarrow> u32 option \<times> session_table" where
  "session_alloc \<equiv> tbl_alloc session_set_id"

abbreviation session_get :: "session_table \<Rightarrow> u32 \<Rightarrow> session option" where
  "session_get \<equiv> tbl_get s_id"

abbreviation session_take :: "session_table \<Rightarrow> u32 \<Rightarrow> session option \<times> session_table" where
  "session_take \<equiv> tbl_take s_id"

definition poison_session :: "instance_id \<Rightarrow> session \<Rightarrow> session" where
  "poison_session inst s = (if s_instance s = Some inst then s\<lparr>s_state := S_Dead\<rparr> else s)"

definition poison_instance :: "session_table \<Rightarrow> instance_id \<Rightarrow> session_table" where
  "poison_instance t inst = t\<lparr>slots := map (map_option (poison_session inst)) (slots t)\<rparr>"

definition count_for_instance :: "session_table \<Rightarrow> instance_id \<Rightarrow> u16" where
  "count_for_instance t inst =
     word_of_nat (length (filter (\<lambda>s. s_instance s = Some inst \<and> s_state s \<noteq> S_Dead)
       (flatten (slots t))))"

section \<open>Instances\<close>

datatype instance_state = I_Creating | I_Live | I_Dying | I_Dead

record 'a ta_instance =
  i_id :: instance_id
  i_uuid :: uuid
  i_props :: ta_properties
  i_aspace :: "'a option"
  i_session_count :: u16
  i_state :: instance_state
  i_entries :: "ta_entry_points option"
  i_busy :: bool

type_synonym 'a instance_table = "'a ta_instance slot_table"

abbreviation instance_set_id :: "u32 \<Rightarrow> 'a ta_instance \<Rightarrow> 'a ta_instance" where
  "instance_set_id i x \<equiv> x\<lparr>i_id := i\<rparr>"

abbreviation instance_new :: "usize \<Rightarrow> 'a instance_table" where
  "instance_new \<equiv> tbl_new"

abbreviation instance_alloc ::
  "'a instance_table \<Rightarrow> 'a ta_instance \<Rightarrow> u32 option \<times> 'a instance_table" where
  "instance_alloc \<equiv> tbl_alloc instance_set_id"

abbreviation instance_get :: "'a instance_table \<Rightarrow> u32 \<Rightarrow> 'a ta_instance option" where
  "instance_get \<equiv> tbl_get i_id"

abbreviation instance_update ::
  "'a instance_table \<Rightarrow> u32 \<Rightarrow> ('a ta_instance \<Rightarrow> 'a ta_instance) \<Rightarrow> 'a instance_table" where
  "instance_update \<equiv> tbl_update i_id"

abbreviation instance_drop_id ::
  "'a instance_table \<Rightarrow> u32 \<Rightarrow> 'a ta_instance option \<times> 'a instance_table" where
  "instance_drop_id \<equiv> tbl_take i_id"

definition is_live_single :: "uuid \<Rightarrow> 'a ta_instance \<Rightarrow> bool" where
  "is_live_single u x \<longleftrightarrow> i_uuid x = u \<and> tp_single_instance (i_props x) \<and> i_state x = I_Live"

definition live_single :: "'a instance_table \<Rightarrow> uuid \<Rightarrow> instance_id option" where
  "live_single t u = map_option i_id (find (is_live_single u) (flatten (slots t)))"

section \<open>The two tables are slot tables\<close>

interpretation ses: slot_entry s_id session_set_id
  by unfold_locales simp

interpretation ins: slot_entry i_id instance_set_id
  by unfold_locales simp

lemma poison_id [simp]: "s_id (poison_session i s) = s_id s"
  by (simp add: poison_session_def)

lemma poison_get:
  "session_get (poison_instance t i) j = map_option (poison_session i) (session_get t j)"
  unfolding poison_instance_def by (rule ses.map_slots_get) simp

lemma poison_ok [simp]: "tbl_ok s_id (poison_instance t i) = tbl_ok s_id t"
  unfolding poison_instance_def by (rule ses.map_slots_ok) simp

lemma poison_next [simp]: "next_id (poison_instance t i) = next_id t"
  by (simp add: poison_instance_def)

lemma poison_length [simp]: "length (slots (poison_instance t i)) = length (slots t)"
  by (simp add: poison_instance_def)

lemma live_single_Some:
  assumes "tbl_ok i_id t" and "live_single t u = Some i"
  obtains x where "instance_get t i = Some x" "is_live_single u x"
proof -
  from assms(2) obtain x where x: "find (is_live_single u) (flatten (slots t)) = Some x" "i = i_id x"
    by (auto simp: live_single_def)
  then have "Some x \<in> set (slots t)" "is_live_single u x"
    by (auto simp: find_Some_iff set_flatten [symmetric])
  with that ins.in_set_get [OF assms(1)] x(2) show ?thesis by blast
qed

lemma live_single_None:
  assumes "live_single t u = None" and "instance_get t i = Some x"
  shows "\<not> is_live_single u x"
  using assms ins.get_in_set [of t i x] by (auto simp: live_single_def find_None_iff set_flatten)

end
