(* ===== verification/Table_Spec.thy ===== *)
theory Table_Spec
  imports Os_Tables
begin

text \<open>
  What the session and instance tables promise their client, and that they keep it: a bounded
  finite map whose identifiers are drawn in order and never reused. The promise is stated as an
  abstract machine on partial maps; a run of the table from its creation gives the same replies.
  The last property is the end of the promise: what happens when the 32-bit counter wraps around.
\<close>

section \<open>The specification\<close>

datatype 'e table_op = Op_alloc 'e | Op_take u32 | Op_get u32

datatype 'e table_reply = Rep_id "u32 option" | Rep_entry "'e option"

type_synonym 'e table_spec = "(u32 \<rightharpoonup> 'e) \<times> nat"

text \<open>\<open>cap\<close> entries at most; the second component is the next identifier.\<close>

fun spec_step ::
  "(u32 \<Rightarrow> 'e \<Rightarrow> 'e) \<Rightarrow> nat \<Rightarrow> 'e table_spec \<Rightarrow> 'e table_op \<Rightarrow> 'e table_reply \<times> 'e table_spec" where
  "spec_step set_id cap (m, n) (Op_alloc e) =
     (if card (dom m) < cap
      then (Rep_id (Some (word_of_nat n)), m(word_of_nat n \<mapsto> set_id (word_of_nat n) e), n + 1)
      else (Rep_id None, m, n + 1))"
| "spec_step set_id cap (m, n) (Op_take i) = (Rep_entry (m i), m(i := None), n)"
| "spec_step set_id cap (m, n) (Op_get i) = (Rep_entry (m i), m, n)"

fun impl_step ::
  "('e \<Rightarrow> u32) \<Rightarrow> (u32 \<Rightarrow> 'e \<Rightarrow> 'e) \<Rightarrow> 'e slot_table \<Rightarrow> 'e table_op \<Rightarrow> 'e table_reply \<times> 'e slot_table" where
  "impl_step ident set_id t (Op_alloc e) = (let (r, t') = tbl_alloc set_id t e in (Rep_id r, t'))"
| "impl_step ident set_id t (Op_take i) = (let (r, t') = tbl_take ident t i in (Rep_entry r, t'))"
| "impl_step ident set_id t (Op_get i) = (Rep_entry (tbl_get ident t i), t)"

fun replies :: "('s \<Rightarrow> 'o \<Rightarrow> 'r \<times> 's) \<Rightarrow> 's \<Rightarrow> 'o list \<Rightarrow> 'r list" where
  "replies step s [] = []"
| "replies step s (op # ops) = (let (r, s') = step s op in r # replies step s' ops)"

section \<open>Simulation\<close>

lemma length_flatten: "length (flatten ss) < length ss \<longleftrightarrow> None \<in> set ss"
proof -
  have "length (flatten ss) \<le> length ss" for ss :: "'e option list"
    by (induction ss rule: flatten.induct) auto
  then show ?thesis by (induction ss rule: flatten.induct) (auto simp: less_Suc_eq_le)
qed

definition simulates :: "('e \<Rightarrow> u32) \<Rightarrow> nat \<Rightarrow> 'e slot_table \<Rightarrow> 'e table_spec \<Rightarrow> bool" where
  "simulates ident cap t s \<longleftrightarrow>
     tbl_ok ident t \<and> length (slots t) = cap \<and> s = (tbl_get ident t, unat (next_id t))"

context slot_entry
begin

lemma card_dom_ok:
  assumes "tbl_ok ident t"
  shows "card (dom (tbl_get ident t)) = length (flatten (slots t))"
proof -
  have "dom (tbl_get ident t) = set (tbl_ids ident t)"
  proof
    show "dom (tbl_get ident t) \<subseteq> set (tbl_ids ident t)"
      by (auto simp: tbl_ids_def set_flatten dest!: get_in_set)
    show "set (tbl_ids ident t) \<subseteq> dom (tbl_get ident t)"
      using in_set_get [OF assms] by (auto simp: tbl_ids_def set_flatten)
  qed
  moreover have "card (set (tbl_ids ident t)) = length (tbl_ids ident t)"
    using assms by (simp add: tbl_ok_def distinct_card)
  ultimately show ?thesis by (simp add: tbl_ids_def)
qed

lemma alloc_iff_room:
  assumes "tbl_ok ident t"
  shows "fst (tbl_alloc with_id t e) \<noteq> None \<longleftrightarrow> card (dom (tbl_get ident t)) < length (slots t)"
  using alloc_full [of t e] length_flatten [of "slots t"] by (simp add: card_dom_ok [OF assms])

lemma simulates_new: "simulates ident cap (tbl_new cap) (Map.empty, 1)"
  using ok_new [of cap] get_new [of cap] by (simp add: simulates_def) (simp add: tbl_new_def)

lemma simulates_step:
  assumes "simulates ident cap t s" and "not_wrapped t"
    and "impl_step ident with_id t op = (r, t')"
  shows "\<exists>s'. spec_step with_id cap s op = (r, s') \<and> simulates ident cap t' s' \<and>
    unat (next_id t') \<le> unat (next_id t) + 1"
proof -
  have ok: "tbl_ok ident t" and len: "length (slots t) = cap"
    and s: "s = (tbl_get ident t, unat (next_id t))"
    using assms(1) by (auto simp: simulates_def)
  show ?thesis
  proof (cases op)
    case (Op_alloc e)
    obtain q t1 where a: "tbl_alloc with_id t e = (q, t1)" by fastforce
    with assms(3) Op_alloc have r: "r = Rep_id q" "t' = t1" by auto
    have ok': "tbl_ok ident t1" by (rule alloc_ok [OF ok assms(2) a])
    have nx: "unat (next_id t1) = unat (next_id t) + 1"
      using alloc_next [OF a] assms(2) by (simp add: not_wrapped_def unat_bump)
    show ?thesis
    proof (cases q)
      case None
      with alloc_iff_room [OF ok, of e] a len s Op_alloc r ok' nx alloc_length [OF a]
        alloc_none_get [of t e t1]
      show ?thesis by (simp add: simulates_def)
    next
      case (Some i)
      with alloc_iff_room [OF ok, of e] a len s Op_alloc r ok' nx alloc_length [OF a]
        alloc_id [of t e i t1] alloc_get [OF ok, of e i t1]
      show ?thesis by (simp add: simulates_def)
    qed
  next
    case (Op_take i)
    obtain q t1 where k: "tbl_take ident t i = (q, t1)" by fastforce
    with assms(3) Op_take have r: "r = Rep_entry q" "t' = t1" by auto
    have "next_id t1 = next_id t" "length (slots t1) = length (slots t)"
      using take_next [of t i] take_length [of t i] k by simp_all
    with r k s ok len Op_take take_fst [of t i] take_get [OF ok, of i] take_ok [OF ok, of i]
    show ?thesis by (auto simp: simulates_def)
  next
    case (Op_get i)
    with assms s show ?thesis by auto
  qed
qed

lemma replies_refine:
  assumes "simulates ident cap t s" and "unat (next_id t) + length ops < 2 ^ 32"
  shows "replies (impl_step ident with_id) t ops = replies (spec_step with_id cap) s ops"
  using assms
proof (induction ops arbitrary: t s)
  case (Cons op ops)
  obtain r t' where i: "impl_step ident with_id t op = (r, t')" by fastforce
  have "not_wrapped t" using Cons.prems(2) by (simp add: not_wrapped_def)
  from simulates_step [OF Cons.prems(1) this i] obtain s' where
    s': "spec_step with_id cap s op = (r, s')" "simulates ident cap t' s'"
      "unat (next_id t') \<le> unat (next_id t) + 1" by blast
  with Cons.IH [OF s'(2)] Cons.prems(2) i show ?case by simp
qed simp

end

section \<open>Properties of the tables\<close>

text \<open>C5. The session table and the instance table implement the bounded map: from their creation,
  every sequence of allocations, removals and lookups (fewer than \<open>2^32 - 1\<close>) gets the replies of
  the specification. So identifiers count up from 1, a lookup finds what was stored under the
  identifier until it is taken out, and an allocation fails exactly when the table is full.\<close>

theorem tables_refine_map:
  assumes "length ops < 2 ^ 32 - 1" and "length ops' < 2 ^ 32 - 1"
  shows "replies (impl_step s_id session_set_id) (session_new cap) ops =
           replies (spec_step session_set_id cap) (Map.empty, 1) ops \<and>
         replies (impl_step i_id instance_set_id) (instance_new cap) ops' =
           replies (spec_step instance_set_id cap) (Map.empty, 1) ops'"
  using assms ses.replies_refine [OF ses.simulates_new, of cap ops]
    ins.replies_refine [OF ins.simulates_new, of cap ops']
  by (simp add: tbl_new_def)

definition some_session :: session where
  "some_session = \<lparr>s_id = 0, s_uuid = [1], s_kind = Pta, s_instance = None, s_ta_sess_ctx = 0,
     s_state = S_Ready, s_client = Login_Public\<rparr>"

theorem tables_refine_map_witness:
  "replies (impl_step s_id session_set_id) (session_new 1)
     [Op_get 1, Op_alloc some_session, Op_alloc some_session, Op_take 1, Op_get 1] =
   [Rep_entry None, Rep_id (Some 1), Rep_id None,
    Rep_entry (Some (some_session\<lparr>s_id := 1\<rparr>)), Rep_entry None]"
  using tables_refine_map [of "[Op_get 1, Op_alloc some_session, Op_alloc some_session, Op_take 1, Op_get 1]"
      "[]" 1]
  by simp

text \<open>After the wrap-around the identifiers are not unique: the counter skips 0 and starts again
  at 1, whether or not the session with identifier 1 is still open; two open sessions then share
  one identifier.\<close>

lemma id_wraps_around:
  assumes "next_id t = 0xffffffff" and "session_alloc t s = (r, t1)"
    and "session_get t1 1 = Some old" and "None \<in> set (slots t1)"
  shows "next_id t1 = 1 \<and>
    (\<exists>t2. session_alloc t1 new = (Some 1, t2) \<and> \<not> distinct (tbl_ids s_id t2))"
proof -
  have n: "next_id t1 = 1" using ses.alloc_next [OF assms(2)] assms(1) by (simp add: bump_id_def)
  with assms(4) obtain t2 where a: "session_alloc t1 new = (Some 1, t2)"
    using ses.alloc_full [of t1 new] ses.alloc_id [of t1 new] by (metis not_Some_eq prod.collapse)
  then have "put_first (session_set_id 1 new) (slots t1) = Some (slots t2)"
    using n by (auto simp: tbl_alloc_def Let_def split: option.splits)
  from put_first_split [OF this] obtain us vs where
    uv: "flatten (slots t1) = us @ vs" "flatten (slots t2) = us @ session_set_id 1 new # vs" by blast
  have "old \<in> set (us @ vs)" "s_id old = 1"
    using ses.get_in_set [OF assms(3)] uv(1) by (auto simp: set_flatten [symmetric])
  with uv(2) have "\<not> distinct (tbl_ids s_id t2)" by (force simp: tbl_ids_def)
  with n a show ?thesis by blast
qed

end
