(* ===== verification/Hal_Iface.thy ===== *)
theory Hal_Iface
  imports Os_Abi
begin

text \<open>
  What the kernel uses of \<open>crates/rustee-hal/src/lib.rs\<close>: permissions, errors, the origin of the
  entropy, and the operations of the traits \<open>Hal\<close>, \<open>AddressSpace\<close> and \<open>SharedMem\<close> as a record of
  functions, the way the kernel is generic in \<open>H: Hal\<close>. The type \<open>'h\<close> is the state of the HAL
  together with all memory trusted applications can reach, \<open>'a\<close> an address space and \<open>'s\<close> a
  shared-memory registration.
\<close>

record perms =
  p_read :: bool
  p_write :: bool
  p_exec :: bool

definition PERMS_READ :: perms where "PERMS_READ = \<lparr>p_read = True, p_write = False, p_exec = False\<rparr>"
definition PERMS_WRITE :: perms where "PERMS_WRITE = \<lparr>p_read = False, p_write = True, p_exec = False\<rparr>"
definition PERMS_RW :: perms where "PERMS_RW = \<lparr>p_read = True, p_write = True, p_exec = False\<rparr>"
definition PERMS_RX :: perms where "PERMS_RX = \<lparr>p_read = True, p_write = False, p_exec = True\<rparr>"

datatype hal_error =
    Unsupported | InvalidParam | NoMemory | BadAlignment | PermDenied | Busy | Fault | NotFound

datatype entropy_origin = Isolated | ReeHost

text \<open>
  \<open>hal_sync_in h ck\<close> is \<open>lookup_shm_mut(ck)\<close> followed by \<open>sync_in\<close>: \<open>None\<close> when no registration has
  the cookie. A \<open>Result\<close> is a sum with the error on the left; operations that take \<open>&mut self\<close> return the new state beside their result.
\<close>

record ('h, 'a, 's) hal_ops =
  hal_entropy_origin :: "'h \<Rightarrow> entropy_origin"
  hal_new_address_space :: "'h \<Rightarrow> 'a \<times> 'h"
  hal_lookup_shm :: "'h \<Rightarrow> u64 \<Rightarrow> 's option"
  hal_sync_in :: "'h \<Rightarrow> u64 \<Rightarrow> ((hal_error + unit) \<times> 'h) option"
  hal_sync_out :: "'h \<Rightarrow> u64 \<Rightarrow> ((hal_error + unit) \<times> 'h) option"
  shm_len :: "'s \<Rightarrow> usize"
  shm_map_into :: "'s \<Rightarrow> 'a \<Rightarrow> perms \<Rightarrow> (hal_error + u64) \<times> 'a"
  as_map_image :: "'a \<Rightarrow> u64 \<Rightarrow> bytes \<Rightarrow> perms \<Rightarrow> (hal_error + u64) \<times> 'a"
  as_unmap :: "'a \<Rightarrow> u64 \<Rightarrow> 'a"
  as_drop_all :: "'a \<Rightarrow> 'a"

end
