(* ===== verification/Ta_Elf.thy ===== *)
theory Ta_Elf
  imports Ta_Header Hal_Iface
begin

text \<open>
  The ELF loader, \<open>crates/rustee-os/src/elf.rs\<close> and \<open>loader.rs\<close>: program headers, the five
  \<open>TA_*\<close> symbols, the image blob that \<open>map_elf\<close> builds and hands to the address space, and
  \<open>load_image\<close>, which checks a signed envelope with the crypto provider. The provider is a record
  of functions; the compiled-in public key is an argument.
\<close>

section \<open>Parsing\<close>

record load_seg =
  ls_va :: u64
  ls_file_off :: usize
  ls_file_size :: usize
  ls_mem_size :: usize
  ls_exec :: bool

record ta_symbols =
  ts_create :: u64
  ts_destroy :: u64
  ts_open_session :: u64
  ts_close_session :: u64
  ts_invoke :: u64

record elf_image =
  ei_bytes :: bytes
  ei_props :: ta_properties
  ei_segs :: "load_seg list"
  ei_symbols :: "ta_symbols option"

fun pt_load_loop :: "bytes \<Rightarrow> usize \<Rightarrow> usize \<Rightarrow> nat list \<Rightarrow> (load_seg list, u32) res" where
  "pt_load_loop b phoff phentsize [] = Ok []"
| "pt_load_loop b phoff phentsize (i # is) =
     res_bind (usize_mul i phentsize) (\<lambda>m.
     res_bind (usize_add phoff m) (\<lambda>o'.
     res_bind (usize_add o' 56) (\<lambda>e.
     if length b < e then Err TEE_ERROR_BAD_PARAMETERS
     else
       res_bind (read_le b o' :: (u32, u32) res) (\<lambda>p_type.
       if p_type \<noteq> 1 then pt_load_loop b phoff phentsize is
       else
         res_bind (read_le b (o' + 4) :: (u32, u32) res) (\<lambda>flags.
         res_bind (read_le b (o' + 8) :: (u64, u32) res) (\<lambda>off.
         res_bind (read_le b (o' + 16)) (\<lambda>va.
         res_bind (read_le b (o' + 32) :: (u64, u32) res) (\<lambda>filesz.
         res_bind (read_le b (o' + 40) :: (u64, u32) res) (\<lambda>memsz.
         res_bind (pt_load_loop b phoff phentsize is) (\<lambda>segs.
         Ok (\<lparr>ls_va = va, ls_file_off = unat off, ls_file_size = unat filesz,
             ls_mem_size = unat memsz, ls_exec = (flags AND 1 \<noteq> 0)\<rparr> # segs)))))))))))"

definition pt_load :: "bytes \<Rightarrow> (load_seg list, u32) res" where
  "pt_load b =
     res_bind (read_le b 32 :: (u64, u32) res) (\<lambda>phoff.
     res_bind (read_le b 54 :: (u16, u32) res) (\<lambda>phentsize.
     res_bind (read_le b 56 :: (u16, u32) res) (\<lambda>phnum.
     pt_load_loop b (unat phoff) (unat phentsize) [0..<unat phnum])))"

definition str_name :: "bytes \<Rightarrow> usize \<Rightarrow> bytes option" where
  "str_name tab off =
     Option.bind (get_range tab off (length tab)) (\<lambda>s.
     Option.bind (position_zero s) (\<lambda>e. from_utf8 (take e s)))"

definition TA_NAMES :: "bytes list" where
  "TA_NAMES =
     [ascii ''TA_CreateEntryPoint'', ascii ''TA_DestroyEntryPoint'',
      ascii ''TA_OpenSessionEntryPoint'', ascii ''TA_CloseSessionEntryPoint'',
      ascii ''TA_InvokeCommandEntryPoint'']"

definition bind_name :: "bytes \<Rightarrow> u64 \<Rightarrow> (bytes \<times> u64) list \<Rightarrow> (bytes \<times> u64) list" where
  "bind_name name value names = map (\<lambda>(want, slot). (want, if name = want then value else slot)) names"

fun sym_loop ::
  "bytes \<Rightarrow> bytes \<Rightarrow> usize \<Rightarrow> usize \<Rightarrow> nat list \<Rightarrow> (bytes \<times> u64) list \<Rightarrow> ((bytes \<times> u64) list, u32) res"
where
  "sym_loop b strtab sym_off ent [] names = Ok names"
| "sym_loop b strtab sym_off ent (s # ss) names =
     res_bind (usize_mul s ent) (\<lambda>m.
     res_bind (usize_add sym_off m) (\<lambda>so.
     res_bind (usize_add so 24) (\<lambda>e.
     if length b < e then Ok names
     else
       res_bind (read_le b so :: (u32, u32) res) (\<lambda>name_off.
       res_bind (read_le b (so + 8)) (\<lambda>value.
       let name = (case str_name strtab (unat name_off) of None \<Rightarrow> [] | Some n \<Rightarrow> n) in
       sym_loop b strtab sym_off ent ss (bind_name name value names))))))"

fun symtab_loop ::
  "bytes \<Rightarrow> usize \<Rightarrow> usize \<Rightarrow> nat list \<Rightarrow> (bytes \<times> u64) list \<Rightarrow> ((bytes \<times> u64) list, u32) res"
where
  "symtab_loop b shoff shentsize [] names = Ok names"
| "symtab_loop b shoff shentsize (i # is) names =
     res_bind (usize_mul i shentsize) (\<lambda>m.
     res_bind (usize_add shoff m) (\<lambda>o'.
     res_bind (usize_add o' 64) (\<lambda>e.
     if length b < e then Err TEE_ERROR_BAD_PARAMETERS
     else
       res_bind (read_le b (o' + 4) :: (u32, u32) res) (\<lambda>sh_type.
       if sh_type \<noteq> 2 \<and> sh_type \<noteq> 11 then symtab_loop b shoff shentsize is names
       else
         res_bind (read_le b (o' + 40) :: (u32, u32) res) (\<lambda>sh_link.
         res_bind (read_le b (o' + 24) :: (u64, u32) res) (\<lambda>sym_off.
         res_bind (read_le b (o' + 32) :: (u64, u32) res) (\<lambda>sym_size.
         res_bind (read_le b (o' + 56) :: (u64, u32) res) (\<lambda>ent.
         if unat ent = 0 then symtab_loop b shoff shentsize is names
         else
           res_bind (usize_mul (unat sh_link) shentsize) (\<lambda>m.
           res_bind (usize_add shoff m) (\<lambda>str_hdr.
           res_bind (usize_add str_hdr 40) (\<lambda>e.
           if length b < e then symtab_loop b shoff shentsize is names
           else
             res_bind (read_le b (str_hdr + 24) :: (u64, u32) res) (\<lambda>str_off.
             res_bind (read_le b (str_hdr + 32) :: (u64, u32) res) (\<lambda>str_size.
             res_bind (usize_add (unat str_off) (unat str_size)) (\<lambda>str_end.
             res_bind (ok_or (get_range b (unat str_off) str_end) TEE_ERROR_BAD_PARAMETERS)
               (\<lambda>strtab.
             res_bind (sym_loop b strtab (unat sym_off) (unat ent)
                         [0..<unat sym_size div unat ent] names) (\<lambda>names.
             symtab_loop b shoff shentsize is names))))))))))))))))"

definition ta_symbols_of :: "bytes \<Rightarrow> (ta_symbols, u32) res" where
  "ta_symbols_of b =
     res_bind (read_le b 40 :: (u64, u32) res) (\<lambda>shoff.
     res_bind (read_le b 58 :: (u16, u32) res) (\<lambda>shentsize.
     res_bind (read_le b 60 :: (u16, u32) res) (\<lambda>shnum.
     res_bind (symtab_loop b (unat shoff) (unat shentsize) [0..<unat shnum]
                 (map (\<lambda>w. (w, 0)) TA_NAMES)) (\<lambda>names.
     if (\<exists>n \<in> set names. snd n = 0) then Err TEE_ERROR_BAD_PARAMETERS
     else Ok \<lparr>ts_create = snd (names ! 0), ts_destroy = snd (names ! 1),
              ts_open_session = snd (names ! 2), ts_close_session = snd (names ! 3),
              ts_invoke = snd (names ! 4)\<rparr>))))"

text \<open>\<open>ta_symbols(bytes).ok()\<close> drops the error but not a panic.\<close>

fun res_ok :: "('a, 'e) res \<Rightarrow> ('a option, 'f) res" where
  "res_ok (Ok x) = Ok (Some x)"
| "res_ok (Err e) = Ok None"
| "res_ok Panic = Panic"

definition parse_elf :: "bytes \<Rightarrow> (elf_image, u32) res" where
  "parse_elf b =
     res_bind (find_ta_head b) (\<lambda>head.
     res_bind (parse_ta_head head) (\<lambda>props.
     if length b < 64 \<or> take 4 b \<noteq> ELF_MAGIC
     then Ok \<lparr>ei_bytes = b, ei_props = props, ei_segs = [], ei_symbols = None\<rparr>
     else
       res_bind (pt_load b) (\<lambda>segs.
       res_bind (res_ok (ta_symbols_of b)) (\<lambda>symbols.
       Ok \<lparr>ei_bytes = b, ei_props = props, ei_segs = segs, ei_symbols = symbols\<rparr>))))"

section \<open>Mapping\<close>

definition MAX_TA_SPAN :: usize where "MAX_TA_SPAN = 16 * 1024 * 1024"

definition u64_saturating_add :: "u64 \<Rightarrow> u64 \<Rightarrow> u64" where
  "u64_saturating_add a b = (if unat a + unat b < 2 ^ 64 then a + b else - 1)"

definition seg_end :: "load_seg \<Rightarrow> u64" where
  "seg_end s = u64_saturating_add (ls_va s) (word_of_nat (max (ls_mem_size s) (ls_file_size s)))"

definition copy_from_slice :: "bytes \<Rightarrow> usize \<Rightarrow> usize \<Rightarrow> bytes \<Rightarrow> (bytes, 'e) res" where
  "copy_from_slice dst a b src =
     res_bind (slice_range dst a b) (\<lambda>d.
     if length d \<noteq> length src then Panic else put_range dst a src)"

fun build_blob :: "bytes \<Rightarrow> u64 \<Rightarrow> load_seg list \<Rightarrow> bytes \<Rightarrow> (bytes, u32) res" where
  "build_blob b min_va [] blob = Ok blob"
| "build_blob b min_va (seg # segs) blob =
     (let off = unat (ls_va seg - min_va);
          n = min (ls_file_size seg) (ls_mem_size seg);
          e = saturating_add (ls_file_off seg) n in
      res_bind (ok_or (get_range b (ls_file_off seg) e) TEE_ERROR_BAD_PARAMETERS) (\<lambda>src.
      res_bind (ok_or (checked_add off n) TEE_ERROR_BAD_PARAMETERS) (\<lambda>dest.
      if dest > length blob then Err TEE_ERROR_BAD_PARAMETERS
      else res_bind (copy_from_slice blob off dest src) (\<lambda>blob.
        build_blob b min_va segs blob))))"

definition bind_symbols :: "ta_symbols option \<Rightarrow> u64 \<Rightarrow> ta_entry_points option" where
  "bind_symbols symbols slide =
     map_option (\<lambda>s. \<lparr>ep_create = ts_create s + slide, ep_destroy = ts_destroy s + slide,
                      ep_open_session = ts_open_session s + slide,
                      ep_close_session = ts_close_session s + slide,
                      ep_invoke = ts_invoke s + slide\<rparr>) symbols"

definition min_va_of :: "load_seg list \<Rightarrow> u64" where
  "min_va_of segs = Min (set (map ls_va segs))"

definition max_end_of :: "load_seg list \<Rightarrow> u64" where
  "max_end_of segs = Max (set (map seg_end segs))"

definition image_blob :: "elf_image \<Rightarrow> (bytes, u32) res" where
  "image_blob img =
     (let min_va = min_va_of (ei_segs img); max_end = max_end_of (ei_segs img) in
      if max_end < min_va then Err TEE_ERROR_BAD_PARAMETERS
      else let span = unat (max_end - min_va) in
        if span = 0 \<or> span > MAX_TA_SPAN then Err TEE_ERROR_BAD_PARAMETERS
        else build_blob (ei_bytes img) min_va (ei_segs img) (replicate span 0))"

definition map_elf ::
  "('h, 'a, 's) hal_ops \<Rightarrow> 'a \<Rightarrow> bytes \<Rightarrow> (ta_entry_points option, u32) res \<times> 'a" where
  "map_elf H aspace b =
     (case parse_elf b of
        Err e \<Rightarrow> (Err e, aspace)
      | Panic \<Rightarrow> (Panic, aspace)
      | Ok img \<Rightarrow>
          if ei_segs img = [] then (Ok (bind_symbols (ei_symbols img) 0), aspace)
          else (case image_blob img of
              Err e \<Rightarrow> (Err e, aspace)
            | Panic \<Rightarrow> (Panic, aspace)
            | Ok blob \<Rightarrow>
                let min_va = min_va_of (ei_segs img);
                    (r, aspace') = as_map_image H aspace min_va blob PERMS_RX in
                (case r of
                   Inl _ \<Rightarrow> Err TEE_ERROR_BAD_PARAMETERS
                 | Inr mapped \<Rightarrow> Ok (bind_symbols (ei_symbols img) (mapped - min_va)),
                 aspace')))"

section \<open>Loading\<close>

record early_ta =
  et_uuid :: uuid
  et_props :: ta_properties
  et_image :: bytes
  et_entries :: "ta_entry_points option"

definition early_get :: "early_ta list \<Rightarrow> uuid \<Rightarrow> early_ta option" where
  "early_get tas u = find (\<lambda>t. et_uuid t = u) tas"

definition early_insert :: "early_ta list \<Rightarrow> early_ta \<Rightarrow> early_ta list" where
  "early_insert tas ta = tas @ [ta]"

record crypto_ops =
  sha256 :: "bytes \<Rightarrow> bytes"
  rsa_pkcs1_verify :: "bytes \<Rightarrow> bytes \<Rightarrow> bytes \<Rightarrow> bool"

record loaded =
  ld_props :: ta_properties
  ld_symbols :: "ta_symbols option"

definition has_rtsg_magic :: "bytes \<Rightarrow> bool" where
  "has_rtsg_magic b \<longleftrightarrow> 4 \<le> length b \<and> (from_le_bytes (take 4 b) :: u32) = RTSG_MAGIC"

definition load_image :: "crypto_ops \<Rightarrow> bytes \<Rightarrow> bytes \<Rightarrow> (loaded, u32) res" where
  "load_image crypto pubkey b =
     res_bind
       (if has_rtsg_magic b
        then res_bind (parse_rtsg b) (\<lambda>img.
          let hashed = si_uuid img @ to_le_bytes (si_ta_version img) @ si_elf img;
              digest = sha256 crypto hashed in
          if si_hash img \<noteq> digest \<or> \<not> rsa_pkcs1_verify crypto pubkey digest (si_sig img)
          then Err TEE_ERROR_SECURITY
          else Ok (si_elf img))
        else Ok b)
       (\<lambda>elf. res_bind (parse_elf elf) (\<lambda>parsed.
          Ok \<lparr>ld_props = ei_props parsed, ld_symbols = ei_symbols parsed\<rparr>))"

section \<open>The image blob\<close>

definition seg_off :: "u64 \<Rightarrow> load_seg \<Rightarrow> nat" where
  "seg_off min_va s = unat (ls_va s - min_va)"

definition seg_n :: "load_seg \<Rightarrow> nat" where
  "seg_n s = min (ls_file_size s) (ls_mem_size s)"

definition covers :: "u64 \<Rightarrow> nat \<Rightarrow> load_seg \<Rightarrow> bool" where
  "covers min_va j s \<longleftrightarrow> seg_off min_va s \<le> j \<and> j < seg_off min_va s + seg_n s"

text \<open>What a loaded image must look like: byte \<open>j\<close> comes from the last segment that covers it, and
  is the filler where none does.\<close>

definition blob_byte :: "bytes \<Rightarrow> u64 \<Rightarrow> load_seg list \<Rightarrow> nat \<Rightarrow> u8 \<Rightarrow> u8" where
  "blob_byte b min_va segs j fill =
     (case find (covers min_va j) (rev segs) of
        None \<Rightarrow> fill
      | Some s \<Rightarrow> b ! (ls_file_off s + (j - seg_off min_va s)))"

lemma find_snoc: "find P (xs @ [x]) = (case find P xs of None \<Rightarrow> if P x then Some x else None | Some y \<Rightarrow> Some y)"
  by (induction xs) auto

lemma build_blob_step:
  assumes "build_blob b mv (s # segs) blob = Ok blob'" and "length b \<le> ISIZE_MAX"
  obtains mid where "build_blob b mv segs mid = Ok blob'" "length mid = length blob"
    "seg_off mv s + seg_n s \<le> length blob" "ls_file_off s + seg_n s \<le> length b"
    "mid = take (seg_off mv s) blob @ take (seg_n s) (drop (ls_file_off s) b) @
           drop (seg_off mv s + seg_n s) blob"
proof -
  let ?n = "seg_n s" and ?off = "seg_off mv s"
  from assms(1) obtain src dest where
    src: "get_range b (ls_file_off s) (saturating_add (ls_file_off s) ?n) = Some src"
    and dest: "checked_add ?off ?n = Some dest" "dest \<le> length blob"
    and rest: "res_bind (copy_from_slice blob ?off dest src) (build_blob b mv segs) = Ok blob'"
    by (auto simp: Let_def seg_off_def seg_n_def split: if_splits)
  have fit: "ls_file_off s + ?n \<le> length b"
    using src assms(2)
    by (auto simp: get_range_def saturating_add_def ISIZE_MAX_def USIZE_MAX_def min_def split: if_splits)
  then have "saturating_add (ls_file_off s) ?n = ls_file_off s + ?n"
    using assms(2) by (simp add: saturating_add_def ISIZE_MAX_def USIZE_MAX_def)
  with src fit have src': "src = take ?n (drop (ls_file_off s) b)" "length src = ?n"
    by (auto simp: get_range_def)
  from dest have d: "dest = ?off + ?n" by (auto simp: checked_add_def split: if_splits)
  with rest src' dest(2) have
    "build_blob b mv segs (take ?off blob @ src @ drop (?off + ?n) blob) = Ok blob'"
    by (auto simp: copy_from_slice_def slice_range_def put_range_def)
  with that [of "take ?off blob @ src @ drop (?off + ?n) blob"] fit d dest(2) src'
  show ?thesis by simp
qed

lemma build_blob_spec:
  assumes "build_blob b mv segs blob = Ok blob'" and "length b \<le> ISIZE_MAX"
  shows "length blob' = length blob \<and>
         (\<forall>s \<in> set segs. seg_off mv s + seg_n s \<le> length blob \<and> ls_file_off s + seg_n s \<le> length b) \<and>
         (\<forall>j < length blob. blob' ! j = blob_byte b mv segs j (blob ! j))"
  using assms(1)
proof (induction segs arbitrary: blob)
  case Nil
  then show ?case by (simp add: blob_byte_def)
next
  case (Cons s segs)
  from Cons.prems assms(2) obtain mid where mid: "build_blob b mv segs mid = Ok blob'"
    "length mid = length blob" "seg_off mv s + seg_n s \<le> length blob"
    "ls_file_off s + seg_n s \<le> length b"
    "mid = take (seg_off mv s) blob @ take (seg_n s) (drop (ls_file_off s) b) @
           drop (seg_off mv s + seg_n s) blob"
    by (rule build_blob_step)
  have "mid ! j = (if covers mv j s then b ! (ls_file_off s + (j - seg_off mv s)) else blob ! j)"
    if "j < length blob" for j
    using nth_splice [of "seg_off mv s" "take (seg_n s) (drop (ls_file_off s) b)" blob j] mid(3-5) that
    by (auto simp: covers_def)
  with mid Cons.IH [OF mid(1)] show ?case
    by (auto simp: blob_byte_def find_snoc split: option.splits)
qed

lemma blob_copy_ok:
  assumes "length b \<le> ISIZE_MAX" and "get_range b f (saturating_add f n) = Some src"
    and "checked_add off n = Some dest" and "dest \<le> length blob"
  shows "copy_from_slice blob off dest src \<noteq> Panic"
proof -
  have "f + n \<le> length b"
    using assms(1,2)
    by (auto simp: get_range_def saturating_add_def ISIZE_MAX_def USIZE_MAX_def min_def split: if_splits)
  then have "saturating_add f n = f + n"
    using assms(1) by (simp add: saturating_add_def ISIZE_MAX_def USIZE_MAX_def)
  with assms(2) have "length src = n" by (auto simp: get_range_def split: if_splits)
  moreover have "dest = off + n" using assms(3) by (auto simp: checked_add_def split: if_splits)
  ultimately show ?thesis
    using assms(4) by (simp add: copy_from_slice_def slice_range_def put_range_def)
qed

lemma build_blob_not_Panic:
  assumes "length b \<le> ISIZE_MAX"
  shows "build_blob b mv segs blob \<noteq> Panic"
proof (induction segs arbitrary: blob)
  case Nil
  then show ?case by simp
next
  case (Cons s segs)
  then show ?case by (auto simp: Let_def not_less blob_copy_ok [OF assms])
qed

lemma signed_not_elf:
  assumes "has_rtsg_magic b"
  shows "parse_elf b = Err TEE_ERROR_BAD_PARAMETERS"
proof -
  have "take 4 b \<noteq> ELF_MAGIC"
  proof
    assume "take 4 b = ELF_MAGIC"
    with assms have "(from_le_bytes ELF_MAGIC :: u32) = RTSG_MAGIC" by (simp add: has_rtsg_magic_def)
    then show False by (simp add: ELF_MAGIC_def RTSG_MAGIC_def from_le_bytes_def)
  qed
  moreover have "(from_le_bytes (take 4 b) :: u32) \<noteq> RTAH_MAGIC"
    using assms by (simp add: has_rtsg_magic_def RTSG_MAGIC_def RTAH_MAGIC_def)
  ultimately show ?thesis
    by (simp add: parse_elf_def find_ta_head_def elf64_section_def)
qed

lemma parse_elf_props: "parse_elf b = Ok img \<Longrightarrow> wf_props (ei_props img) \<and> validate (ei_props img) = Ok ()"
  by (auto simp: parse_elf_def dest!: parse_ta_head_props split: if_splits)

lemma parse_elf_bytes: "parse_elf b = Ok img \<Longrightarrow> ei_bytes img = b"
  by (auto simp: parse_elf_def split: if_splits)

section \<open>A small image\<close>

text \<open>An ELF64 file with one loadable segment and one section, which holds the header record and
  its own name.\<close>

definition small_elf :: bytes where
  "small_elf =
     [127, 69, 76, 70, 2, 1, 0, 0, 0, 0, 0, 0, 0, 0, 0, 0, 0, 0, 0, 0, 0, 0, 0, 0, 0, 0, 0, 0, 0,
      0, 0, 0, 64, 0, 0, 0, 0, 0, 0, 0, 120, 0, 0, 0, 0, 0, 0, 0, 0, 0, 0, 0, 0, 0, 56, 0, 1, 0,
      64, 0, 1, 0, 0, 0, 1, 0, 0, 0, 5, 0, 0, 0, 184, 0, 0, 0, 0, 0, 0, 0, 0, 16, 0, 0, 0, 0, 0,
      0, 0, 0, 0, 0, 0, 0, 0, 0, 4, 0, 0, 0, 0, 0, 0, 0, 8, 0, 0, 0, 0, 0, 0, 0, 0, 0, 0, 0, 0,
      0, 0, 0, 40, 0, 0, 0, 0, 0, 0, 0, 0, 0, 0, 0, 0, 0, 0, 0, 0, 0, 0, 0, 0, 0, 0, 0, 184, 0,
      0, 0, 0, 0, 0, 0, 56, 0, 0, 0, 0, 0, 0, 0, 0, 0, 0, 0, 0, 0, 0, 0, 0, 0, 0, 0, 0, 0, 0, 0,
      0, 0, 0, 0, 0, 0, 0, 0, 82, 84, 65, 72, 0, 0, 40, 0, 7, 7, 7, 7, 7, 7, 7, 7, 7, 7, 7, 7, 7,
      7, 7, 7, 0, 16, 0, 0, 0, 16, 0, 0, 1, 1, 0, 0, 1, 0, 0, 0, 46, 114, 117, 115, 116, 101,
      101, 46, 116, 97, 95, 104, 101, 97, 100, 0]"

lemma small_elf_head: "find_ta_head small_elf = Ok (drop 184 small_elf)"
  by (simp add: small_elf_def find_ta_head_def elf64_section_def res_simps RTAH_MAGIC_def ELF_MAGIC_def
      from_le_bytes_def usize_mul_def usize_add_def USIZE_MAX_def saturating_add_def get_range_def
      section_name_def SECTION_NAME_def ascii_def from_utf8_def)

definition small_props :: ta_properties where
  "small_props =
     \<lparr>tp_uuid = [7, 7, 7, 7, 7, 7, 7, 7, 7, 7, 7, 7, 7, 7, 7, 7], tp_stack_size = 4096,
      tp_data_size = 4096, tp_single_instance = True, tp_multi_session = True,
      tp_instance_keep_alive = False, tp_endian = 0, tp_ta_version = 1\<rparr>"

lemma small_elf_props: "parse_ta_head (drop 184 small_elf) = Ok small_props"
  by (simp add: small_elf_def parse_ta_head_def res_simps from_le_bytes_def RTAH_MAGIC_def
      RTAH_ABI_def RTAH_SIZE_def validate_def small_props_def)

lemma small_elf_segs:
  "pt_load small_elf =
     Ok [\<lparr>ls_va = 0x1000, ls_file_off = 184, ls_file_size = 4, ls_mem_size = 8, ls_exec = True\<rparr>]"
  by (simp add: small_elf_def pt_load_def res_simps from_le_bytes_def usize_mul_def usize_add_def
      USIZE_MAX_def)

lemma small_elf_symbols: "ta_symbols_of small_elf = Err TEE_ERROR_BAD_PARAMETERS"
  by (simp add: small_elf_def ta_symbols_of_def res_simps from_le_bytes_def usize_mul_def usize_add_def
      USIZE_MAX_def TA_NAMES_def)

lemma small_elf_parse:
  "parse_elf small_elf =
     Ok \<lparr>ei_bytes = small_elf, ei_props = small_props,
         ei_segs = [\<lparr>ls_va = 0x1000, ls_file_off = 184, ls_file_size = 4, ls_mem_size = 8,
                     ls_exec = True\<rparr>],
         ei_symbols = None\<rparr>"
proof -
  have "\<not> length small_elf < 64" "take 4 small_elf = ELF_MAGIC"
    by (simp_all add: small_elf_def ELF_MAGIC_def)
  then show ?thesis
    by (simp add: parse_elf_def small_elf_head small_elf_props small_elf_segs small_elf_symbols)
qed

text \<open>An address space that records the images it is given and places them at \<open>0x8000\<close>.\<close>

definition recording_hal :: "(unit, (u64 \<times> bytes) list, unit) hal_ops" where
  "recording_hal =
     \<lparr>hal_entropy_origin = (\<lambda>_. Isolated), hal_new_address_space = (\<lambda>_. ([], ())),
      hal_lookup_shm = (\<lambda>_ _. None), hal_sync_in = (\<lambda>_ _. None), hal_sync_out = (\<lambda>_ _. None),
      shm_len = (\<lambda>_. 0), shm_map_into = (\<lambda>_ a _. (Inl Unsupported, a)),
      as_map_image = (\<lambda>a va b _. (Inr 0x8000, a @ [(va, b)])),
      as_unmap = (\<lambda>a _. a), as_drop_all = (\<lambda>_. [])\<rparr>"

lemma small_elf_mapped:
  "map_elf recording_hal [] small_elf = (Ok None, [(0x1000, [82, 84, 65, 72, 0, 0, 0, 0])])"
proof -
  let ?seg = "\<lparr>ls_va = 0x1000, ls_file_off = 184, ls_file_size = 4, ls_mem_size = 8, ls_exec = True\<rparr>"
  have "seg_end ?seg = 0x1008" by (simp add: seg_end_def u64_saturating_add_def)
  moreover have "build_blob small_elf 0x1000 [?seg] [0, 0, 0, 0, 0, 0, 0, 0] =
                 Ok [82, 84, 65, 72, 0, 0, 0, 0]"
    by (simp add: small_elf_def saturating_add_def get_range_def checked_add_def USIZE_MAX_def
        copy_from_slice_def slice_range_def put_range_def)
  moreover have "replicate 8 (0 :: u8) = [0, 0, 0, 0, 0, 0, 0, 0]"
    by (simp add: numeral_eq_Suc)
  ultimately show ?thesis
    by (simp add: map_elf_def small_elf_parse image_blob_def min_va_of_def max_end_of_def
        recording_hal_def MAX_TA_SPAN_def bind_symbols_def del: build_blob.simps)
qed

section \<open>Properties of the loader\<close>

text \<open>The span of a segment: its end in memory, counted from the lowest address; addresses stop at the last one of
  the address space.\<close>

definition seg_span :: "u64 \<Rightarrow> load_seg \<Rightarrow> nat" where
  "seg_span min_va s = min (seg_off min_va s + max (ls_mem_size s) (ls_file_size s)) (2 ^ 64 - 1 - unat min_va)"

lemma pt_load_loop_sizes:
  "pt_load_loop b phoff phentsize is = Ok segs \<Longrightarrow> s \<in> set segs \<Longrightarrow> ls_mem_size s < 2 ^ 64 \<and> ls_file_size s < 2 ^ 64"
proof (induction "is" arbitrary: segs)
  case (Cons i "is")
  have u: "unat (w :: u64) < 18446744073709551616" for w using unsigned_less [of w, where 'a = nat] by simp
  from Cons.prems Cons.IH show ?case by (auto simp: u split: if_splits)
qed simp

lemma parse_elf_sizes:
  "parse_elf b = Ok img \<Longrightarrow> s \<in> set (ei_segs img) \<Longrightarrow> ls_mem_size s < 2 ^ 64 \<and> ls_file_size s < 2 ^ 64"
  by (auto simp: parse_elf_def pt_load_def dest: pt_load_loop_sizes split: if_splits)

lemma unat_seg_end:
  assumes "ls_mem_size s < 2 ^ 64" and "ls_file_size s < 2 ^ 64"
  shows "unat (seg_end s) = min (unat (ls_va s) + max (ls_mem_size s) (ls_file_size s)) (2 ^ 64 - 1)"
proof -
  define n where "n = max (ls_mem_size s) (ls_file_size s)"
  have n: "unat (word_of_nat n :: u64) = n" using assms by (simp add: n_def unat_of_nat)
  have m: "unat (- 1 :: u64) = 2 ^ 64 - 1" by (simp add: unsigned_minus_1_eq_mask mask_eq_exp_minus_1)
  show ?thesis
  proof (cases "unat (ls_va s) + n < 2 ^ 64")
    case True
    then have "unat (ls_va s + word_of_nat n) = unat (ls_va s) + n" using n by (simp add: unat_word_ariths)
    with True show ?thesis by (simp add: seg_end_def u64_saturating_add_def n flip: n_def)
  next
    case False
    then show ?thesis using m by (simp add: seg_end_def u64_saturating_add_def n flip: n_def)
  qed
qed

lemma unat_Max: "finite A \<Longrightarrow> A \<noteq> {} \<Longrightarrow> unat (Max A) = Max (unat ` A)"
  by (rule mono_Max_commute) (simp_all add: mono_def word_le_nat_alt)

lemma span_of:
  assumes "segs \<noteq> []" and "\<forall>s \<in> set segs. ls_mem_size s < 2 ^ 64 \<and> ls_file_size s < 2 ^ 64" and "min_va_of segs \<le> max_end_of segs"
  shows "unat (max_end_of segs - min_va_of segs) = Max (seg_span (min_va_of segs) ` set segs)"
proof -
  let ?mv = "min_va_of segs"
  have s: "unat (seg_end s) - unat ?mv = seg_span ?mv s" if "s \<in> set segs" for s
  proof -
    have "?mv \<le> ls_va s" using that by (simp add: min_va_of_def)
    then have "unat (ls_va s - ?mv) = unat (ls_va s) - unat ?mv" "unat ?mv \<le> unat (ls_va s)"
      by (simp_all add: unat_sub word_le_nat_alt)
    then show ?thesis using unat_seg_end [of s] assms(2) that by (auto simp: seg_span_def seg_off_def min_def)
  qed
  have "unat (max_end_of segs - ?mv) = unat (max_end_of segs) - unat ?mv" using assms(3) by (rule unat_sub)
  also have "\<dots> = Max (unat ` seg_end ` set segs) - unat ?mv" using assms(1) by (simp add: max_end_of_def unat_Max)
  also have "\<dots> = Max ((\<lambda>e. e - unat ?mv) ` unat ` seg_end ` set segs)"
    by (rule mono_Max_commute) (use assms(1) in \<open>auto simp: mono_def\<close>)
  also have "(\<lambda>e. e - unat ?mv) ` unat ` seg_end ` set segs = seg_span ?mv ` set segs"
    using s by (auto simp: image_image intro: image_cong)
  finally show ?thesis .
qed

text \<open>C8. What \<open>map_elf\<close> maps: on an image with loadable segments it succeeds only after handing
  the address space, read-execute and at the lowest segment address, one non-empty blob of at
  most 16 MiB. The blob reaches exactly to the furthest end of a segment in memory (the part without file contents
  included, and cut at the end of the address space), every byte in it is the file byte of the last segment covering it,
  and zero where no segment has file contents; the entry points are the symbols moved by the
  difference between the address the blob got and the lowest segment address.\<close>

theorem map_elf_image:
  assumes "length b \<le> ISIZE_MAX" and "parse_elf b = Ok img" and "ei_segs img \<noteq> []"
    and "map_elf H aspace b = (Ok eps, aspace')"
  shows "\<exists>blob mapped.
    as_map_image H aspace (min_va_of (ei_segs img)) blob PERMS_RX = (Inr mapped, aspace') \<and>
    0 < length blob \<and> length blob \<le> MAX_TA_SPAN \<and>
    length blob = Max (seg_span (min_va_of (ei_segs img)) ` set (ei_segs img)) \<and>
    (\<forall>s \<in> set (ei_segs img). ls_file_off s + seg_n s \<le> length b \<and>
       seg_off (min_va_of (ei_segs img)) s + seg_n s \<le> length blob) \<and>
    (\<forall>j < length blob. blob ! j = blob_byte b (min_va_of (ei_segs img)) (ei_segs img) j 0) \<and>
    eps = bind_symbols (ei_symbols img) (mapped - min_va_of (ei_segs img))"
proof -
  let ?mv = "min_va_of (ei_segs img)"
  from assms obtain blob mapped where
    blob: "image_blob img = Ok blob" and
    m: "as_map_image H aspace ?mv blob PERMS_RX = (Inr mapped, aspace')"
       "eps = bind_symbols (ei_symbols img) (mapped - ?mv)"
    by (auto simp: map_elf_def Let_def split: res.splits prod.splits sum.splits)
  define span where "span = unat (max_end_of (ei_segs img) - ?mv)"
  from blob have span: "0 < span" "span \<le> MAX_TA_SPAN" "?mv \<le> max_end_of (ei_segs img)"
    "build_blob b ?mv (ei_segs img) (replicate span 0) = Ok blob"
    using parse_elf_bytes [OF assms(2)]
    by (auto simp: image_blob_def Let_def not_less span_def split: if_splits)
  have "span = Max (seg_span ?mv ` set (ei_segs img))"
    using span_of [OF assms(3) _ span(3)] parse_elf_sizes [OF assms(2)] by (simp add: span_def)
  with build_blob_spec [OF span(4) assms(1)] span(1,2) m show ?thesis
    by (intro exI [of _ blob] exI [of _ mapped]) auto
qed

theorem map_elf_image_witness:
  "\<exists>blob mapped. as_map_image recording_hal [] 0x1000 blob PERMS_RX =
       (Inr mapped, [(0x1000, [82, 84, 65, 72, 0, 0, 0, 0])]) \<and> length blob = 8"
proof -
  have "length small_elf \<le> ISIZE_MAX" by (simp add: small_elf_def ISIZE_MAX_def)
  from map_elf_image [OF this small_elf_parse _ small_elf_mapped] show ?thesis
    by (auto simp: min_va_of_def seg_span_def seg_off_def)
qed

text \<open>C9. An accepted signed envelope is authentic: when the image starts with the \<open>RTSG\<close> magic and
  \<open>load_image\<close> succeeds, the envelope parses, its hash field is the digest of the UUID, version and
  ELF it carries, the provider verified the signature over that digest under the compiled-in key,
  and the returned properties are those of the ELF inside, validated.\<close>

theorem load_image_authentic:
  assumes "load_image crypto key b = Ok l" and "has_rtsg_magic b"
  shows "\<exists>si img. parse_rtsg b = Ok si \<and>
           si_hash si = sha256 crypto (si_uuid si @ to_le_bytes (si_ta_version si) @ si_elf si) \<and>
           rsa_pkcs1_verify crypto key (si_hash si) (si_sig si) \<and>
           parse_elf (si_elf si) = Ok img \<and> ld_props l = ei_props img \<and>
           validate (ld_props l) = Ok ()"
  using assms by (auto simp: load_image_def Let_def dest: parse_elf_props split: if_splits)

theorem load_image_authentic_witness:
  "\<exists>si. parse_rtsg (to_le_bytes RTSG_MAGIC @ [0, 0, 0, 0] @ replicate 16 7 @ [1, 0, 0, 0] @
            [240, 0, 0, 0, 2, 0, 1, 0] @ [9, 9] @ [5] @ small_elf) = Ok si \<and> si_hash si = [9, 9]"
proof -
  let ?b = "to_le_bytes RTSG_MAGIC @ [0, 0, 0, 0] @ replicate 16 7 @ [1, 0, 0, 0] @
            [240, 0, 0, 0, 2, 0, 1, 0] @ [9, 9] @ [5] @ small_elf"
  let ?c = "\<lparr>sha256 = \<lambda>_. [9, 9], rsa_pkcs1_verify = \<lambda>_ _ s. s = [5]\<rparr>"
  have len: "length small_elf = 240" by (simp add: small_elf_def)
  have rtsg: "has_rtsg_magic ?b"
    by (simp add: has_rtsg_magic_def RTSG_MAGIC_def)
  have "parse_rtsg ?b = Ok \<lparr>si_uuid = replicate 16 7, si_ta_version = 1, si_hash = [9, 9],
      si_sig = [5], si_elf = small_elf\<rparr>"
    using from_le_to_le_u32 [of RTSG_MAGIC]
    by (simp add: parse_rtsg_def res_simps len RTSG_ABI_def from_le_bytes_def)
  then have "load_image ?c [] ?b = Ok \<lparr>ld_props = small_props, ld_symbols = None\<rparr>"
    using rtsg by (simp add: load_image_def small_elf_parse)
  from load_image_authentic [OF this rtsg] show ?thesis by auto
qed

text \<open>A signed envelope is never mapped: \<open>map_elf\<close> on any bytes that start with the \<open>RTSG\<close> magic
  returns \<open>BAD_PARAMETERS\<close> and leaves the address space alone, because it parses the envelope
  itself and not the ELF inside.\<close>

lemma map_elf_rejects_signed:
  assumes "has_rtsg_magic b"
  shows "map_elf H aspace b = (Err TEE_ERROR_BAD_PARAMETERS, aspace)"
  using signed_not_elf [OF assms] by (simp add: map_elf_def)

end
