(* ===== verification/Kernel_Model.thy ===== *)
theory Kernel_Model
  imports Os_Tables Ta_Elf
begin

text \<open>
  The kernel, \<open>crates/rustee-os/src/lib.rs\<close>: its state, the command dispatcher \<open>handle\<close> and every
  operation it calls, in the order of the source. The HAL, the crypto provider, the code of trusted
  applications and the pseudo trusted applications (PTAs) are functions of the environment record.
  A trusted application or PTA that panics does not return: the command ends in \<open>Trapped\<close> with the
  state at that moment, on which the source's \<open>on_panic\<close> is then called. \<open>Crash\<close> is a panic of
  kernel code itself.
\<close>

section \<open>Environment and state\<close>

text \<open>
  Entry points are called by address. A call may change everything the application can reach
  (\<open>'h\<close>) and the four raw parameters, and returns its code; \<open>None\<close> is a panic. A PTA is a value of
  type \<open>'p\<close> with the methods of the trait \<open>Pta\<close>.
\<close>

record ('h, 'a, 's, 'p) env =
  e_hal :: "('h, 'a, 's) hal_ops"
  e_crypto :: crypto_ops
  e_pubkey :: bytes
  ta_create :: "u64 \<Rightarrow> 'h \<Rightarrow> (u32 \<times> 'h) option"
  ta_destroy :: "u64 \<Rightarrow> 'h \<Rightarrow> 'h option"
  ta_open :: "u64 \<Rightarrow> u32 \<Rightarrow> param_raw list \<Rightarrow> usize \<Rightarrow> 'h \<Rightarrow>
              (u32 \<times> param_raw list \<times> usize \<times> 'h) option"
  ta_close :: "u64 \<Rightarrow> usize \<Rightarrow> 'h \<Rightarrow> 'h option"
  ta_invoke :: "u64 \<Rightarrow> usize \<Rightarrow> u32 \<Rightarrow> u32 \<Rightarrow> param_raw list \<Rightarrow> 'h \<Rightarrow>
                (u32 \<times> param_raw list \<times> 'h) option"
  pta_uuid :: "'p \<Rightarrow> uuid"
  pta_open :: "'p \<Rightarrow> param list \<Rightarrow> ((tee_result + usize) \<times> param list \<times> 'p) option"
  pta_invoke :: "'p \<Rightarrow> usize \<Rightarrow> u32 \<Rightarrow> param list \<Rightarrow> (tee_result \<times> param list \<times> 'p) option"
  pta_close :: "'p \<Rightarrow> usize \<Rightarrow> 'p option"

definition MAX_SESSIONS :: usize where "MAX_SESSIONS = 32"
definition MAX_INSTANCES :: usize where "MAX_INSTANCES = 16"

definition VIRT_ENTROPY_NOTICE :: string where
  "VIRT_ENTROPY_NOTICE = ''RUSTEE entropy is REE-sourced (virt/host); not a product TEE RNG''"
definition VIRT_HUK_NOTICE :: string where
  "VIRT_HUK_NOTICE = ''RUSTEE HUK is a compile-time test key (virt); not a product HUK''"

datatype yielding = Y_LoadTa uuid login "param list" u32 u32

record ('h, 'a, 'p) kernel =
  k_entropy_origin :: entropy_origin
  k_sessions :: session_table
  k_instances :: "'a instance_table"
  k_ptas :: "'p list"
  k_early :: "early_ta list"
  k_yielding :: "yielding option"
  k_current_instance :: "instance_id option"
  k_current_pta :: bool
  k_notices_ok :: bool
  k_cancelled :: "u32 list"
  k_hal :: 'h

datatype 'k outcome = Ret kernel_out 'k | Trapped 'k | Crash

text \<open>\<open>let out = f(..); g(); out\<close>\<close>

fun then_do :: "'k outcome \<Rightarrow> ('k \<Rightarrow> 'k) \<Rightarrow> 'k outcome" where
  "then_do (Ret out k) g = Ret out (g k)"
| "then_do (Trapped k) g = Trapped k"
| "then_do Crash g = Crash"

definition kernel_new :: "('h, 'a, 's, 'p) env \<Rightarrow> 'h \<Rightarrow> ('h, 'a, 'p) kernel" where
  "kernel_new E h =
     (let origin = hal_entropy_origin (e_hal E) h in
      \<lparr>k_entropy_origin = origin, k_sessions = session_new MAX_SESSIONS,
       k_instances = instance_new MAX_INSTANCES, k_ptas = [], k_early = [], k_yielding = None,
       k_current_instance = None, k_current_pta = False, k_notices_ok = (origin \<noteq> ReeHost),
       k_cancelled = [], k_hal = h\<rparr>)"

text \<open>The console is a parameter: \<open>writeln s w\<close> returns the console after the line and whether it
  succeeded.\<close>

definition emit_ree_notices ::
  "(string \<Rightarrow> 'w \<Rightarrow> 'w \<times> bool) \<Rightarrow> 'w \<Rightarrow> (string \<times> string) option \<Rightarrow> ('h, 'a, 'p) kernel \<Rightarrow>
   bool \<times> 'w \<times> ('h, 'a, 'p) kernel" where
  "emit_ree_notices writeln out notices k =
     (if k_entropy_origin k \<noteq> ReeHost then (True, out, k\<lparr>k_notices_ok := True\<rparr>)
      else
        let n = (case notices of Some n \<Rightarrow> n | None \<Rightarrow> (VIRT_ENTROPY_NOTICE, VIRT_HUK_NOTICE));
            (out, ok) = writeln (fst n) out in
        if \<not> ok then (False, out, k)
        else let (out, ok) = writeln (snd n) out in
          if \<not> ok then (False, out, k) else (True, out, k\<lparr>k_notices_ok := True\<rparr>))"

definition register_pta :: "('h, 'a, 'p) kernel \<Rightarrow> 'p \<Rightarrow> ('h, 'a, 'p) kernel" where
  "register_pta k p = k\<lparr>k_ptas := k_ptas k @ [p]\<rparr>"

definition register_early_ta :: "('h, 'a, 'p) kernel \<Rightarrow> early_ta \<Rightarrow> ('h, 'a, 'p) kernel" where
  "register_early_ta k ta = k\<lparr>k_early := early_insert (k_early k) ta\<rparr>"

text \<open>\<open>PtaRegistry::get_mut\<close>: the position of the first PTA with the UUID.\<close>

definition pta_get_mut :: "('h, 'a, 's, 'p) env \<Rightarrow> 'p list \<Rightarrow> uuid \<Rightarrow> nat option" where
  "pta_get_mut E ps u = find (\<lambda>i. pta_uuid E (ps ! i) = u) [0..<length ps]"

section \<open>Panics, cancellation, locks\<close>

definition kill_instance :: "'a ta_instance \<Rightarrow> 'a ta_instance" where
  "kill_instance x = x\<lparr>i_state := I_Dead, i_aspace := None\<rparr>"

definition on_ta_panic ::
  "('h, 'a, 's, 'p) env \<Rightarrow> ('h, 'a, 'p) kernel \<Rightarrow> kernel_out \<times> ('h, 'a, 'p) kernel" where
  "on_ta_panic E k =
     (done_err TEE_ERROR_TARGET_DEAD,
      case k_current_instance k of
        None \<Rightarrow> k
      | Some i \<Rightarrow>
          let k = k\<lparr>k_current_instance := None\<rparr> in
          k\<lparr>k_instances := instance_update (k_instances k) i kill_instance,
            k_sessions := poison_instance (k_sessions k) i\<rparr>)"

text \<open>\<open>None\<close> is the kernel halted.\<close>

definition on_panic ::
  "('h, 'a, 's, 'p) env \<Rightarrow> ('h, 'a, 'p) kernel \<Rightarrow> (kernel_out \<times> ('h, 'a, 'p) kernel) option" where
  "on_panic E k = (if k_current_pta k then None else Some (on_ta_panic E k))"

definition cancelled :: "('h, 'a, 'p) kernel \<Rightarrow> u32 \<Rightarrow> bool" where
  "cancelled k cancel_id \<longleftrightarrow> cancel_id \<in> set (k_cancelled k)"

definition lock_instance ::
  "('h, 'a, 'p) kernel \<Rightarrow> instance_id \<Rightarrow> (unit, u32) res \<times> ('h, 'a, 'p) kernel" where
  "lock_instance k i =
     (case instance_get (k_instances k) i of
        None \<Rightarrow> (Err TEE_ERROR_TARGET_DEAD, k)
      | Some x \<Rightarrow>
          if i_busy x then (Err TEE_ERROR_BUSY, k)
          else (Ok (), k\<lparr>k_instances := instance_update (k_instances k) i (\<lambda>x. x\<lparr>i_busy := True\<rparr>)\<rparr>))"

definition unlock_instance :: "instance_id \<Rightarrow> ('h, 'a, 'p) kernel \<Rightarrow> ('h, 'a, 'p) kernel" where
  "unlock_instance i k = k\<lparr>k_instances := instance_update (k_instances k) i (\<lambda>x. x\<lparr>i_busy := False\<rparr>)\<rparr>"

section \<open>Parameters\<close>

primrec dir_perms :: "dir \<Rightarrow> perms" where
  "dir_perms Dir_In = PERMS_READ"
| "dir_perms Dir_Out = PERMS_WRITE"
| "dir_perms Dir_InOut = PERMS_RW"

text \<open>\<open>self.instances.get_mut(iid).unwrap().aspace = Some(aspace)\<close>; \<open>None\<close> is the failed unwrap.\<close>

definition put_aspace ::
  "('h, 'a, 'p) kernel \<Rightarrow> instance_id \<Rightarrow> 'a \<Rightarrow> ('h, 'a, 'p) kernel option" where
  "put_aspace k i a =
     (case instance_get (k_instances k) i of
        None \<Rightarrow> None
      | Some _ \<Rightarrow> Some (k\<lparr>k_instances := instance_update (k_instances k) i (\<lambda>x. x\<lparr>i_aspace := Some a\<rparr>)\<rparr>))"

definition sync_param_in ::
  "('h, 'a, 's, 'p) env \<Rightarrow> ('h, 'a, 'p) kernel \<Rightarrow> u64 \<Rightarrow> dir \<Rightarrow>
   (unit, u32) res \<times> ('h, 'a, 'p) kernel" where
  "sync_param_in E k ck d =
     (if d \<noteq> Dir_Out
      then (case hal_sync_in (e_hal E) (k_hal k) ck of
              None \<Rightarrow> (Err TEE_ERROR_BAD_PARAMETERS, k)
            | Some (Inl _, h) \<Rightarrow> (Err TEE_ERROR_BAD_PARAMETERS, k\<lparr>k_hal := h\<rparr>)
            | Some (Inr _, h) \<Rightarrow> (Ok (), k\<lparr>k_hal := h\<rparr>))
      else (Ok (), k))"

fun map_loop ::
  "('h, 'a, 's, 'p) env \<Rightarrow> instance_id \<Rightarrow> param list \<Rightarrow> nat list \<Rightarrow> ('h, 'a, 'p) kernel \<Rightarrow> 'a \<Rightarrow>
   param_raw list \<Rightarrow> u64 option list \<Rightarrow>
   (param_raw list \<times> u64 option list, u32) res \<times> ('h, 'a, 'p) kernel" where
  "map_loop E iid params [] k aspace raw vas =
     (case put_aspace k iid aspace of None \<Rightarrow> (Panic, k) | Some k \<Rightarrow> (Ok (raw, vas), k))"
| "map_loop E iid params (i # is) k aspace raw vas =
     (case params ! i of
        PMemref (Ree ck offs) sz d \<Rightarrow>
          (case sync_param_in E k ck d of
             (Err e, k) \<Rightarrow> (Err e, k)
           | (Panic, k) \<Rightarrow> (Panic, k)
           | (Ok _, k) \<Rightarrow>
               (case hal_lookup_shm (e_hal E) (k_hal k) ck of
                  None \<Rightarrow> (Err TEE_ERROR_BAD_PARAMETERS, k)
                | Some shm \<Rightarrow>
                    if shm_len (e_hal E) shm < saturating_add offs sz
                    then (case put_aspace k iid aspace of
                            None \<Rightarrow> (Panic, k)
                          | Some k \<Rightarrow> (Err TEE_ERROR_BAD_PARAMETERS, k))
                    else
                      (case shm_map_into (e_hal E) shm aspace (dir_perms d) of
                         (Inl _, _) \<Rightarrow> (Err TEE_ERROR_BAD_PARAMETERS, k)
                       | (Inr va, aspace) \<Rightarrow>
                           map_loop E iid params is k aspace
                             (raw[i := memref_raw (va + word_of_nat offs) sz]) (vas[i := Some va]))))
      | _ \<Rightarrow> map_loop E iid params is k aspace raw vas)"

definition take_aspace ::
  "('h, 'a, 'p) kernel \<Rightarrow> instance_id \<Rightarrow> 'a option \<times> ('h, 'a, 'p) kernel" where
  "take_aspace k i =
     (Option.bind (instance_get (k_instances k) i) i_aspace,
      k\<lparr>k_instances := instance_update (k_instances k) i (\<lambda>x. x\<lparr>i_aspace := None\<rparr>)\<rparr>)"

definition map_params ::
  "('h, 'a, 's, 'p) env \<Rightarrow> ('h, 'a, 'p) kernel \<Rightarrow> instance_id \<Rightarrow> param list \<Rightarrow>
   (param_raw list \<times> u64 option list, u32) res \<times> ('h, 'a, 'p) kernel" where
  "map_params E k iid params =
     (let raw = params_to_raw params; vas = replicate PARAM_COUNT None in
      case take_aspace k iid of
        (None, k) \<Rightarrow> (Err TEE_ERROR_TARGET_DEAD, k)
      | (Some aspace, k) \<Rightarrow> map_loop E iid params [0..<PARAM_COUNT] k aspace raw vas)"

definition unmap_param ::
  "('h, 'a, 's, 'p) env \<Rightarrow> instance_id \<Rightarrow> param list \<Rightarrow> u64 option list \<Rightarrow> nat \<Rightarrow>
   ('h, 'a, 'p) kernel \<Rightarrow> ('h, 'a, 'p) kernel" where
  "unmap_param E iid params vas i k =
     (case params ! i of
        PMemref (Ree ck offs) sz d \<Rightarrow>
          let k = (if d \<noteq> Dir_In
                   then (case hal_sync_out (e_hal E) (k_hal k) ck of
                           None \<Rightarrow> k | Some (_, h) \<Rightarrow> k\<lparr>k_hal := h\<rparr>)
                   else k) in
          (case vas ! i of
             None \<Rightarrow> k
           | Some va \<Rightarrow>
               k\<lparr>k_instances := instance_update (k_instances k) iid
                   (\<lambda>x. x\<lparr>i_aspace := map_option (\<lambda>a. as_unmap (e_hal E) a va) (i_aspace x)\<rparr>)\<rparr>)
      | _ \<Rightarrow> k)"

definition unmap_params ::
  "('h, 'a, 's, 'p) env \<Rightarrow> ('h, 'a, 'p) kernel \<Rightarrow> instance_id \<Rightarrow> param list \<Rightarrow> u64 option list \<Rightarrow>
   ('h, 'a, 'p) kernel" where
  "unmap_params E k iid params vas = fold (unmap_param E iid params vas) [0..<PARAM_COUNT] k"

section \<open>Opening a session\<close>

definition u16_inc :: "u16 \<Rightarrow> u16" where
  "u16_inc c = (if c = 0xffff then c else c + 1)"

definition u16_dec :: "u16 \<Rightarrow> u16" where
  "u16_dec c = (if c = 0 then 0 else c - 1)"

definition instance_entries ::
  "('h, 'a, 'p) kernel \<Rightarrow> instance_id \<Rightarrow> ta_entry_points option" where
  "instance_entries k i = Option.bind (instance_get (k_instances k) i) i_entries"

definition add_session ::
  "('h, 'a, 'p) kernel \<Rightarrow> instance_id \<Rightarrow> uuid \<Rightarrow> login \<Rightarrow> usize \<Rightarrow> param list \<Rightarrow>
   ('h, 'a, 'p) kernel outcome" where
  "add_session k iid u login ctx params =
     (let sess = \<lparr>s_id = 0, s_uuid = u, s_kind = UserTa, s_instance = Some iid, s_ta_sess_ctx = ctx,
                  s_state = S_Ready, s_client = login\<rparr> in
      case session_alloc (k_sessions k) sess of
        (Some sid, t) \<Rightarrow>
          Ret (Done TeeResult_ok (Some sid) params)
            (k\<lparr>k_sessions := t,
               k_instances := instance_update (k_instances k) iid
                 (\<lambda>x. x\<lparr>i_session_count := u16_inc (i_session_count x)\<rparr>)\<rparr>)
      | (None, t) \<Rightarrow> Ret (done_err TEE_ERROR_OUT_OF_MEMORY) (k\<lparr>k_sessions := t\<rparr>))"

definition bind_session ::
  "('h, 'a, 's, 'p) env \<Rightarrow> ('h, 'a, 'p) kernel \<Rightarrow> instance_id \<Rightarrow> uuid \<Rightarrow> login \<Rightarrow> param list \<Rightarrow>
   ('h, 'a, 'p) kernel outcome" where
  "bind_session E k iid u login params =
     (case instance_entries k iid of
        None \<Rightarrow> add_session k iid u login 0 params
      | Some ep \<Rightarrow>
          let types = param_types_of params in
          (case map_params E k iid params of
             (Err e, k) \<Rightarrow> Ret (done_err e) k
           | (Panic, k) \<Rightarrow> Crash
           | (Ok (raw, vas), k) \<Rightarrow>
               let k = k\<lparr>k_current_instance := Some iid\<rparr> in
               (case ta_open E (ep_open_session ep) types raw 0 (k_hal k) of
                  None \<Rightarrow> Trapped k
                | Some (code, raw, ctx, h) \<Rightarrow>
                    let k = k\<lparr>k_hal := h, k_current_instance := None\<rparr>;
                        params = params_from_raw params raw;
                        k = unmap_params E k iid params vas in
                    if code \<noteq> TEE_SUCCESS then Ret (Done (TeeResult_ta code) None params) k
                    else add_session k iid u login ctx params)))"

definition drop_instance :: "instance_id \<Rightarrow> ('h, 'a, 'p) kernel \<Rightarrow> ('h, 'a, 'p) kernel" where
  "drop_instance i k = k\<lparr>k_instances := snd (instance_drop_id (k_instances k) i)\<rparr>"

definition call_create ::
  "('h, 'a, 's, 'p) env \<Rightarrow> ('h, 'a, 'p) kernel \<Rightarrow> instance_id \<Rightarrow> ta_entry_points option \<Rightarrow>
   u32 option \<times> ('h, 'a, 'p) kernel" where
  "call_create E k iid entries =
     (case entries of
        None \<Rightarrow> (Some TEE_SUCCESS, k)
      | Some ep \<Rightarrow>
          let k = k\<lparr>k_current_instance := Some iid\<rparr> in
          (case ta_create E (ep_create ep) (k_hal k) of
             None \<Rightarrow> (None, k)
           | Some (code, h) \<Rightarrow> (Some code, k\<lparr>k_hal := h, k_current_instance := None\<rparr>)))"

definition instantiate_and_bind ::
  "('h, 'a, 's, 'p) env \<Rightarrow> ('h, 'a, 'p) kernel \<Rightarrow> ta_properties \<Rightarrow> uuid \<Rightarrow> login \<Rightarrow> param list \<Rightarrow>
   ta_entry_points option \<Rightarrow> 'a option \<Rightarrow> ('h, 'a, 'p) kernel outcome" where
  "instantiate_and_bind E k props u login params entries aspace =
     (if tp_uuid props \<noteq> u then Ret (done_err TEE_ERROR_SECURITY) k
      else
        let (aspace, k) =
              (case aspace of
                 Some a \<Rightarrow> (a, k)
               | None \<Rightarrow> let (a, h) = hal_new_address_space (e_hal E) (k_hal k) in (a, k\<lparr>k_hal := h\<rparr>));
            x = \<lparr>i_id = 0, i_uuid = u, i_props = props, i_aspace = Some aspace,
                 i_session_count = 0, i_state = I_Live, i_entries = entries, i_busy = False\<rparr> in
        case instance_alloc (k_instances k) x of
          (None, t) \<Rightarrow> Ret (done_err TEE_ERROR_OUT_OF_MEMORY) (k\<lparr>k_instances := t\<rparr>)
        | (Some iid, t) \<Rightarrow>
            (case lock_instance (k\<lparr>k_instances := t\<rparr>) iid of
               (Err e, k) \<Rightarrow> Ret (done_err e) (drop_instance iid k)
             | (Panic, k) \<Rightarrow> Crash
             | (Ok _, k) \<Rightarrow>
                 (case call_create E k iid entries of
                    (None, k) \<Rightarrow> Trapped k
                  | (Some code, k) \<Rightarrow>
                      if code \<noteq> TEE_SUCCESS
                      then Ret (Done (TeeResult_ta code) None params)
                             (drop_instance iid (unlock_instance iid k))
                      else then_do (bind_session E k iid u login params) (unlock_instance iid))))"

definition open_user_ta ::
  "('h, 'a, 's, 'p) env \<Rightarrow> ('h, 'a, 'p) kernel \<Rightarrow> uuid \<Rightarrow> login \<Rightarrow> param list \<Rightarrow> u32 \<Rightarrow> u32 \<Rightarrow>
   ('h, 'a, 'p) kernel outcome" where
  "open_user_ta E k u login params cancel_id timeout_ms =
     (if cancelled k cancel_id then Ret (done_err TEE_ERROR_CANCEL) k
      else case live_single (k_instances k) u of
        Some i \<Rightarrow>
          (case instance_get (k_instances k) i of
             None \<Rightarrow> Crash
           | Some x \<Rightarrow>
               if \<not> tp_multi_session (i_props x) \<and> i_session_count x > 0
               then Ret (done_err TEE_ERROR_BUSY) k
               else
                 (case lock_instance k i of
                    (Err e, k) \<Rightarrow> Ret (done_err e) k
                  | (Panic, k) \<Rightarrow> Crash
                  | (Ok _, k) \<Rightarrow> then_do (bind_session E k i u login params) (unlock_instance i)))
      | None \<Rightarrow>
          (case early_get (k_early k) u of
             Some early \<Rightarrow>
               instantiate_and_bind E k (et_props early) u login params (et_entries early) None
           | None \<Rightarrow>
               if k_yielding k \<noteq> None then Ret (done_err TEE_ERROR_BUSY) k
               else Ret (Rpc (Rpc_LoadTa u))
                      (k\<lparr>k_yielding := Some (Y_LoadTa u login params cancel_id timeout_ms)\<rparr>)))"

definition open_pta ::
  "('h, 'a, 's, 'p) env \<Rightarrow> ('h, 'a, 'p) kernel \<Rightarrow> nat \<Rightarrow> uuid \<Rightarrow> login \<Rightarrow> param list \<Rightarrow>
   ('h, 'a, 'p) kernel outcome" where
  "open_pta E k p u login params =
     (case pta_open E (k_ptas k ! p) params of
        None \<Rightarrow> Trapped k
      | Some (r, params, pta) \<Rightarrow>
          let k = k\<lparr>k_ptas := (k_ptas k)[p := pta]\<rparr> in
          (case r of
             Inl e \<Rightarrow> Ret (Done e None params) k
           | Inr ctx \<Rightarrow>
               let sess = \<lparr>s_id = 0, s_uuid = u, s_kind = Pta, s_instance = None,
                           s_ta_sess_ctx = ctx, s_state = S_Ready, s_client = login\<rparr> in
               (case session_alloc (k_sessions k) sess of
                  (Some sid, t) \<Rightarrow>
                    Ret (Done TeeResult_ok (Some sid) params) (k\<lparr>k_sessions := t\<rparr>)
                | (None, t) \<Rightarrow> Ret (done_err TEE_ERROR_OUT_OF_MEMORY) (k\<lparr>k_sessions := t\<rparr>))))"

definition open_session ::
  "('h, 'a, 's, 'p) env \<Rightarrow> ('h, 'a, 'p) kernel \<Rightarrow> uuid \<Rightarrow> login \<Rightarrow> param list \<Rightarrow> u32 \<Rightarrow> u32 \<Rightarrow>
   ('h, 'a, 'p) kernel outcome" where
  "open_session E k u login params cancel_id timeout_ms =
     (if cancelled k cancel_id then Ret (done_err TEE_ERROR_CANCEL) k
      else case pta_get_mut E (k_ptas k) u of
        Some p \<Rightarrow> open_pta E k p u login params
      | None \<Rightarrow> open_user_ta E k u login params cancel_id timeout_ms)"

section \<open>Invoking and closing\<close>

definition invoke_pta ::
  "('h, 'a, 's, 'p) env \<Rightarrow> ('h, 'a, 'p) kernel \<Rightarrow> session_id \<Rightarrow> session \<Rightarrow> u32 \<Rightarrow> param list \<Rightarrow>
   ('h, 'a, 'p) kernel outcome" where
  "invoke_pta E k sid sess cmd_id params =
     (case pta_get_mut E (k_ptas k) (s_uuid sess) of
        None \<Rightarrow> Ret (done_err TEE_ERROR_ITEM_NOT_FOUND) k
      | Some p \<Rightarrow>
          let k = k\<lparr>k_current_pta := True\<rparr> in
          (case pta_invoke E (k_ptas k ! p) (s_ta_sess_ctx sess) cmd_id params of
             None \<Rightarrow> Trapped k
           | Some (r, params, pta) \<Rightarrow>
               Ret (Done r (Some sid) params)
                 (k\<lparr>k_ptas := (k_ptas k)[p := pta], k_current_pta := False\<rparr>)))"

definition call_invoke ::
  "('h, 'a, 's, 'p) env \<Rightarrow> ('h, 'a, 'p) kernel \<Rightarrow> instance_id \<Rightarrow> session_id \<Rightarrow> session \<Rightarrow> u32 \<Rightarrow>
   param list \<Rightarrow> param_raw list \<Rightarrow> u64 option list \<Rightarrow> ('h, 'a, 'p) kernel outcome" where
  "call_invoke E k iid sid sess cmd_id params raw vas =
     (let types = param_types_of params in
      case (case instance_entries k iid of
              Some ep \<Rightarrow> ta_invoke E (ep_invoke ep) (s_ta_sess_ctx sess) cmd_id types raw (k_hal k)
            | None \<Rightarrow> Some (TEE_SUCCESS, raw, k_hal k)) of
        None \<Rightarrow> Trapped k
      | Some (code, raw, h) \<Rightarrow>
          let params = params_from_raw params raw;
              k = unmap_params E (k\<lparr>k_hal := h\<rparr>) iid params vas in
          Ret (Done (if code = TEE_SUCCESS then TeeResult_ok else TeeResult_ta code) (Some sid) params) k)"

definition invoke_user_ta ::
  "('h, 'a, 's, 'p) env \<Rightarrow> ('h, 'a, 'p) kernel \<Rightarrow> session_id \<Rightarrow> session \<Rightarrow> u32 \<Rightarrow> param list \<Rightarrow>
   ('h, 'a, 'p) kernel outcome" where
  "invoke_user_ta E k sid sess cmd_id params =
     (case s_instance sess of
        None \<Rightarrow> Ret (done_err TEE_ERROR_TARGET_DEAD) k
      | Some iid \<Rightarrow>
          (case lock_instance k iid of
             (Err e, k) \<Rightarrow> Ret (done_err e) k
           | (Panic, k) \<Rightarrow> Crash
           | (Ok _, k) \<Rightarrow>
               let k = k\<lparr>k_current_instance := Some iid\<rparr> in
               then_do
                 (case map_params E k iid params of
                    (Err e, k) \<Rightarrow> Ret (done_err e) k
                  | (Panic, k) \<Rightarrow> Crash
                  | (Ok (raw, vas), k) \<Rightarrow> call_invoke E k iid sid sess cmd_id params raw vas)
                 (\<lambda>k. unlock_instance iid (k\<lparr>k_current_instance := None\<rparr>))))"

definition invoke ::
  "('h, 'a, 's, 'p) env \<Rightarrow> ('h, 'a, 'p) kernel \<Rightarrow> session_id \<Rightarrow> u32 \<Rightarrow> param list \<Rightarrow> u32 \<Rightarrow>
   ('h, 'a, 'p) kernel outcome" where
  "invoke E k sid cmd_id params cancel_id =
     (if cancelled k cancel_id then Ret (done_err TEE_ERROR_CANCEL) k
      else case session_get (k_sessions k) sid of
        None \<Rightarrow> Ret (done_err TEE_ERROR_BAD_PARAMETERS) k
      | Some sess \<Rightarrow>
          if s_state sess = S_Dead then Ret (done_err TEE_ERROR_TARGET_DEAD) k
          else (case s_kind sess of
              Pta \<Rightarrow> invoke_pta E k sid sess cmd_id params
            | UserTa \<Rightarrow> invoke_user_ta E k sid sess cmd_id params))"

definition close_done :: kernel_out where
  "close_done = Done TeeResult_ok None no_params"

text \<open>The calls to \<open>close_session\<close> and \<open>destroy\<close>: the kernel after the call, or the trapped one.\<close>

definition call_close ::
  "('h, 'a, 's, 'p) env \<Rightarrow> ('h, 'a, 'p) kernel \<Rightarrow> instance_id \<Rightarrow> usize \<Rightarrow>
   ('h, 'a, 'p) kernel + ('h, 'a, 'p) kernel" where
  "call_close E k iid ctx =
     (case instance_entries k iid of
        None \<Rightarrow> Inr k
      | Some ep \<Rightarrow>
          let k = k\<lparr>k_current_instance := Some iid\<rparr> in
          (case ta_close E (ep_close_session ep) ctx (k_hal k) of
             None \<Rightarrow> Inl k
           | Some h \<Rightarrow> Inr (k\<lparr>k_hal := h, k_current_instance := None\<rparr>)))"

definition call_destroy ::
  "('h, 'a, 's, 'p) env \<Rightarrow> ('h, 'a, 'p) kernel \<Rightarrow> instance_id \<Rightarrow>
   ('h, 'a, 'p) kernel + ('h, 'a, 'p) kernel" where
  "call_destroy E k iid =
     (case instance_entries k iid of
        None \<Rightarrow> Inr k
      | Some ep \<Rightarrow>
          let k = k\<lparr>k_current_instance := Some iid\<rparr> in
          (case ta_destroy E (ep_destroy ep) (k_hal k) of
             None \<Rightarrow> Inl k
           | Some h \<Rightarrow> Inr (k\<lparr>k_hal := h, k_current_instance := None\<rparr>)))"

definition release_instance ::
  "('h, 'a, 's, 'p) env \<Rightarrow> ('h, 'a, 'p) kernel \<Rightarrow> instance_id \<Rightarrow> ('h, 'a, 'p) kernel outcome" where
  "release_instance E k iid =
     (let k = k\<lparr>k_instances := instance_update (k_instances k) iid
                (\<lambda>x. x\<lparr>i_session_count := u16_dec (i_session_count x)\<rparr>)\<rparr>;
          drop_inst = (case instance_get (k_instances k) iid of
                         None \<Rightarrow> False
                       | Some x \<Rightarrow> i_session_count x = 0 \<and> \<not> tp_instance_keep_alive (i_props x)) in
      if drop_inst
      then (case call_destroy E k iid of
              Inl k \<Rightarrow> Trapped k
            | Inr k \<Rightarrow>
                let k = k\<lparr>k_instances := instance_update (k_instances k) iid kill_instance\<rparr> in
                Ret close_done (drop_instance iid k))
      else Ret close_done (unlock_instance iid k))"

definition close_user_ta ::
  "('h, 'a, 's, 'p) env \<Rightarrow> ('h, 'a, 'p) kernel \<Rightarrow> session \<Rightarrow> ('h, 'a, 'p) kernel outcome" where
  "close_user_ta E k sess =
     (case s_instance sess of
        None \<Rightarrow> Ret close_done k
      | Some iid \<Rightarrow>
          (case lock_instance k iid of
             (Err e, k) \<Rightarrow> Ret (done_err e) k
           | (Panic, k) \<Rightarrow> Crash
           | (Ok _, k) \<Rightarrow>
               (case call_close E k iid (s_ta_sess_ctx sess) of
                  Inl k \<Rightarrow> Trapped k
                | Inr k \<Rightarrow> release_instance E k iid)))"

definition close_pta ::
  "('h, 'a, 's, 'p) env \<Rightarrow> ('h, 'a, 'p) kernel \<Rightarrow> session \<Rightarrow> ('h, 'a, 'p) kernel outcome" where
  "close_pta E k sess =
     (case pta_get_mut E (k_ptas k) (s_uuid sess) of
        None \<Rightarrow> Ret close_done k
      | Some p \<Rightarrow>
          (case pta_close E (k_ptas k ! p) (s_ta_sess_ctx sess) of
             None \<Rightarrow> Trapped k
           | Some pta \<Rightarrow> Ret close_done (k\<lparr>k_ptas := (k_ptas k)[p := pta]\<rparr>)))"

definition close_session ::
  "('h, 'a, 's, 'p) env \<Rightarrow> ('h, 'a, 'p) kernel \<Rightarrow> session_id \<Rightarrow> ('h, 'a, 'p) kernel outcome" where
  "close_session E k sid =
     (case session_take (k_sessions k) sid of
        (None, t) \<Rightarrow> Ret (done_err TEE_ERROR_BAD_PARAMETERS) (k\<lparr>k_sessions := t\<rparr>)
      | (Some sess, t) \<Rightarrow>
          let k = k\<lparr>k_sessions := t\<rparr> in
          (case s_kind sess of
             Pta \<Rightarrow> close_pta E k sess
           | UserTa \<Rightarrow> close_user_ta E k sess))"

section \<open>Completing an RPC and the dispatcher\<close>

definition load_ta ::
  "('h, 'a, 's, 'p) env \<Rightarrow> ('h, 'a, 'p) kernel \<Rightarrow> uuid \<Rightarrow> login \<Rightarrow> param list \<Rightarrow> bytes \<Rightarrow>
   ('h, 'a, 'p) kernel outcome" where
  "load_ta E k u login params b =
     (case load_image (e_crypto E) (e_pubkey E) b of
        Err code \<Rightarrow> Ret (done_err code) k
      | Panic \<Rightarrow> Crash
      | Ok l \<Rightarrow>
          if tp_uuid (ld_props l) \<noteq> u then Ret (done_err TEE_ERROR_SECURITY) k
          else
            let (aspace, h) = hal_new_address_space (e_hal E) (k_hal k);
                k = k\<lparr>k_hal := h\<rparr> in
            (case map_elf (e_hal E) aspace b of
               (Err code, _) \<Rightarrow> Ret (done_err code) k
             | (Panic, _) \<Rightarrow> Crash
             | (Ok entries, aspace) \<Rightarrow>
                 instantiate_and_bind E k (ld_props l) u login params entries (Some aspace)))"

definition rpc_complete ::
  "('h, 'a, 's, 'p) env \<Rightarrow> ('h, 'a, 'p) kernel \<Rightarrow> rpc_response \<Rightarrow> ('h, 'a, 'p) kernel outcome" where
  "rpc_complete E k resp =
     (case k_yielding k of
        None \<Rightarrow> Ret (done_err TEE_ERROR_BAD_PARAMETERS) k
      | Some (Y_LoadTa u login params cancel_id timeout_ms) \<Rightarrow>
          let k = k\<lparr>k_yielding := None\<rparr> in
          (case resp of
             Resp_LoadTa b \<Rightarrow>
               if cancelled k cancel_id then Ret (done_err TEE_ERROR_CANCEL) k
               else load_ta E k u login params b
           | Resp_Error code \<Rightarrow> Ret (done_err code) k
           | _ \<Rightarrow> Ret (done_err TEE_ERROR_NOT_SUPPORTED) k))"

definition handle ::
  "('h, 'a, 's, 'p) env \<Rightarrow> ('h, 'a, 'p) kernel \<Rightarrow> kernel_cmd \<Rightarrow> ('h, 'a, 'p) kernel outcome" where
  "handle E k cmd =
     (if \<not> k_notices_ok k then Ret (done_err TEE_ERROR_SECURITY) k
      else case cmd of
        OpenSession u login params cancel_id timeout_ms \<Rightarrow>
          open_session E k u login params cancel_id timeout_ms
      | Invoke sid cmd_id params cancel_id timeout_ms \<Rightarrow> invoke E k sid cmd_id params cancel_id
      | CloseSession sid \<Rightarrow> close_session E k sid
      | Cancel cancel_id \<Rightarrow> Ret (done_err TEE_SUCCESS) (k\<lparr>k_cancelled := k_cancelled k @ [cancel_id]\<rparr>)
      | RpcComplete resp \<Rightarrow> rpc_complete E k resp)"

end
