(* ===== verification/Kernel_Inv.thy ===== *)
theory Kernel_Inv
  imports Kernel_Model
begin

text \<open>
  The kernel invariant and its preservation. Between two commands every user session points to an
  instance with its UUID, a live instance is unlocked and counts exactly its sessions, an instance
  whose application panicked is dead together with its sessions, at most one live single-instance
  application exists per UUID, and an application that is not multi-session has at most one session.
  Inside a command one instance is locked (\<open>L\<close>) and its counter may be one ahead of the table
  (\<open>D\<close>); \<open>kcore L D\<close> is the invariant at such a point.
\<close>

section \<open>The invariant\<close>

abbreviation sess :: "('h, 'a, 'p) kernel \<Rightarrow> session_id \<Rightarrow> session option" where
  "sess k \<equiv> session_get (k_sessions k)"

abbreviation inst :: "('h, 'a, 'p) kernel \<Rightarrow> instance_id \<Rightarrow> 'a ta_instance option" where
  "inst k \<equiv> instance_get (k_instances k)"

definition sessions_of :: "('h, 'a, 'p) kernel \<Rightarrow> instance_id \<Rightarrow> session_id set" where
  "sessions_of k i = {sid. \<exists>s. sess k sid = Some s \<and> s_instance s = Some i}"

definition n_sess :: "('h, 'a, 'p) kernel \<Rightarrow> instance_id \<Rightarrow> nat" where
  "n_sess k i = card (sessions_of k i)"

definition sess_ok :: "('h, 'a, 'p) kernel \<Rightarrow> session \<Rightarrow> bool" where
  "sess_ok k s \<longleftrightarrow>
     (case s_kind s of
        Pta \<Rightarrow> s_instance s = None \<and> s_state s = S_Ready
      | UserTa \<Rightarrow>
          (case s_instance s of
             None \<Rightarrow> False
           | Some i \<Rightarrow>
               (case inst k i of
                  None \<Rightarrow> False
                | Some x \<Rightarrow> i_uuid x = s_uuid s \<and>
                    s_state s = (if i_state x = I_Dead then S_Dead else S_Ready))))"

definition inst_ok ::
  "instance_id option \<Rightarrow> instance_id option \<Rightarrow> ('h, 'a, 'p) kernel \<Rightarrow> instance_id \<Rightarrow> 'a ta_instance \<Rightarrow> bool"
where
  "inst_ok L D k i x \<longleftrightarrow>
     tp_uuid (i_props x) = i_uuid x \<and>
     (\<not> tp_multi_session (i_props x) \<longrightarrow> unat (i_session_count x) \<le> 1) \<and>
     (i_state x = I_Live \<and> (i_busy x \<longleftrightarrow> L = Some i) \<and>
        unat (i_session_count x) = n_sess k i + (if D = Some i then 1 else 0) \<or>
      i_state x = I_Dead \<and> i_busy x \<and> L \<noteq> Some i \<and> n_sess k i \<le> unat (i_session_count x))"

definition single_ok :: "('h, 'a, 'p) kernel \<Rightarrow> bool" where
  "single_ok k \<longleftrightarrow>
     (\<forall>u i j x y. inst k i = Some x \<longrightarrow> inst k j = Some y \<longrightarrow>
        is_live_single u x \<longrightarrow> is_live_single u y \<longrightarrow> i = j)"

definition no_live_single :: "('h, 'a, 'p) kernel \<Rightarrow> uuid \<Rightarrow> bool" where
  "no_live_single k u \<longleftrightarrow> (\<forall>i x. inst k i = Some x \<longrightarrow> \<not> is_live_single u x)"

definition yield_ok :: "('h, 'a, 'p) kernel \<Rightarrow> bool" where
  "yield_ok k \<longleftrightarrow>
     (case k_yielding k of
        None \<Rightarrow> True
      | Some (Y_LoadTa u _ _ _ _) \<Rightarrow> early_get (k_early k) u = None \<and> no_live_single k u)"

definition tables_ok :: "('h, 'a, 'p) kernel \<Rightarrow> bool" where
  "tables_ok k \<longleftrightarrow>
     tbl_ok s_id (k_sessions k) \<and> tbl_ok i_id (k_instances k) \<and>
     length (slots (k_sessions k)) = MAX_SESSIONS \<and> length (slots (k_instances k)) = MAX_INSTANCES"

definition kcore :: "instance_id option \<Rightarrow> instance_id option \<Rightarrow> ('h, 'a, 'p) kernel \<Rightarrow> bool" where
  "kcore L D k \<longleftrightarrow>
     tables_ok k \<and>
     (\<forall>sid s. sess k sid = Some s \<longrightarrow> sess_ok k s) \<and>
     (\<forall>i x. inst k i = Some x \<longrightarrow> inst_ok L D k i x) \<and>
     (\<forall>i. L = Some i \<longrightarrow> inst k i \<noteq> None) \<and>
     single_ok k \<and> yield_ok k"

definition kinv :: "('h, 'a, 'p) kernel \<Rightarrow> bool" where
  "kinv k \<longleftrightarrow> kcore None None k \<and> k_current_instance k = None \<and> \<not> k_current_pta k"

text \<open>The state a panicking application or PTA leaves behind.\<close>

definition trap_ok :: "('h, 'a, 'p) kernel \<Rightarrow> bool" where
  "trap_ok k \<longleftrightarrow>
     k_current_pta k \<or> kinv k \<or>
     (\<exists>i D. k_current_instance k = Some i \<and> kcore (Some i) D k \<and> (D = None \<or> D = Some i))"

section \<open>What the invariant does not depend on\<close>

definition strip :: "'a ta_instance \<Rightarrow> 'a ta_instance" where
  "strip x = x\<lparr>i_aspace := None\<rparr>"

definition same_core :: "('h, 'a, 'p) kernel \<Rightarrow> ('h, 'a, 'p) kernel \<Rightarrow> bool" where
  "same_core k k' \<longleftrightarrow>
     k_sessions k' = k_sessions k \<and> k_yielding k' = k_yielding k \<and> k_early k' = k_early k \<and>
     length (slots (k_instances k')) = length (slots (k_instances k)) \<and>
     next_id (k_instances k') = next_id (k_instances k) \<and>
     tbl_ok i_id (k_instances k') = tbl_ok i_id (k_instances k) \<and>
     (\<forall>i. map_option strip (inst k' i) = map_option strip (inst k i))"

lemma strip_fields:
  assumes "strip x = strip y"
  shows "i_uuid x = i_uuid y" "i_props x = i_props y" "i_session_count x = i_session_count y"
    "i_state x = i_state y" "i_entries x = i_entries y" "i_busy x = i_busy y" "i_id x = i_id y"
  using assms by (cases x; cases y; simp add: strip_def)+

text \<open>No operation but the creation of an instance makes one live, so the two conditions on live
  single-instance applications carry over.\<close>

lemma live_transfer:
  assumes live: "\<And>j y u. inst k' j = Some y \<Longrightarrow> is_live_single u y \<Longrightarrow>
                   \<exists>y'. inst k j = Some y' \<and> is_live_single u y'"
    and "k_yielding k' = k_yielding k" "k_early k' = k_early k"
    and "single_ok k" "yield_ok k"
  shows "single_ok k' \<and> yield_ok k'"
proof
  show "single_ok k'"
    unfolding single_ok_def
  proof (intro allI impI)
    fix u i j x y
    assume "inst k' i = Some x" "inst k' j = Some y" "is_live_single u x" "is_live_single u y"
    with live obtain x' y' where "inst k i = Some x'" "is_live_single u x'"
      "inst k j = Some y'" "is_live_single u y'" by meson
    with assms(4) show "i = j" unfolding single_ok_def by blast
  qed
  have "no_live_single k' u" if "no_live_single k u" for u
    using live that unfolding no_live_single_def by blast
  with assms show "yield_ok k'"
    by (auto simp: yield_ok_def split: option.splits yielding.splits)
qed

lemma same_core_refl [simp]: "same_core k k"
  by (simp add: same_core_def)

lemma same_core_trans: "same_core k k' \<Longrightarrow> same_core k' k'' \<Longrightarrow> same_core k k''"
  by (simp add: same_core_def)

lemma same_core_inst:
  assumes "same_core k k'" and "inst k' i = Some x'"
  obtains x where "inst k i = Some x" "strip x = strip x'"
proof -
  have "map_option strip (inst k' i) = map_option strip (inst k i)"
    using assms(1) by (simp add: same_core_def)
  with assms(2) that show ?thesis by (cases "inst k i") auto
qed

lemma same_core_sym: "same_core k k' \<Longrightarrow> same_core k' k"
  by (simp add: same_core_def)

lemma same_core_dom: "same_core k k' \<Longrightarrow> inst k' i = None \<longleftrightarrow> inst k i = None"
  by (metis same_core_def option.map_disc_iff)

lemma same_core_n_sess: "same_core k k' \<Longrightarrow> n_sess k' i = n_sess k i"
  by (simp add: same_core_def n_sess_def sessions_of_def)

lemma kcore_cong:
  assumes "same_core k k'" and "kcore L D k"
  shows "kcore L D k'"
proof -
  note inst_of = same_core_inst [OF assms(1)] and fields = strip_fields
  have ses: "k_sessions k' = k_sessions k" and y: "k_yielding k' = k_yielding k" "k_early k' = k_early k"
    using assms(1) by (auto simp: same_core_def)
  have "tables_ok k'" using assms by (auto simp: kcore_def tables_ok_def same_core_def)
  moreover have "sess_ok k' s" if "sess k' sid = Some s" for sid s
  proof -
    have "sess_ok k s" using assms(2) that ses by (auto simp: kcore_def)
    show ?thesis
    proof (cases "s_kind s")
      case Pta
      with \<open>sess_ok k s\<close> show ?thesis by (simp add: sess_ok_def)
    next
      case UserTa
      with \<open>sess_ok k s\<close> obtain i x where x: "s_instance s = Some i" "inst k i = Some x"
        "i_uuid x = s_uuid s" "s_state s = (if i_state x = I_Dead then S_Dead else S_Ready)"
        by (auto simp: sess_ok_def split: option.splits)
      from same_core_inst [OF same_core_sym [OF assms(1)] x(2)] obtain x' where
        x': "inst k' i = Some x'" "strip x' = strip x" by blast
      with x UserTa fields [OF x'(2)] show ?thesis by (simp add: sess_ok_def)
    qed
  qed
  moreover have "inst_ok L D k' i x'" if x': "inst k' i = Some x'" for i x'
  proof -
    obtain x where x: "inst k i = Some x" "strip x = strip x'" using inst_of x' by blast
    then have "inst_ok L D k i x" using assms(2) by (auto simp: kcore_def)
    with fields [OF x(2)] same_core_n_sess [OF assms(1)] show ?thesis by (simp add: inst_ok_def)
  qed
  moreover have live: "\<exists>x. inst k i = Some x \<and> is_live_single u x"
    if x': "inst k' i = Some x'" "is_live_single u x'" for i x' u
  proof -
    obtain x where x: "inst k i = Some x" "strip x = strip x'" using inst_of x'(1) by blast
    with fields [OF x(2)] x'(2) show ?thesis by (simp add: is_live_single_def)
  qed
  from live_transfer [OF this y] assms(2) have "single_ok k'" "yield_ok k'"
    by (auto simp: kcore_def)
  moreover have "inst k' i \<noteq> None" if "L = Some i" for i
    using assms(2) that same_core_dom [OF assms(1), of i] by (auto simp: kcore_def)
  ultimately show ?thesis by (simp add: kcore_def)
qed

section \<open>Updating one instance\<close>

lemma inst_ok_sessions: "k_sessions k' = k_sessions k \<Longrightarrow> inst_ok L D k' = inst_ok L D k"
  by (simp add: inst_ok_def fun_eq_iff n_sess_def sessions_of_def)

lemma inst_update [simp]:
  "(\<And>x. i_id (f x) = i_id x) \<Longrightarrow>
   instance_get (instance_update t i f) j =
     (if j = i then map_option f (instance_get t i) else instance_get t j)"
  by (simp add: ins.update_get)

lemma kcore_update:
  assumes k: "kcore L D k" and x: "inst k i = Some x"
    and id: "\<And>x. i_id (f x) = i_id x"
    and keep: "i_uuid (f x) = i_uuid x" "i_props (f x) = i_props x" "i_state (f x) = i_state x"
    and new: "inst_ok L' D' k i (f x)"
    and old: "\<And>j y. j \<noteq> i \<Longrightarrow> inst_ok L D k j y \<Longrightarrow> inst_ok L' D' k j y"
    and lock: "\<And>j. L' = Some j \<Longrightarrow> j = i"
  shows "kcore L' D' (k\<lparr>k_instances := instance_update (k_instances k) i f\<rparr>)" (is "kcore L' D' ?k")
proof -
  note get = inst_update [of f, OF id]
  have ok: "inst_ok L' D' ?k = inst_ok L' D' k" by (rule inst_ok_sessions) simp
  have ses: "sess_ok ?k s" if "sess_ok k s" for s
    using that x keep by (auto simp: sess_ok_def get split: session_kind.splits option.splits)
  have live: "\<exists>y. inst k j = Some y \<and> is_live_single u y"
    if "inst ?k j = Some y" "is_live_single u y" for j y u
    using that x keep by (auto simp: is_live_single_def get split: if_splits)
  from live_transfer [of ?k k, OF this] k have "single_ok ?k" "yield_ok ?k"
    by (simp_all add: kcore_def)
  moreover have "tables_ok ?k"
    using k id by (simp add: kcore_def tables_ok_def ins.update_ok)
  moreover have "inst_ok L' D' ?k j y" if y: "inst ?k j = Some y" for j y
  proof (cases "j = i")
    case True
    with y x new ok show ?thesis by (simp add: get)
  next
    case False
    with y have "inst k j = Some y" by (simp add: get)
    with k have "inst_ok L D k j y" by (simp add: kcore_def)
    with old False ok show ?thesis by simp
  qed
  moreover have "inst ?k j \<noteq> None" if "L' = Some j" for j
    using lock [OF that] x by (simp add: get)
  ultimately show ?thesis using k ses by (simp add: kcore_def)
qed

lemma lock_cases:
  assumes "kcore None D k"
  obtains (Missing) "inst k i = None" "lock_instance k i = (Err TEE_ERROR_TARGET_DEAD, k)"
  | (Dead) x where "inst k i = Some x" "i_state x = I_Dead"
      "lock_instance k i = (Err TEE_ERROR_BUSY, k)"
  | (Live) x k' where "inst k i = Some x" "i_state x = I_Live" "lock_instance k i = (Ok (), k')"
      "k' = k\<lparr>k_instances := instance_update (k_instances k) i (\<lambda>x. x\<lparr>i_busy := True\<rparr>)\<rparr>"
      "kcore (Some i) D k'" "inst k' i = Some (x\<lparr>i_busy := True\<rparr>)"
proof (cases "inst k i")
  case None
  with Missing show ?thesis by (simp add: lock_instance_def)
next
  case (Some x)
  with assms have x: "inst_ok None D k i x" by (simp add: kcore_def)
  show ?thesis
  proof (cases "i_state x = I_Dead")
    case True
    with x Some Dead show ?thesis by (simp add: lock_instance_def inst_ok_def)
  next
    case False
    let ?k = "k\<lparr>k_instances := instance_update (k_instances k) i (\<lambda>x. x\<lparr>i_busy := True\<rparr>)\<rparr>"
    have live: "i_state x = I_Live" "\<not> i_busy x" using x False by (auto simp: inst_ok_def)
    have "kcore (Some i) D ?k"
      using x live by (intro kcore_update [OF assms Some]) (auto simp: inst_ok_def)
    moreover have "inst ?k i = Some (x\<lparr>i_busy := True\<rparr>)"
      using Some by simp
    ultimately show ?thesis using Live [of x ?k] Some live by (simp add: lock_instance_def)
  qed
qed

lemma unlock_core:
  assumes "kcore (Some i) None k"
  shows "kcore None None (unlock_instance i k)"
proof -
  obtain x where x: "inst k i = Some x" using assms by (auto simp: kcore_def)
  with assms have "inst_ok (Some i) None k i x" by (simp add: kcore_def)
  then show ?thesis
    unfolding unlock_instance_def
    by (intro kcore_update [OF assms x]) (auto simp: inst_ok_def)
qed

section \<open>Marshalling parameters keeps the core\<close>

definition frame :: "('h, 'a, 'p) kernel \<Rightarrow> ('h, 'a, 'p) kernel \<Rightarrow> bool" where
  "frame k k' \<longleftrightarrow>
     same_core k k' \<and> k_current_instance k' = k_current_instance k \<and>
     k_current_pta k' = k_current_pta k \<and> k_cancelled k' = k_cancelled k \<and>
     k_notices_ok k' = k_notices_ok k \<and> k_ptas k' = k_ptas k \<and>
     k_entropy_origin k' = k_entropy_origin k"

lemma frame_refl [simp]: "frame k k"
  by (simp add: frame_def)

lemma frame_trans [trans]: "frame k k' \<Longrightarrow> frame k' k'' \<Longrightarrow> frame k k''"
  using same_core_trans by (fastforce simp: frame_def)

lemma frame_core: "frame k k' \<Longrightarrow> kcore L D k \<Longrightarrow> kcore L D k'"
  using kcore_cong by (auto simp: frame_def)

lemma frame_dom: "frame k k' \<Longrightarrow> inst k' i = None \<longleftrightarrow> inst k i = None"
  using same_core_dom by (auto simp: frame_def)

lemma frame_hal [simp]: "frame k (k\<lparr>k_hal := h\<rparr>)"
  by (simp add: frame_def same_core_def)

lemma frame_aspace:
  assumes "\<And>x. strip (f x) = strip x"
  shows "frame k (k\<lparr>k_instances := instance_update (k_instances k) i f\<rparr>)"
proof -
  have id: "i_id (f x) = i_id x" for x using strip_fields(7) [OF assms] .
  have "map_option strip (map_option f y) = map_option strip y" for y
    using assms by (cases y) auto
  then show ?thesis
    using id by (auto simp: frame_def same_core_def ins.update_ok)
qed

lemma strip_aspace [simp]: "strip (x\<lparr>i_aspace := a\<rparr>) = strip x"
  by (simp add: strip_def)

lemma put_aspace_frame: "put_aspace k i a = Some k' \<Longrightarrow> frame k k'"
  by (auto simp: put_aspace_def intro: frame_aspace split: option.splits)

lemma put_aspace_None: "put_aspace k i a = None \<longleftrightarrow> inst k i = None"
  by (auto simp: put_aspace_def split: option.splits)

lemma sync_param_in_frame:
  "sync_param_in E k ck d = (r, k') \<Longrightarrow> frame k k' \<and> r \<noteq> Panic"
  by (auto simp: sync_param_in_def split: if_splits option.splits prod.splits sum.splits)

lemma map_loop_frame:
  "map_loop E iid ps is k a raw vas = (r, k') \<Longrightarrow> inst k iid \<noteq> None \<Longrightarrow> frame k k' \<and> r \<noteq> Panic"
proof (induction "is" arbitrary: k a raw vas)
  case Nil
  then show ?case
    using put_aspace_None [of k iid a] by (auto simp: put_aspace_frame split: option.splits)
next
  case (Cons i "is")
  show ?case
  proof (cases "\<exists>ck offs sz d. ps ! i = PMemref (Ree ck offs) sz d")
    case False
    with Cons show ?thesis
      by (auto split: param.splits memref_src.splits)
  next
    case True
    then obtain ck offs sz d where p: "ps ! i = PMemref (Ree ck offs) sz d" by blast
    obtain r1 k1 where sync: "sync_param_in E k ck d = (r1, k1)" by fastforce
    have f1: "frame k k1" "r1 \<noteq> Panic" using sync_param_in_frame [OF sync] by auto
    have i1: "inst k1 iid \<noteq> None" using frame_dom [OF f1(1)] Cons.prems(2) by simp
    have IH: "map_loop E iid ps is k1 a' raw' vas' = (r, k') \<Longrightarrow> frame k k' \<and> r \<noteq> Panic" for a' raw' vas'
      using Cons.IH i1 frame_trans [OF f1(1)] by blast
    from Cons.prems(1) p sync f1 i1 IH put_aspace_None [of k1 iid a] show ?thesis
      by (auto split: res.splits option.splits if_splits prod.splits sum.splits
          dest: put_aspace_frame intro: frame_trans)
  qed
qed

lemma map_params_frame:
  assumes "map_params E k iid ps = (r, k')" and "inst k iid \<noteq> None"
  shows "frame k k' \<and> r \<noteq> Panic"
proof -
  obtain a k1 where t: "take_aspace k iid = (a, k1)" by fastforce
  then have f: "frame k k1" by (auto simp: take_aspace_def intro: frame_aspace)
  show ?thesis
  proof (cases a)
    case None
    with assms t f show ?thesis by (auto simp: map_params_def)
  next
    case (Some a')
    with assms(1) t have "map_loop E iid ps [0..<PARAM_COUNT] k1 a' (params_to_raw ps)
        (replicate PARAM_COUNT None) = (r, k')" by (simp add: map_params_def)
    moreover have "inst k1 iid \<noteq> None" using frame_dom [OF f] assms(2) by simp
    ultimately have "frame k1 k' \<and> r \<noteq> Panic" by (rule map_loop_frame)
    with frame_trans [OF f] show ?thesis by blast
  qed
qed

lemma unmap_param_frame: "frame k (unmap_param E iid ps vas i k)"
proof (cases "\<exists>ck offs sz d. ps ! i = PMemref (Ree ck offs) sz d")
  case False
  then have "unmap_param E iid ps vas i k = k"
    by (auto simp: unmap_param_def split: param.splits memref_src.splits)
  then show ?thesis by simp
next
  case True
  then obtain ck offs sz d where p: "ps ! i = PMemref (Ree ck offs) sz d" by blast
  define k1 where "k1 = (if d \<noteq> Dir_In
      then (case hal_sync_out (e_hal E) (k_hal k) ck of None \<Rightarrow> k | Some (_, h) \<Rightarrow> k\<lparr>k_hal := h\<rparr>)
      else k)"
  have "frame k k1" by (auto simp: k1_def split: option.splits)
  moreover have "frame k1 (unmap_param E iid ps vas i k)"
  proof (cases "vas ! i")
    case None
    then show ?thesis by (simp add: unmap_param_def p flip: k1_def)
  next
    case (Some va)
    then have "unmap_param E iid ps vas i k =
        k1\<lparr>k_instances := instance_update (k_instances k1) iid
             (\<lambda>x. x\<lparr>i_aspace := map_option (\<lambda>a. as_unmap (e_hal E) a va) (i_aspace x)\<rparr>)\<rparr>"
      by (simp add: unmap_param_def p flip: k1_def)
    then show ?thesis by (simp only:) (rule frame_aspace, simp)
  qed
  ultimately show ?thesis by (rule frame_trans)
qed

lemma unmap_params_frame: "frame k (unmap_params E k iid ps vas)"
proof -
  have "frame k (fold (unmap_param E iid ps vas) is k)" for "is"
  proof (induction "is" arbitrary: k)
    case (Cons i "is")
    then show ?case by simp (rule frame_trans [OF unmap_param_frame])
  qed simp
  then show ?thesis by (simp add: unmap_params_def)
qed

section \<open>Adding a session\<close>

fun out_ok :: "('k \<Rightarrow> bool) \<Rightarrow> ('k \<Rightarrow> bool) \<Rightarrow> 'k outcome \<Rightarrow> bool" where
  "out_ok Q T (Ret out k) = Q k"
| "out_ok Q T (Trapped k) = T k"
| "out_ok Q T Crash = False"

lemma out_ok_then_do: "out_ok Q T (then_do r g) = out_ok (\<lambda>k. Q (g k)) T r"
  by (cases r) auto

lemma out_ok_mono:
  "out_ok Q T r \<Longrightarrow> (\<And>k. Q k \<Longrightarrow> Q' k) \<Longrightarrow> (\<And>k. T k \<Longrightarrow> T' k) \<Longrightarrow> out_ok Q' T' r"
  by (cases r) auto

definition quiet :: "('h, 'a, 'p) kernel \<Rightarrow> bool" where
  "quiet k \<longleftrightarrow> k_current_instance k = None \<and> \<not> k_current_pta k"

text \<open>One command draws at most one identifier from each table.\<close>

definition grow :: "('h, 'a, 'p) kernel \<Rightarrow> ('h, 'a, 'p) kernel \<Rightarrow> bool" where
  "grow k k' \<longleftrightarrow>
     unat (next_id (k_sessions k')) \<le> Suc (unat (next_id (k_sessions k))) \<and>
     unat (next_id (k_instances k')) \<le> Suc (unat (next_id (k_instances k)))"

definition grow_s :: "('h, 'a, 'p) kernel \<Rightarrow> ('h, 'a, 'p) kernel \<Rightarrow> bool" where
  "grow_s k k' \<longleftrightarrow>
     unat (next_id (k_sessions k')) \<le> Suc (unat (next_id (k_sessions k))) \<and>
     next_id (k_instances k') = next_id (k_instances k)"

lemma n_sess_le:
  assumes "tables_ok k"
  shows "n_sess k i \<le> 32"
proof -
  have "sessions_of k i \<subseteq> dom (sess k)" by (auto simp: sessions_of_def)
  then have "card (sessions_of k i) \<le> card (dom (sess k))"
    by (rule card_mono [OF ses.finite_dom])
  also have "\<dots> \<le> length (slots (k_sessions k))" by (rule ses.card_dom)
  finally show ?thesis using assms by (simp add: n_sess_def tables_ok_def MAX_SESSIONS_def)
qed

lemma finite_sessions_of: "finite (sessions_of k i)"
  by (rule finite_subset [OF _ ses.finite_dom]) (auto simp: sessions_of_def)

lemma kcore_sessions:
  assumes "kcore L D k" and "session_get t = sess k" and "tbl_ok s_id t"
    and "length (slots t) = MAX_SESSIONS"
  shows "kcore L D (k\<lparr>k_sessions := t\<rparr>)"
proof -
  have "n_sess (k\<lparr>k_sessions := t\<rparr>) = n_sess k"
    using assms(2) by (simp add: n_sess_def sessions_of_def fun_eq_iff)
  then have "inst_ok L D (k\<lparr>k_sessions := t\<rparr>) = inst_ok L D k"
    by (simp add: inst_ok_def fun_eq_iff)
  moreover have "sess_ok (k\<lparr>k_sessions := t\<rparr>) = sess_ok k"
    by (simp add: sess_ok_def fun_eq_iff split: session_kind.splits option.splits)
  moreover have "single_ok (k\<lparr>k_sessions := t\<rparr>) = single_ok k" "yield_ok (k\<lparr>k_sessions := t\<rparr>) = yield_ok k"
    by (simp_all add: single_ok_def yield_ok_def no_live_single_def split: option.splits yielding.splits)
  ultimately show ?thesis
    using assms by (simp add: kcore_def tables_ok_def)
qed

lemma unat_u16_inc: "unat c \<le> 32 \<Longrightarrow> unat (u16_inc c) = unat c + 1"
proof -
  assume c: "unat c \<le> 32"
  then have "c \<noteq> 0xffff" by auto
  with c show ?thesis by (simp add: u16_inc_def unat_word_ariths)
qed

lemma kcore_new_session:
  assumes k: "kcore (Some i) None k" and x: "inst k i = Some x"
    and may: "tp_multi_session (i_props x) \<or> i_session_count x = 0"
    and fresh: "sess k sid = None"
    and t: "session_get t = (sess k)(sid \<mapsto> s)" "tbl_ok s_id t" "length (slots t) = MAX_SESSIONS"
    and s: "s_kind s = UserTa" "s_instance s = Some i" "s_uuid s = i_uuid x" "s_state s = S_Ready"
  shows "kcore (Some i) None
           (k\<lparr>k_sessions := t,
              k_instances := instance_update (k_instances k) i
                (\<lambda>x. x\<lparr>i_session_count := u16_inc (i_session_count x)\<rparr>)\<rparr>)" (is "kcore _ _ ?k")
proof -
  have ok: "inst_ok (Some i) None k i x" using k x by (simp add: kcore_def)
  then have live: "i_state x = I_Live" "i_busy x" "unat (i_session_count x) = n_sess k i"
    by (auto simp: inst_ok_def)
  have "sessions_of ?k i = insert sid (sessions_of k i)" "sid \<notin> sessions_of k i"
    using fresh t(1) s(2) by (auto simp: sessions_of_def)
  then have n_i: "n_sess ?k i = n_sess k i + 1"
    using finite_sessions_of by (simp add: n_sess_def)
  have n_j: "n_sess ?k j = n_sess k j" if "j \<noteq> i" for j
    using that fresh t(1) s(2) by (auto simp: n_sess_def sessions_of_def intro!: arg_cong [of _ _ card])
  have inc: "unat (u16_inc (i_session_count x)) = n_sess k i + 1"
    using live(3) n_sess_le [of k i] k by (simp add: unat_u16_inc kcore_def)
  have "inst_ok (Some i) None ?k j y" if "inst ?k j = Some y" for j y
  proof (cases "j = i")
    case True
    with that x have y: "y = x\<lparr>i_session_count := u16_inc (i_session_count x)\<rparr>" by simp
    then show ?thesis
      using True live may ok inc n_i by (auto simp: inst_ok_def)
  next
    case False
    with that k have "inst_ok (Some i) None k j y" by (simp add: kcore_def)
    with n_j [OF False] show ?thesis by (simp add: inst_ok_def)
  qed
  moreover have "sess_ok ?k s'" if s': "sess ?k sid' = Some s'" for sid' s'
  proof (cases "sid' = sid")
    case True
    with s' t(1) have "s' = s" by simp
    with s x live(1) show ?thesis by (simp add: sess_ok_def)
  next
    case False
    with s' t(1) k have "sess_ok k s'" by (auto simp: kcore_def)
    then show ?thesis
      by (auto simp: sess_ok_def split: session_kind.splits option.splits if_splits)
  qed
  moreover have "\<exists>y'. inst k j = Some y' \<and> is_live_single u y'"
    if "inst ?k j = Some y" "is_live_single u y" for j y u
  proof (cases "j = i")
    case True
    with that x show ?thesis by (auto simp: is_live_single_def)
  next
    case False
    with that show ?thesis by simp
  qed
  from live_transfer [of ?k k, OF this] k have "single_ok ?k" "yield_ok ?k"
    by (simp_all add: kcore_def)
  ultimately show ?thesis
    using k t(2,3) x by (simp add: kcore_def tables_ok_def ins.update_ok)
qed

lemma add_session_core:
  assumes k: "kcore (Some i) None k" and x: "inst k i = Some x" and u: "u = i_uuid x"
    and may: "tp_multi_session (i_props x) \<or> i_session_count x = 0"
    and nw: "not_wrapped (k_sessions k)"
  shows "out_ok (\<lambda>k'. kcore (Some i) None k' \<and> grow_s k k' \<and>
            k_current_instance k' = k_current_instance k \<and> k_current_pta k' = k_current_pta k)
           (\<lambda>_. False) (add_session k i u login ctx ps)"
proof -
  define s where "s = \<lparr>s_id = 0, s_uuid = u, s_kind = UserTa, s_instance = Some i,
    s_ta_sess_ctx = ctx, s_state = S_Ready, s_client = login\<rparr>"
  obtain r t where alloc: "session_alloc (k_sessions k) s = (r, t)" by fastforce
  have tab: "tbl_ok s_id (k_sessions k)" "length (slots (k_sessions k)) = MAX_SESSIONS"
    using k by (auto simp: kcore_def tables_ok_def)
  have t: "tbl_ok s_id t" "length (slots t) = MAX_SESSIONS"
    using ses.alloc_ok [OF tab(1) nw alloc] ses.alloc_length [OF alloc] tab(2) by auto
  have nx: "unat (next_id t) = Suc (unat (next_id (k_sessions k)))"
    using ses.alloc_next [OF alloc] nw by (simp add: not_wrapped_def unat_bump)
  show ?thesis
  proof (cases r)
    case None
    with alloc have "session_get t = sess k" by (simp add: ses.alloc_none_get)
    then have "kcore (Some i) None (k\<lparr>k_sessions := t\<rparr>)" by (rule kcore_sessions [OF k _ t])
    with None alloc nx show ?thesis by (simp add: add_session_def Let_def grow_s_def flip: s_def)
  next
    case (Some sid)
    with alloc have get: "session_get t = (sess k)(sid \<mapsto> s\<lparr>s_id := sid\<rparr>)"
      by (simp add: ses.alloc_get [OF tab(1)])
    have "sess k sid = None"
      using ses.alloc_id [of "k_sessions k" s sid t] alloc Some ses.get_next [OF tab(1)] by simp
    from kcore_new_session [OF k x may this get t] u
    have "kcore (Some i) None
           (k\<lparr>k_sessions := t,
              k_instances := instance_update (k_instances k) i
                (\<lambda>x. x\<lparr>i_session_count := u16_inc (i_session_count x)\<rparr>)\<rparr>)"
      by (simp add: s_def)
    with Some alloc nx show ?thesis by (simp add: add_session_def Let_def grow_s_def flip: s_def)
  qed
qed

end
