(* ===== verification/Kernel_Step.thy ===== *)
theory Kernel_Step
  imports Kernel_Inv
begin

text \<open>
  Every kernel operation keeps the invariant: opening, invoking and closing sessions, completing a
  load, cancelling, and what \<open>on_panic\<close> makes of a trapped call. The step relation \<open>kstep\<close> is one
  command or one call of the boot code, and \<open>reach E n\<close> the states after \<open>n\<close> steps.
\<close>

section \<open>Opening\<close>

lemma sess_ok_instances: "k_instances k' = k_instances k \<Longrightarrow> sess_ok k' = sess_ok k"
  by (simp add: sess_ok_def fun_eq_iff split: session_kind.splits option.splits)

lemma kcore_eq:
  assumes "kcore L D k" and "k_sessions k' = k_sessions k" and "k_instances k' = k_instances k"
    and "yield_ok k'"
  shows "kcore L D k'"
proof -
  have "sess_ok k' = sess_ok k" by (rule sess_ok_instances [OF assms(3)])
  moreover have "inst_ok L D k' = inst_ok L D k" by (rule inst_ok_sessions [OF assms(2)])
  ultimately show ?thesis using assms by (simp add: kcore_def tables_ok_def single_ok_def)
qed

lemma frame_same_core: "frame k k' \<Longrightarrow> same_core k k'"
  by (simp add: frame_def)

lemma same_core_current [simp]:
  "same_core k (k\<lparr>k_current_instance := c\<rparr>)" "same_core k (k\<lparr>k_hal := h, k_current_instance := c\<rparr>)"
  "same_core k (k\<lparr>k_current_pta := b\<rparr>)"
  by (simp_all add: same_core_def)

lemma same_core_inst_fwd:
  assumes "same_core k k'" and "inst k i = Some x"
  obtains x' where "inst k' i = Some x'" "i_uuid x' = i_uuid x" "i_props x' = i_props x"
    "i_session_count x' = i_session_count x" "i_state x' = i_state x" "i_busy x' = i_busy x"
proof -
  obtain x' where "inst k' i = Some x'" "strip x' = strip x"
    using same_core_inst [OF same_core_sym [OF assms(1)] assms(2)] by blast
  with strip_fields [OF this(2)] that show ?thesis by blast
qed

lemma same_core_grow: "same_core k k' \<Longrightarrow> grow_s k' k'' \<Longrightarrow> grow_s k k''"
  by (simp add: same_core_def grow_s_def)

lemma same_core_grow_end: "grow_s k k' \<Longrightarrow> same_core k' k'' \<Longrightarrow> grow_s k k''"
  by (simp add: same_core_def grow_s_def)

lemma grow_s_refl [simp]: "grow_s k k"
  by (simp add: grow_s_def)

lemma same_core_nw: "same_core k k' \<Longrightarrow> not_wrapped (k_sessions k') = not_wrapped (k_sessions k)"
  by (simp add: same_core_def)

lemma bind_session_core:
  assumes k: "kcore (Some i) None k" and x: "inst k i = Some x" and u: "u = i_uuid x"
    and may: "tp_multi_session (i_props x) \<or> i_session_count x = 0"
    and nw: "not_wrapped (k_sessions k)" and q: "quiet k"
  shows "out_ok (\<lambda>k'. kcore (Some i) None k' \<and> grow_s k k' \<and> quiet k')
           (\<lambda>k'. kcore (Some i) None k' \<and> grow_s k k' \<and> k_current_instance k' = Some i)
           (bind_session E k i u login ps)"
proof (cases "instance_entries k i")
  case None
  with add_session_core [OF k x u may nw, of login 0 ps] q show ?thesis
    by (auto simp: bind_session_def quiet_def elim!: out_ok_mono)
next
  case (Some ep)
  obtain r k1 where m: "map_params E k i ps = (r, k1)" by fastforce
  then have f1: "frame k k1" "r \<noteq> Panic" using map_params_frame x by fastforce+
  then have c1: "same_core k k1" and q1: "quiet k1" using q by (auto simp: frame_def quiet_def)
  have core1: "kcore (Some i) None k1" using kcore_cong [OF c1 k] .
  show ?thesis
  proof (cases r)
    case (Err e)
    with Some m core1 q1 c1 show ?thesis
      by (auto simp: bind_session_def intro: same_core_grow)
  next
    case (Ok p)
    obtain raw vas where p: "p = (raw, vas)" by fastforce
    let ?k2 = "k1\<lparr>k_current_instance := Some i\<rparr>"
    have c2: "same_core k ?k2" using same_core_trans [OF c1] by simp
    show ?thesis
    proof (cases "ta_open E (ep_open_session ep) (param_types_of ps) raw 0 (k_hal k1)")
      case None
      with Some Ok p m kcore_cong [OF c2 k] c2 show ?thesis
        by (auto simp: bind_session_def Let_def intro: same_core_grow)
    next
      case opened: (Some res)
      obtain code raw' ctx h where res: "res = (code, raw', ctx, h)" by (cases res) auto
      let ?ps = "params_from_raw ps raw'"
      define k4 where "k4 = unmap_params E (k1\<lparr>k_hal := h, k_current_instance := None\<rparr>) i ?ps vas"
      have f4: "frame (k1\<lparr>k_hal := h, k_current_instance := None\<rparr>) k4"
        unfolding k4_def by (rule unmap_params_frame)
      have c4: "same_core k k4"
        using same_core_trans [OF same_core_trans [OF c1] frame_same_core [OF f4]]
        by (simp add: same_core_def)
      have q4: "quiet k4" using f4 q1 by (simp add: frame_def quiet_def)
      have core4: "kcore (Some i) None k4" using kcore_cong [OF c4 k] .
      obtain x4 where x4: "inst k4 i = Some x4" "i_uuid x4 = i_uuid x" "i_props x4 = i_props x"
        "i_session_count x4 = i_session_count x"
        using same_core_inst_fwd [OF c4 x] by blast
      have u4: "u = i_uuid x4" and may4: "tp_multi_session (i_props x4) \<or> i_session_count x4 = 0"
        and nw4: "not_wrapped (k_sessions k4)"
        using u may nw x4 same_core_nw [OF c4] by simp_all
      note add = add_session_core [OF core4 x4(1) u4 may4 nw4, of login ctx ?ps]
      have eq: "bind_session E k i u login ps =
          (if code \<noteq> TEE_SUCCESS then Ret (Done (TeeResult_ta code) None ?ps) k4
           else add_session k4 i u login ctx ?ps)"
        using Some Ok p m opened res by (simp add: bind_session_def Let_def k4_def)
      show ?thesis
      proof (cases "code = TEE_SUCCESS")
        case True
        with add q4 same_core_grow [OF c4] show ?thesis
          unfolding eq by (auto simp: quiet_def elim!: out_ok_mono)
      next
        case False
        with core4 q4 c4 show ?thesis unfolding eq by (auto intro: same_core_grow)
      qed
    qed
  qed (use f1 in auto)
qed

lemma inst_ok_other:
  "j \<noteq> i \<Longrightarrow> L = None \<or> L = Some i \<Longrightarrow> D = None \<or> D = Some i \<Longrightarrow>
   inst_ok L D k j y = inst_ok None None k j y"
  by (auto simp: inst_ok_def)

lemma kcore_remove:
  assumes k: "kcore L D k" and LD: "L = None \<or> L = Some i" "D = None \<or> D = Some i"
    and none: "n_sess k i = 0"
    and t: "instance_get t = (inst k)(i := None)" "tbl_ok i_id t" "length (slots t) = MAX_INSTANCES"
  shows "kcore None None (k\<lparr>k_instances := t\<rparr>)" (is "kcore _ _ ?k")
proof -
  have no: "sessions_of k i = {}" using none finite_sessions_of [of k i] by (simp add: n_sess_def)
  have "sess_ok ?k s" if s: "sess k sid = Some s" for sid s
  proof -
    have "s_instance s \<noteq> Some i" using no s by (auto simp: sessions_of_def)
    moreover have "sess_ok k s" using k s by (auto simp: kcore_def)
    ultimately show ?thesis
      using t(1) by (auto simp: sess_ok_def split: session_kind.splits option.splits)
  qed
  moreover have "inst_ok None None ?k j y" if y: "inst ?k j = Some y" for j y
  proof -
    have j: "j \<noteq> i" "inst k j = Some y" using y t(1) by (auto split: if_splits)
    with k have "inst_ok L D k j y" by (auto simp: kcore_def)
    with inst_ok_other [OF j(1) LD, of k y] inst_ok_sessions [of ?k k] show ?thesis by simp
  qed
  moreover have "single_ok ?k \<and> yield_ok ?k"
    using k t(1) by (intro live_transfer [of ?k k]) (auto simp: kcore_def split: if_splits)
  ultimately show ?thesis using k t(2,3) by (simp add: kcore_def tables_ok_def)
qed

lemma drop_instance_core:
  assumes "kcore None None k" and "n_sess k i = 0"
  shows "kcore None None (drop_instance i k)"
  unfolding drop_instance_def
  using assms ins.take_get [of "k_instances k" i] ins.take_ok [of "k_instances k" i]
  by (intro kcore_remove [of None None k i]) (auto simp: kcore_def tables_ok_def)

lemma no_session_of_missing:
  assumes "kcore L D k" and "inst k i = None"
  shows "n_sess k i = 0"
proof -
  have "s_instance s \<noteq> Some i" if "sess k sid = Some s" for sid s
  proof -
    have "sess_ok k s" using assms(1) that by (auto simp: kcore_def)
    with assms(2) show ?thesis
      by (auto simp: sess_ok_def split: session_kind.splits option.splits)
  qed
  then have "sessions_of k i = {}" by (auto simp: sessions_of_def)
  then show ?thesis by (simp add: n_sess_def)
qed

definition new_instance :: "uuid \<Rightarrow> ta_properties \<Rightarrow> ta_entry_points option \<Rightarrow> 'a \<Rightarrow> 'a ta_instance" where
  "new_instance u props entries a =
     \<lparr>i_id = 0, i_uuid = u, i_props = props, i_aspace = Some a, i_session_count = 0,
      i_state = I_Live, i_entries = entries, i_busy = False\<rparr>"

lemma kcore_new_instance:
  assumes k: "kcore None None k" and fresh: "inst k i = None"
    and t: "instance_get t = (inst k)(i \<mapsto> x)" "tbl_ok i_id t" "length (slots t) = MAX_INSTANCES"
    and x: "i_uuid x = u" "tp_uuid (i_props x) = u" "i_session_count x = 0" "i_state x = I_Live"
      "\<not> i_busy x"
    and ns: "no_live_single k u"
    and y: "\<And>v l p c tm. k_yielding k = Some (Y_LoadTa v l p c tm) \<Longrightarrow> v \<noteq> u"
  shows "kcore None None (k\<lparr>k_instances := t\<rparr>)" (is "kcore _ _ ?k")
proof -
  have n: "n_sess k i = 0" by (rule no_session_of_missing [OF k fresh])
  have ok: "inst_ok None None ?k = inst_ok None None k" by (rule inst_ok_sessions) simp
  have "sess_ok ?k s" if s: "sess k sid = Some s" for sid s
  proof -
    have "sess_ok k s" using k s by (auto simp: kcore_def)
    with fresh t(1) show ?thesis
      by (auto simp: sess_ok_def split: session_kind.splits option.splits)
  qed
  moreover have "inst_ok None None ?k j z" if z: "inst ?k j = Some z" for j z
  proof (cases "j = i")
    case True
    with z t(1) have "z = x" by simp
    with x n ok True show ?thesis by (simp add: inst_ok_def)
  next
    case False
    with z t(1) k ok show ?thesis by (auto simp: kcore_def)
  qed
  moreover have "single_ok ?k"
    using k t(1) ns x(1) unfolding single_ok_def no_live_single_def kcore_def
    by (auto simp: is_live_single_def split: if_splits)
  moreover have "yield_ok ?k"
    using k t(1) x(1) y
    by (auto simp: kcore_def yield_ok_def no_live_single_def is_live_single_def
        split: option.splits yielding.splits if_splits)
  ultimately show ?thesis using k t(2,3) by (simp add: kcore_def tables_ok_def)
qed

lemma kcore_instances:
  assumes "kcore None None k" and "instance_get t = inst k" and "tbl_ok i_id t"
    and "length (slots t) = MAX_INSTANCES"
  shows "kcore None None (k\<lparr>k_instances := t\<rparr>)"
proof -
  have "inst_ok None None (k\<lparr>k_instances := t\<rparr>) = inst_ok None None k"
    by (rule inst_ok_sessions) simp
  moreover have "sess_ok (k\<lparr>k_instances := t\<rparr>) = sess_ok k"
    using assms(2) by (simp add: sess_ok_def fun_eq_iff split: session_kind.splits option.splits)
  moreover have "single_ok (k\<lparr>k_instances := t\<rparr>) = single_ok k"
    "yield_ok (k\<lparr>k_instances := t\<rparr>) = yield_ok k"
    using assms(2)
    by (simp_all add: single_ok_def yield_ok_def no_live_single_def split: option.splits yielding.splits)
  ultimately show ?thesis using assms by (simp add: kcore_def tables_ok_def)
qed

text \<open>The outcome of every operation that starts from a quiet, consistent kernel.\<close>

definition op_ok :: "('h, 'a, 'p) kernel \<Rightarrow> ('h, 'a, 'p) kernel outcome \<Rightarrow> bool" where
  "op_ok k r \<longleftrightarrow> out_ok (\<lambda>k'. kinv k' \<and> grow k k') (\<lambda>k'. trap_ok k' \<and> grow k k') r"

lemma kinv_quiet: "kinv k \<longleftrightarrow> kcore None None k \<and> quiet k"
  by (simp add: kinv_def quiet_def)

lemma op_ok_Ret [simp]: "op_ok k (Ret out k') \<longleftrightarrow> kinv k' \<and> grow k k'"
  by (simp add: op_ok_def)

lemma unlock_quiet [simp]: "quiet (unlock_instance i k) = quiet k"
  by (simp add: unlock_instance_def quiet_def)

lemma unlock_grow [simp]: "grow k (unlock_instance i k') = grow k k'"
  by (simp add: unlock_instance_def grow_def)

lemma drop_quiet [simp]: "quiet (drop_instance i k) = quiet k"
  by (simp add: drop_instance_def quiet_def)

lemma drop_grow [simp]: "grow k (drop_instance i k') = grow k k'"
  by (simp add: drop_instance_def grow_def)

lemma unlock_n_sess [simp]: "n_sess (unlock_instance i k) = n_sess k"
  by (simp add: unlock_instance_def n_sess_def sessions_of_def fun_eq_iff)

lemma grow_s_grow: "grow_s k k' \<Longrightarrow> grow k k'"
  by (simp add: grow_s_def grow_def)

lemma grow_refl [simp]: "grow k k"
  by (simp add: grow_def)

lemma unlock_grow_s [simp]: "grow_s k (unlock_instance i k') = grow_s k k'"
  by (simp add: unlock_instance_def grow_s_def)

lemma bind_then_unlock:
  assumes "kcore (Some i) None k" and "inst k i = Some x" and "u = i_uuid x"
    and "tp_multi_session (i_props x) \<or> i_session_count x = 0"
    and "not_wrapped (k_sessions k)" and "quiet k"
  shows "out_ok (\<lambda>k'. kinv k' \<and> grow_s k k') (\<lambda>k'. trap_ok k' \<and> grow_s k k')
           (then_do (bind_session E k i u login ps) (unlock_instance i))"
  using bind_session_core [OF assms(1-6), of E login ps]
  by (auto simp: out_ok_then_do kinv_quiet trap_ok_def elim!: out_ok_mono intro: unlock_core)

lemma call_create_core:
  assumes "kcore (Some i) None k" and "quiet k" and "call_create E k i entries = (r, k')"
  shows "same_core k k' \<and> (r = None \<longrightarrow> k_current_instance k' = Some i) \<and> (r \<noteq> None \<longrightarrow> quiet k')"
  using assms by (auto simp: call_create_def Let_def quiet_def split: option.splits prod.splits)

lemma op_ok_grow:
  "out_ok (\<lambda>k'. kinv k' \<and> grow_s k1 k') (\<lambda>k'. trap_ok k' \<and> grow_s k1 k') r \<Longrightarrow>
   next_id (k_sessions k1) = next_id (k_sessions k) \<Longrightarrow>
   unat (next_id (k_instances k1)) \<le> Suc (unat (next_id (k_instances k))) \<Longrightarrow> op_ok k r"
  unfolding op_ok_def by (erule out_ok_mono) (auto simp: grow_def grow_s_def)

lemma instantiate_core:
  assumes k: "kcore None None k" and q: "quiet k" and ns: "no_live_single k u"
    and y: "\<And>v l p c tm. k_yielding k = Some (Y_LoadTa v l p c tm) \<Longrightarrow> v \<noteq> u"
    and nws: "not_wrapped (k_sessions k)" and nwi: "not_wrapped (k_instances k)"
  shows "op_ok k (instantiate_and_bind E k props u login ps entries aspace)"
proof (cases "tp_uuid props = u")
  case False
  with k q show ?thesis by (simp add: instantiate_and_bind_def kinv_quiet)
next
  case True
  obtain a k1 where a: "(case aspace of Some a \<Rightarrow> (a, k)
      | None \<Rightarrow> let (a, h) = hal_new_address_space (e_hal E) (k_hal k) in (a, k\<lparr>k_hal := h\<rparr>)) = (a, k1)"
    by fastforce
  then have f1: "frame k k1" by (auto split: option.splits prod.splits)
  have k1: "kcore None None k1" "quiet k1" "k_sessions k1 = k_sessions k"
    "next_id (k_instances k1) = next_id (k_instances k)" "k_yielding k1 = k_yielding k"
    using frame_core [OF f1 k] f1 q by (auto simp: frame_def quiet_def same_core_def)
  have ns1: "no_live_single k1 u"
    unfolding no_live_single_def
  proof (intro allI impI notI)
    fix i x assume "inst k1 i = Some x" "is_live_single u x"
    with same_core_inst [OF frame_same_core [OF f1]] obtain x' where
      "inst k i = Some x'" "strip x' = strip x" by blast
    with strip_fields [OF this(2)] \<open>is_live_single u x\<close> ns show False
      by (simp add: no_live_single_def is_live_single_def)
  qed
  define x where "x = new_instance u props entries a"
  obtain r t where alloc: "instance_alloc (k_instances k1) x = (r, t)" by fastforce
  have tab: "tbl_ok i_id (k_instances k1)" "length (slots (k_instances k1)) = MAX_INSTANCES"
    using k1(1) by (auto simp: kcore_def tables_ok_def)
  have nw1: "not_wrapped (k_instances k1)" using nwi k1(4) by (simp add: not_wrapped_def)
  have t: "tbl_ok i_id t" "length (slots t) = MAX_INSTANCES"
    using ins.alloc_ok [OF tab(1) nw1 alloc] ins.alloc_length [OF alloc] tab(2) by auto
  have nx: "unat (next_id t) = Suc (unat (next_id (k_instances k)))"
    using ins.alloc_next [OF alloc] nw1 k1(4) by (simp add: not_wrapped_def unat_bump)
  show ?thesis
  proof (cases r)
    case None
    with alloc have "instance_get t = inst k1" by (simp add: ins.alloc_none_get)
    then have "kcore None None (k1\<lparr>k_instances := t\<rparr>)" by (rule kcore_instances [OF k1(1) _ t])
    with None alloc nx True a k1 show ?thesis
      by (simp add: instantiate_and_bind_def kinv_quiet quiet_def grow_def x_def new_instance_def)
  next
    case (Some i)
    let ?k2 = "k1\<lparr>k_instances := t\<rparr>"
    from Some alloc have get: "instance_get t = (inst k1)(i \<mapsto> x\<lparr>i_id := i\<rparr>)"
      by (simp add: ins.alloc_get [OF tab(1)])
    have fresh: "inst k1 i = None"
      using ins.alloc_id [of "k_instances k1" x i t] alloc Some ins.get_next [OF tab(1)] by simp
    have y1: "\<And>v l p c tm. k_yielding k1 = Some (Y_LoadTa v l p c tm) \<Longrightarrow> v \<noteq> u"
      using y k1(5) by simp
    have k2: "kcore None None ?k2"
      using True
      by (intro kcore_new_instance [OF k1(1) fresh get t _ _ _ _ _ ns1 y1])
        (auto simp: x_def new_instance_def)
    from k2 show ?thesis
    proof (cases rule: lock_cases [of _ _ i])
      case (Live z k3)
      then have z: "z = x\<lparr>i_id := i\<rparr>" using get by simp
      obtain c k4 where c: "call_create E k3 i entries = (c, k4)" by fastforce
      have q3: "quiet k3" using Live(4) k1(2) by (simp add: quiet_def)
      note cc = call_create_core [OF Live(5) q3 c]
      have core4: "kcore (Some i) None k4" using cc kcore_cong Live(5) by blast
      have eq: "instantiate_and_bind E k props u login ps entries aspace =
          (case c of None \<Rightarrow> Trapped k4
           | Some code \<Rightarrow> if code \<noteq> TEE_SUCCESS
               then Ret (Done (TeeResult_ta code) None ps) (drop_instance i (unlock_instance i k4))
               else then_do (bind_session E k4 i u login ps) (unlock_instance i))"
        using True a alloc Some Live(3) c
        by (simp add: instantiate_and_bind_def x_def new_instance_def split: option.splits)
      have nx4: "k_sessions k4 = k_sessions k" "next_id (k_instances k4) = next_id t"
        using cc Live(4) k1(3) by (auto simp: same_core_def)
      have g4: "grow k k4" using nx4 nx by (simp add: grow_def)
      obtain x4 where x4: "inst k4 i = Some x4" "i_uuid x4 = u" "i_session_count x4 = 0"
        using same_core_inst_fwd [OF conjunct1 [OF cc] Live(6)] z
        by (auto simp: x_def new_instance_def)
      show ?thesis
      proof (cases c)
        case None
        with cc core4 g4 show ?thesis unfolding eq by (auto simp: op_ok_def trap_ok_def)
      next
        case (Some code)
        then have q4: "quiet k4" using cc by simp
        show ?thesis
        proof (cases "code = TEE_SUCCESS")
          case True
          have "not_wrapped (k_sessions k4)" using nws nx4 by simp
          with bind_then_unlock [OF core4 x4(1), of u E login ps] x4 q4
          have "out_ok (\<lambda>k'. kinv k' \<and> grow_s k4 k') (\<lambda>k'. trap_ok k' \<and> grow_s k4 k')
             (then_do (bind_session E k4 i u login ps) (unlock_instance i))" by simp
          with Some True show ?thesis
            unfolding eq using op_ok_grow nx4 nx by fastforce
        next
          case False
          have "n_sess k4 i = 0"
          proof -
            have "inst_ok (Some i) None k4 i x4" using core4 x4 by (auto simp: kcore_def)
            with x4 show ?thesis by (auto simp: inst_ok_def)
          qed
          then have "kcore None None (drop_instance i (unlock_instance i k4))"
            by (intro drop_instance_core unlock_core core4) simp
          with Some False q4 g4 show ?thesis unfolding eq by (simp add: kinv_quiet)
        qed
      qed
    qed (use get in \<open>auto simp: x_def new_instance_def\<close>)
  qed
qed

lemma kinv_live_single_None:
  assumes "live_single (k_instances k) u = None"
  shows "no_live_single k u"
  unfolding no_live_single_def using live_single_None [OF assms] by blast

lemma open_user_ta_core:
  assumes k: "kinv k" and nws: "not_wrapped (k_sessions k)" and nwi: "not_wrapped (k_instances k)"
  shows "op_ok k (open_user_ta E k u login ps cid tmo)"
proof -
  have core: "kcore None None k" and q: "quiet k" using k by (auto simp: kinv_quiet)
  have tab: "tbl_ok i_id (k_instances k)" using core by (simp add: kcore_def tables_ok_def)
  show ?thesis
  proof (cases "cancelled k cid")
    case True
    with k show ?thesis by (simp add: open_user_ta_def)
  next
    case not_cancelled: False
    show ?thesis
    proof (cases "live_single (k_instances k) u")
      case (Some i)
      then obtain x where x: "inst k i = Some x" "is_live_single u x"
        using live_single_Some [OF tab] by blast
      show ?thesis
      proof (cases "\<not> tp_multi_session (i_props x) \<and> i_session_count x > 0")
        case True
        with k not_cancelled Some x show ?thesis by (simp add: open_user_ta_def)
      next
        case False
        then have may: "tp_multi_session (i_props x) \<or> i_session_count x = 0"
          by (auto simp: word_gt_0)
        from core show ?thesis
        proof (cases rule: lock_cases [of _ _ i])
          case (Live z k')
          with x have z: "z = x" by simp
          have ses: "k_sessions k' = k_sessions k" "next_id (k_instances k') = next_id (k_instances k)"
            "quiet k'" using Live(4) q by (simp_all add: quiet_def)
          have "out_ok (\<lambda>k''. kinv k'' \<and> grow_s k' k'') (\<lambda>k''. trap_ok k'' \<and> grow_s k' k'')
             (then_do (bind_session E k' i u login ps) (unlock_instance i))"
            using Live(5,6) z x may nws ses
            by (intro bind_then_unlock [where x = "x\<lparr>i_busy := True\<rparr>"]) (auto simp: is_live_single_def)
          then have "op_ok k (then_do (bind_session E k' i u login ps) (unlock_instance i))"
            using op_ok_grow ses by fastforce
          with not_cancelled Some x False Live(3) show ?thesis by (auto simp: open_user_ta_def)
        qed (use x not_cancelled Some False k in \<open>auto simp: open_user_ta_def is_live_single_def\<close>)
      qed
    next
      case None
      then have ns: "no_live_single k u" by (rule kinv_live_single_None)
      show ?thesis
      proof (cases "early_get (k_early k) u")
        case (Some early)
        have "v \<noteq> u" if "k_yielding k = Some (Y_LoadTa v l p c tm)" for v l p c tm
          using core Some that by (auto simp: kcore_def yield_ok_def)
        with instantiate_core [OF core q ns _ nws nwi] None Some not_cancelled show ?thesis
          by (simp add: open_user_ta_def)
      next
        case early: None
        have "yield_ok (k\<lparr>k_yielding := Some (Y_LoadTa u login ps cid tmo)\<rparr>)"
          using early ns by (simp add: yield_ok_def no_live_single_def)
        then have "kinv (k\<lparr>k_yielding := Some (Y_LoadTa u login ps cid tmo)\<rparr>)"
          using core q by (auto simp: kinv_quiet quiet_def intro: kcore_eq)
        with None early not_cancelled k show ?thesis
          by (auto simp: open_user_ta_def grow_def)
      qed
    qed
  qed
qed

lemma kinv_ptas [simp]: "kinv (k\<lparr>k_ptas := p\<rparr>) = kinv k"
proof -
  have "same_core k (k\<lparr>k_ptas := p\<rparr>)" by (simp add: same_core_def)
  from kcore_cong [OF this] kcore_cong [OF same_core_sym [OF this]] show ?thesis
    by (auto simp: kinv_def)
qed

lemma kcore_pta_session:
  assumes k: "kcore None None k" and fresh: "sess k sid = None"
    and t: "session_get t = (sess k)(sid \<mapsto> s)" "tbl_ok s_id t" "length (slots t) = MAX_SESSIONS"
    and s: "s_kind s = Pta" "s_instance s = None" "s_state s = S_Ready"
  shows "kcore None None (k\<lparr>k_sessions := t\<rparr>)" (is "kcore _ _ ?k")
proof -
  have "sessions_of ?k i = sessions_of k i" for i
    using fresh t(1) s(2) by (auto simp: sessions_of_def)
  then have "inst_ok None None ?k = inst_ok None None k"
    by (simp add: inst_ok_def n_sess_def fun_eq_iff)
  moreover have "sess_ok ?k = sess_ok k"
    by (simp add: sess_ok_def fun_eq_iff split: session_kind.splits option.splits)
  moreover have "sess_ok k s" using s by (simp add: sess_ok_def)
  ultimately show ?thesis
    using k t by (auto simp: kcore_def tables_ok_def single_ok_def yield_ok_def no_live_single_def
        split: option.splits yielding.splits)
qed

lemma alloc_pta_session:
  assumes k: "kinv k" and nws: "not_wrapped (k_sessions k)"
    and s: "s_kind s = Pta" "s_instance s = None" "s_state s = S_Ready"
    and alloc: "session_alloc (k_sessions k) s = (r, t)"
  shows "kinv (k\<lparr>k_sessions := t\<rparr>) \<and> grow k (k\<lparr>k_sessions := t\<rparr>)"
proof -
  have core: "kcore None None k" using k by (simp add: kinv_def)
  have tab: "tbl_ok s_id (k_sessions k)" "length (slots (k_sessions k)) = MAX_SESSIONS"
    using core by (auto simp: kcore_def tables_ok_def)
  have t: "tbl_ok s_id t" "length (slots t) = MAX_SESSIONS"
    using ses.alloc_ok [OF tab(1) nws alloc] ses.alloc_length [OF alloc] tab(2) by auto
  have "kcore None None (k\<lparr>k_sessions := t\<rparr>)"
  proof (cases r)
    case None
    with alloc have "session_get t = sess k" by (simp add: ses.alloc_none_get)
    then show ?thesis by (rule kcore_sessions [OF core _ t])
  next
    case (Some sid)
    with alloc have get: "session_get t = (sess k)(sid \<mapsto> s\<lparr>s_id := sid\<rparr>)"
      by (simp add: ses.alloc_get [OF tab(1)])
    have "sess k sid = None"
      using ses.alloc_id [of "k_sessions k" s sid t] alloc Some ses.get_next [OF tab(1)] by simp
    from kcore_pta_session [OF core this get t] s show ?thesis by simp
  qed
  then show ?thesis
    using k ses.alloc_next [OF alloc] nws by (simp add: kinv_def grow_def not_wrapped_def unat_bump)
qed

lemma open_session_core:
  assumes k: "kinv k" and nws: "not_wrapped (k_sessions k)" and nwi: "not_wrapped (k_instances k)"
  shows "op_ok k (open_session E k u login ps cid tmo)"
proof (cases "cancelled k cid")
  case True
  with k show ?thesis by (simp add: open_session_def)
next
  case False
  show ?thesis
  proof (cases "pta_get_mut E (k_ptas k) u")
    case None
    with False open_user_ta_core [OF assms] show ?thesis by (simp add: open_session_def)
  next
    case (Some p)
    have "op_ok k (open_pta E k p u login ps)"
    proof (cases "pta_open E (k_ptas k ! p) ps")
      case None
      with k show ?thesis by (simp add: open_pta_def op_ok_def trap_ok_def)
    next
      case (Some res)
      obtain r ps' pta where res: "res = (r, ps', pta)" by (cases res) auto
      let ?k = "k\<lparr>k_ptas := (k_ptas k)[p := pta]\<rparr>"
      show ?thesis
      proof (cases r)
        case (Inl e)
        with Some res k show ?thesis by (simp add: open_pta_def grow_def)
      next
        case (Inr ctx)
        define s where "s = \<lparr>s_id = 0, s_uuid = u, s_kind = Pta, s_instance = None,
                           s_ta_sess_ctx = ctx, s_state = S_Ready, s_client = login\<rparr>"
        obtain sid t where alloc: "session_alloc (k_sessions ?k) s = (sid, t)" by fastforce
        have "kinv (?k\<lparr>k_sessions := t\<rparr>) \<and> grow ?k (?k\<lparr>k_sessions := t\<rparr>)"
          using k nws by (intro alloc_pta_session [OF _ _ _ _ _ alloc]) (auto simp: s_def)
        then show ?thesis
          using Some res Inr alloc
          by (cases sid) (simp_all add: open_pta_def grow_def flip: s_def)
      qed
    qed
    with Some False show ?thesis by (simp add: open_session_def)
  qed
qed

section \<open>Invoking\<close>

lemma invoke_user_ta_core:
  assumes k: "kinv k"
  shows "op_ok k (invoke_user_ta E k sid s cmd ps)"
proof (cases "s_instance s")
  case None
  with k show ?thesis by (simp add: invoke_user_ta_def)
next
  case (Some i)
  have core: "kcore None None k" and q: "quiet k" using k by (auto simp: kinv_quiet)
  from core show ?thesis
  proof (cases rule: lock_cases [of _ _ i])
    case (Live x k1)
    let ?k2 = "k1\<lparr>k_current_instance := Some i\<rparr>"
    have core2: "kcore (Some i) None ?k2" using kcore_cong [OF _ Live(5)] by simp
    have x2: "inst ?k2 i \<noteq> None" using Live(6) by simp
    obtain r k3 where m: "map_params E ?k2 i ps = (r, k3)" by fastforce
    then have f: "frame ?k2 k3" "r \<noteq> Panic" using map_params_frame x2 by blast+
    have fin: "kinv (unlock_instance i (k'\<lparr>k_current_instance := None\<rparr>)) \<and>
               grow k (unlock_instance i (k'\<lparr>k_current_instance := None\<rparr>))"
      if f': "frame ?k2 k'" for k'
    proof -
      have "kcore (Some i) None k'" by (rule frame_core [OF f' core2])
      then have "kcore (Some i) None (k'\<lparr>k_current_instance := None\<rparr>)"
        by (rule kcore_cong [rotated]) simp
      moreover have "quiet (k'\<lparr>k_current_instance := None\<rparr>)"
        using f' Live(4) q by (simp add: frame_def quiet_def)
      moreover have "grow k (k'\<lparr>k_current_instance := None\<rparr>)"
        using f' Live(4) by (simp add: frame_def same_core_def grow_def)
      ultimately show ?thesis by (simp add: kinv_quiet unlock_core)
    qed
    have trap: "trap_ok k' \<and> grow k k'" if f': "frame ?k2 k'" for k'
      using frame_core [OF f' core2] f' Live(4)
      by (auto simp: trap_ok_def frame_def grow_def same_core_def)
    have "out_ok (frame ?k2) (frame ?k2)
       (case r of Err e \<Rightarrow> Ret (done_err e) k3 | Panic \<Rightarrow> Crash
        | Ok (raw, vas) \<Rightarrow> call_invoke E k3 i sid s cmd ps raw vas)"
    proof (cases r)
      case (Ok p)
      obtain raw vas where p: "p = (raw, vas)" by fastforce
      have "frame ?k2 (unmap_params E (k3\<lparr>k_hal := h\<rparr>) i ps' vas)" for h ps'
        using frame_trans [OF frame_trans [OF f(1) frame_hal] unmap_params_frame] .
      then have "out_ok (frame ?k2) (frame ?k2) (call_invoke E k3 i sid s cmd ps raw vas)"
        using f(1) by (auto simp: call_invoke_def Let_def split: option.splits prod.splits)
      with Ok p show ?thesis by simp
    qed (use f in auto)
    then have "op_ok k (then_do
       (case r of Err e \<Rightarrow> Ret (done_err e) k3 | Panic \<Rightarrow> Crash
        | Ok (raw, vas) \<Rightarrow> call_invoke E k3 i sid s cmd ps raw vas)
       (\<lambda>k. unlock_instance i (k\<lparr>k_current_instance := None\<rparr>)))"
      unfolding op_ok_def out_ok_then_do by (rule out_ok_mono) (use fin trap in blast)+
    with Some Live(3) m show ?thesis
      by (simp add: invoke_user_ta_def Let_def split: res.splits)
  qed (use Some k in \<open>auto simp: invoke_user_ta_def\<close>)
qed

lemma invoke_core:
  assumes k: "kinv k"
  shows "op_ok k (invoke E k sid cmd ps cid)"
proof -
  have "op_ok k (invoke_pta E k sid s cmd ps)" for s
  proof -
    have "kinv (k\<lparr>k_ptas := p, k_current_pta := False\<rparr>)" for p
    proof -
      have "k\<lparr>k_ptas := p, k_current_pta := False\<rparr> = k\<lparr>k_ptas := p\<rparr>" using k by (simp add: kinv_def)
      with k show ?thesis by simp
    qed
    then show ?thesis
      using k by (auto simp: invoke_pta_def op_ok_def trap_ok_def grow_def Let_def
          split: option.splits prod.splits)
  qed
  with k invoke_user_ta_core [OF k] show ?thesis
    by (auto simp: invoke_def split: option.splits session_kind.splits)
qed

section \<open>Closing\<close>

lemma kcore_take_session:
  assumes k: "kcore None None k" and s: "sess k sid = Some s"
  shows "kcore None (s_instance s) (k\<lparr>k_sessions := snd (session_take (k_sessions k) sid)\<rparr>)"
    (is "kcore _ _ ?k")
proof -
  have tab: "tbl_ok s_id (k_sessions k)" using k by (simp add: kcore_def tables_ok_def)
  have get: "sess ?k = (sess k)(sid := None)" by (simp add: ses.take_get [OF tab])
  have n: "n_sess k j = n_sess ?k j + (if s_instance s = Some j then 1 else 0)" for j
  proof (cases "s_instance s = Some j")
    case True
    then have "sessions_of k j = insert sid (sessions_of ?k j)" "sid \<notin> sessions_of ?k j"
      using s unfolding sessions_of_def get by auto
    with True finite_sessions_of [of ?k j] show ?thesis by (simp add: n_sess_def)
  next
    case False
    then have "sessions_of k j = sessions_of ?k j"
      using s unfolding sessions_of_def get by auto
    with False show ?thesis by (simp add: n_sess_def)
  qed
  have "inst_ok None (s_instance s) ?k j y" if "inst ?k j = Some y" for j y
  proof -
    have "inst_ok None None k j y" using k that by (auto simp: kcore_def)
    with n [of j] show ?thesis by (auto simp: inst_ok_def)
  qed
  moreover have "sess_ok ?k s'" if s': "sess ?k sid' = Some s'" for sid' s'
  proof -
    have "sess k sid' = Some s'" using s' unfolding get by (auto split: if_splits)
    with k have "sess_ok k s'" by (auto simp: kcore_def)
    with sess_ok_instances [of ?k k] show ?thesis by simp
  qed
  moreover have "single_ok ?k" "yield_ok ?k"
    using k by (auto simp: kcore_def single_ok_def yield_ok_def no_live_single_def
        split: option.splits yielding.splits)
  ultimately show ?thesis
    using k ses.take_ok [OF tab, of sid] by (simp add: kcore_def tables_ok_def)
qed

lemma unat_u16_dec: "0 < unat c \<Longrightarrow> unat (u16_dec c) = unat c - 1"
proof -
  assume c: "0 < unat c"
  then have "c \<noteq> 0" by auto
  with c show ?thesis by (simp add: u16_dec_def unat_minus_one)
qed

lemma kinv_D:
  assumes "kcore None (Some i) k" and "inst k i = Some x \<Longrightarrow> i_state x = I_Dead" and "inst k i = Some x"
  shows "kcore None None k"
proof -
  have "inst_ok None None k j y" if "inst k j = Some y" for j y
  proof -
    have "inst_ok None (Some i) k j y" using assms(1) that by (auto simp: kcore_def)
    with assms that show ?thesis by (cases "j = i") (auto simp: inst_ok_def)
  qed
  with assms(1) show ?thesis by (simp add: kcore_def)
qed

lemma call_destroy_core:
  "call_destroy E k i = Inl k' \<Longrightarrow> same_core k k' \<and> k_current_instance k' = Some i"
  "call_destroy E k i = Inr k' \<Longrightarrow> quiet k \<Longrightarrow> same_core k k' \<and> quiet k'"
  by (auto simp: call_destroy_def Let_def quiet_def split: option.splits)

lemma call_close_core:
  "call_close E k i ctx = Inl k' \<Longrightarrow> same_core k k' \<and> k_current_instance k' = Some i"
  "call_close E k i ctx = Inr k' \<Longrightarrow> quiet k \<Longrightarrow> same_core k k' \<and> quiet k'"
  by (auto simp: call_close_def Let_def quiet_def split: option.splits)

lemma release_core:
  assumes k: "kcore (Some i) (Some i) k" and q: "quiet k"
  shows "op_ok k (release_instance E k i)"
proof -
  obtain x where x: "inst k i = Some x" using k by (auto simp: kcore_def)
  with k have ok: "inst_ok (Some i) (Some i) k i x" by (simp add: kcore_def)
  then have cnt: "unat (i_session_count x) = n_sess k i + 1" by (auto simp: inst_ok_def)
  then have dec: "unat (u16_dec (i_session_count x)) = n_sess k i" by (simp add: unat_u16_dec)
  define k1 where "k1 = k\<lparr>k_instances := instance_update (k_instances k) i
                (\<lambda>x. x\<lparr>i_session_count := u16_dec (i_session_count x)\<rparr>)\<rparr>"
  have core1: "kcore (Some i) None k1"
    unfolding k1_def using ok dec cnt
    by (intro kcore_update [OF k x]) (auto simp: inst_ok_def)
  have q1: "quiet k1" and g1: "grow k k1" and n1: "n_sess k1 i = n_sess k i"
    using q by (simp_all add: k1_def quiet_def grow_def n_sess_def sessions_of_def)
  have x1: "inst k1 i = Some (x\<lparr>i_session_count := u16_dec (i_session_count x)\<rparr>)"
    using x by (simp add: k1_def)
  show ?thesis
  proof (cases "u16_dec (i_session_count x) = 0 \<and> \<not> tp_instance_keep_alive (i_props x)")
    case False
    with x1 core1 q1 g1 show ?thesis
      by (auto simp: release_instance_def Let_def kinv_quiet unlock_core simp flip: k1_def)
  next
    case True
    then have none: "n_sess k1 i = 0" using dec n1 by simp
    show ?thesis
    proof (cases "call_destroy E k1 i")
      case (Inl k2)
      with call_destroy_core(1) [OF this] kcore_cong [OF _ core1] g1 True x1 show ?thesis
        by (auto simp: release_instance_def Let_def op_ok_def trap_ok_def grow_def same_core_def
            simp flip: k1_def)
    next
      case (Inr k2)
      with call_destroy_core(2) [OF this q1] have c2: "same_core k1 k2" "quiet k2" by auto
      define k3 where "k3 = k2\<lparr>k_instances := instance_update (k_instances k2) i kill_instance\<rparr>"
      have core2: "kcore (Some i) None k2" using kcore_cong [OF c2(1) core1] .
      have kid: "\<And>x :: 'b ta_instance. i_id (kill_instance x) = i_id x" by (simp add: kill_instance_def)
      have get: "instance_get (snd (instance_drop_id (k_instances k3) i)) = (inst k2)(i := None)"
      proof -
        have "tbl_ok i_id (k_instances k3)"
          using core2 kid by (simp add: k3_def kcore_def tables_ok_def ins.update_ok)
        from ins.take_get [OF this, of i] show ?thesis using kid by (auto simp: k3_def fun_eq_iff)
      qed
      have tb: "tbl_ok i_id (snd (instance_drop_id (k_instances k3) i))"
        "length (slots (snd (instance_drop_id (k_instances k3) i))) = MAX_INSTANCES"
        using core2 kid
        by (simp_all add: k3_def kcore_def tables_ok_def ins.update_ok ins.take_ok)
      have "n_sess k2 i = 0" using none same_core_n_sess [OF c2(1)] by simp
      then have "kcore None None (k2\<lparr>k_instances := snd (instance_drop_id (k_instances k3) i)\<rparr>)"
        by (intro kcore_remove [OF core2 _ _ _ get tb]) auto
      moreover have "drop_instance i k3 = k2\<lparr>k_instances := snd (instance_drop_id (k_instances k3) i)\<rparr>"
        by (simp add: drop_instance_def k3_def)
      ultimately have "kinv (drop_instance i k3)" "grow k (drop_instance i k3)"
        using c2 g1 by (auto simp: kinv_quiet quiet_def k3_def grow_def same_core_def)
      with Inr True x1 show ?thesis
        by (simp add: release_instance_def Let_def flip: k1_def k3_def)
    qed
  qed
qed

lemma op_ok_trans:
  assumes "op_ok k1 r" and "next_id (k_sessions k1) = next_id (k_sessions k)"
    and "next_id (k_instances k1) = next_id (k_instances k)"
  shows "op_ok k r"
  using assms unfolding op_ok_def by (elim out_ok_mono) (auto simp: grow_def)

lemma close_user_ta_core:
  assumes k: "kcore None (s_instance s) k" and q: "quiet k"
  shows "op_ok k (close_user_ta E k s)"
proof (cases "s_instance s")
  case None
  with k q show ?thesis by (simp add: close_user_ta_def kinv_quiet)
next
  case (Some i)
  with k have core: "kcore None (Some i) k" by simp
  from core show ?thesis
  proof (cases rule: lock_cases [of _ _ i])
    case Missing
    have "inst_ok None None k j y" if y: "inst k j = Some y" for j y
    proof -
      have "j \<noteq> i" using y Missing(1) by auto
      moreover have "inst_ok None (Some i) k j y" using core y by (simp add: kcore_def)
      ultimately show ?thesis using inst_ok_other [of j i None "Some i" k y] by simp
    qed
    with core have "kcore None None k" by (simp add: kcore_def)
    with Some Missing q show ?thesis by (simp add: close_user_ta_def kinv_quiet)
  next
    case (Dead x)
    with Some q kinv_D [OF core] show ?thesis by (simp add: close_user_ta_def kinv_quiet)
  next
    case (Live x k1)
    have q1: "quiet k1" using Live(4) q by (simp add: quiet_def)
    have nx: "next_id (k_sessions k1) = next_id (k_sessions k)"
      "next_id (k_instances k1) = next_id (k_instances k)" using Live(4) by simp_all
    have "op_ok k1 (case call_close E k1 i (s_ta_sess_ctx s) of
        Inl k \<Rightarrow> Trapped k | Inr k \<Rightarrow> release_instance E k i)"
    proof (cases "call_close E k1 i (s_ta_sess_ctx s)")
      case (Inl k2)
      with call_close_core(1) [OF this] kcore_cong [OF _ Live(5)] show ?thesis
        by (auto simp: op_ok_def trap_ok_def grow_def same_core_def)
    next
      case (Inr k2)
      with call_close_core(2) [OF this q1] have c2: "same_core k1 k2" "quiet k2" by auto
      have "op_ok k2 (release_instance E k2 i)"
        using kcore_cong [OF c2(1) Live(5)] c2(2) by (rule release_core)
      then have "op_ok k1 (release_instance E k2 i)"
        by (rule op_ok_trans) (use c2(1) in \<open>simp_all add: same_core_def\<close>)
      with Inr show ?thesis by simp
    qed
    from op_ok_trans [OF this nx] Some Live(3) show ?thesis by (simp add: close_user_ta_def)
  qed
qed

lemma close_session_core:
  assumes k: "kinv k"
  shows "op_ok k (close_session E k sid)"
proof -
  have core: "kcore None None k" and q: "quiet k" using k by (auto simp: kinv_quiet)
  let ?k = "k\<lparr>k_sessions := snd (session_take (k_sessions k) sid)\<rparr>"
  have tab: "tbl_ok s_id (k_sessions k)" using core by (simp add: kcore_def tables_ok_def)
  obtain r t where take: "session_take (k_sessions k) sid = (r, t)" by fastforce
  then have r: "r = sess k sid" and t: "?k = k\<lparr>k_sessions := t\<rparr>"
    using ses.take_fst [of "k_sessions k" sid] by auto
  have nx: "next_id t = next_id (k_sessions k)" using take ses.take_next [of "k_sessions k" sid] by simp
  show ?thesis
  proof (cases r)
    case None
    have "session_get t = sess k"
      using ses.take_get [OF tab, of sid] take None r by (auto simp: fun_eq_iff)
    moreover have "tbl_ok s_id t" "length (slots t) = MAX_SESSIONS"
      using ses.take_ok [OF tab, of sid] ses.take_length [of "k_sessions k" sid] take core
      by (auto simp: kcore_def tables_ok_def)
    ultimately have "kcore None None (k\<lparr>k_sessions := t\<rparr>)" by (rule kcore_sessions [OF core])
    with None take q nx show ?thesis
      by (simp add: close_session_def kinv_quiet quiet_def grow_def)
  next
    case (Some s)
    with r have s: "sess k sid = Some s" by simp
    have core': "kcore None (s_instance s) (k\<lparr>k_sessions := t\<rparr>)"
      using kcore_take_session [OF core s] unfolding t .
    have q': "quiet (k\<lparr>k_sessions := t\<rparr>)" using q by (simp add: quiet_def)
    have "op_ok (k\<lparr>k_sessions := t\<rparr>)
       (case s_kind s of Pta \<Rightarrow> close_pta E (k\<lparr>k_sessions := t\<rparr>) s
        | UserTa \<Rightarrow> close_user_ta E (k\<lparr>k_sessions := t\<rparr>) s)"
    proof (cases "s_kind s")
      case UserTa
      with close_user_ta_core [OF core' q'] show ?thesis by simp
    next
      case Pta
      have "sess_ok k s" using core s by (auto simp: kcore_def)
      with Pta have "s_instance s = None" by (simp add: sess_ok_def)
      with core' q' have kk: "kinv (k\<lparr>k_sessions := t\<rparr>)" by (simp add: kinv_quiet)
      have "kinv (k\<lparr>k_ptas := p, k_sessions := t\<rparr>)" for p
      proof -
        have "k\<lparr>k_ptas := p, k_sessions := t\<rparr> = (k\<lparr>k_sessions := t\<rparr>)\<lparr>k_ptas := p\<rparr>" by simp
        with kk show ?thesis by (simp only: kinv_ptas)
      qed
      with Pta kk show ?thesis
        by (auto simp: close_pta_def op_ok_def trap_ok_def grow_def split: option.splits)
    qed
    then have "op_ok k
       (case s_kind s of Pta \<Rightarrow> close_pta E (k\<lparr>k_sessions := t\<rparr>) s
        | UserTa \<Rightarrow> close_user_ta E (k\<lparr>k_sessions := t\<rparr>) s)"
      by (rule op_ok_trans) (simp_all add: nx)
    with Some take show ?thesis by (simp add: close_session_def Let_def)
  qed
qed

section \<open>Loading, panicking and the dispatcher\<close>

lemma kinv_yield:
  assumes "kinv k"
  shows "kinv (k\<lparr>k_yielding := None\<rparr>)"
  using assms kcore_eq [of None None k "k\<lparr>k_yielding := None\<rparr>"]
  by (simp add: kinv_def yield_ok_def)

text \<open>The parsers are the only kernel code that may crash, and only on the bytes the REE supplied.\<close>

definition load_parses :: "('h, 'a, 's, 'p) env \<Rightarrow> ('h, 'a, 'p) kernel \<Rightarrow> bytes \<Rightarrow> bool" where
  "load_parses E k b \<longleftrightarrow>
     load_image (e_crypto E) (e_pubkey E) b \<noteq> Panic \<and>
     fst (map_elf (e_hal E) (fst (hal_new_address_space (e_hal E) (k_hal k))) b) \<noteq> Panic"

lemma load_ta_core:
  assumes k: "kinv k" and ns: "no_live_single k u" and y: "k_yielding k = None"
    and nws: "not_wrapped (k_sessions k)" and nwi: "not_wrapped (k_instances k)"
  shows "load_ta E k u login ps b = Crash \<and> \<not> load_parses E k b \<or> op_ok k (load_ta E k u login ps b)"
proof (cases "load_image (e_crypto E) (e_pubkey E) b")
  case (Ok l)
  show ?thesis
  proof (cases "tp_uuid (ld_props l) = u")
    case False
    with Ok k show ?thesis by (simp add: load_ta_def)
  next
    case True
    obtain a h where a: "hal_new_address_space (e_hal E) (k_hal k) = (a, h)" by fastforce
    obtain r a' where m: "map_elf (e_hal E) a b = (r, a')" by fastforce
    let ?k = "k\<lparr>k_hal := h\<rparr>"
    have core: "kcore None None ?k" using k frame_core [of k ?k] by (simp add: kinv_def)
    have q: "quiet ?k" using k by (simp add: kinv_quiet quiet_def)
    have ns': "no_live_single ?k u" using ns by (simp add: no_live_single_def)
    show ?thesis
    proof (cases r)
      case (Ok e)
      have "op_ok ?k (instantiate_and_bind E ?k (ld_props l) u login ps e (Some a'))"
        using y nws nwi by (intro instantiate_core [OF core q ns']) auto
      then have "op_ok k (instantiate_and_bind E ?k (ld_props l) u login ps e (Some a'))"
        by (rule op_ok_trans) simp_all
      with \<open>load_image (e_crypto E) (e_pubkey E) b = Ok l\<close> True a m Ok show ?thesis
        by (simp add: load_ta_def)
    next
      case (Err c)
      with \<open>load_image (e_crypto E) (e_pubkey E) b = Ok l\<close> True a m core q show ?thesis
        by (simp add: load_ta_def kinv_quiet grow_def)
    next
      case Panic
      with \<open>load_image (e_crypto E) (e_pubkey E) b = Ok l\<close> True a m show ?thesis
        by (simp add: load_ta_def load_parses_def)
    qed
  qed
next
  case (Err c)
  with k show ?thesis by (simp add: load_ta_def)
next
  case Panic
  then show ?thesis by (simp add: load_ta_def load_parses_def)
qed

definition cmd_parses :: "('h, 'a, 's, 'p) env \<Rightarrow> ('h, 'a, 'p) kernel \<Rightarrow> kernel_cmd \<Rightarrow> bool" where
  "cmd_parses E k cmd \<longleftrightarrow>
     (case cmd of RpcComplete (Resp_LoadTa b) \<Rightarrow> load_parses E k b | _ \<Rightarrow> True)"

lemma handle_core:
  assumes k: "kinv k" and nws: "not_wrapped (k_sessions k)" and nwi: "not_wrapped (k_instances k)"
  shows "handle E k cmd = Crash \<and> \<not> cmd_parses E k cmd \<or> op_ok k (handle E k cmd)"
proof (cases "k_notices_ok k")
  case False
  with k show ?thesis by (simp add: handle_def)
next
  case True
  show ?thesis
  proof (cases cmd)
    case (OpenSession u login ps cid tmo)
    with True show ?thesis by (simp add: handle_def open_session_core [OF assms])
  next
    case (Invoke sid c ps cid tmo)
    with True show ?thesis by (simp add: handle_def invoke_core [OF k])
  next
    case (CloseSession sid)
    with True show ?thesis by (simp add: handle_def close_session_core [OF k])
  next
    case (Cancel c)
    have "yield_ok (k\<lparr>k_cancelled := cs\<rparr>)" for cs
      using k by (auto simp: kinv_def kcore_def yield_ok_def no_live_single_def
          split: option.splits yielding.splits)
    then have "kcore None None (k\<lparr>k_cancelled := cs\<rparr>)" for cs
      using k by (auto simp: kinv_def intro: kcore_eq)
    with True Cancel k show ?thesis by (simp add: handle_def kinv_def grow_def)
  next
    case (RpcComplete resp)
    have "rpc_complete E k resp = Crash \<and> \<not> cmd_parses E k cmd \<or> op_ok k (rpc_complete E k resp)"
    proof (cases "k_yielding k")
      case None
      with k show ?thesis by (simp add: rpc_complete_def)
    next
      case (Some yl)
      obtain u login ps cid tmo where y: "yl = Y_LoadTa u login ps cid tmo" by (cases yl) auto
      let ?k = "k\<lparr>k_yielding := None\<rparr>"
      have kk: "kinv ?k" by (rule kinv_yield [OF k])
      have ns: "no_live_single ?k u"
        using k Some y by (auto simp: kinv_def kcore_def yield_ok_def no_live_single_def)
      note load = load_ta_core [OF kk ns, of E login ps]
      have "load_ta E ?k u login ps b = Crash \<and> \<not> load_parses E ?k b \<or> op_ok k (load_ta E ?k u login ps b)" for b
      proof -
        have "load_ta E ?k u login ps b = Crash \<and> \<not> load_parses E ?k b \<or> op_ok ?k (load_ta E ?k u login ps b)"
          using nws nwi by (intro load) auto
        moreover have "op_ok ?k r \<Longrightarrow> op_ok k r" for r by (erule op_ok_trans) simp_all
        ultimately show ?thesis by blast
      qed
      with Some y kk RpcComplete show ?thesis
        by (auto simp: rpc_complete_def Let_def grow_def cmd_parses_def load_parses_def
            split: rpc_response.splits)
    qed
    with True RpcComplete show ?thesis by (simp add: handle_def)
  qed
qed

lemma kill_fields [simp]:
  "i_id (kill_instance x) = i_id x" "i_uuid (kill_instance x) = i_uuid x"
  "i_props (kill_instance x) = i_props x" "i_state (kill_instance x) = I_Dead"
  "i_busy (kill_instance x) = i_busy x" "i_session_count (kill_instance x) = i_session_count x"
  by (simp_all add: kill_instance_def)

lemma panic_core:
  assumes k: "kcore (Some i) D k" and D: "D = None \<or> D = Some i"
  shows "kcore None None
    (k\<lparr>k_instances := instance_update (k_instances k) i kill_instance,
       k_sessions := poison_instance (k_sessions k) i\<rparr>)" (is "kcore _ _ ?k")
proof -
  obtain x where x: "inst k i = Some x" using k by (auto simp: kcore_def)
  with k have ok: "inst_ok (Some i) D k i x" by (simp add: kcore_def)
  have get: "inst ?k j = (if j = i then Some (kill_instance x) else inst k j)" for j
    using x by (simp add: kill_instance_def)
  have sget: "sess ?k j = map_option (poison_session i) (sess k j)" for j
    by (simp add: poison_get)
  have n: "n_sess ?k j = n_sess k j" for j
  proof -
    have "s_instance (poison_session i s) = s_instance s" for s by (simp add: poison_session_def)
    then have "sessions_of ?k j = sessions_of k j" unfolding sessions_of_def sget by auto
    then show ?thesis by (simp add: n_sess_def)
  qed
  have "inst_ok None None ?k j y" if y: "inst ?k j = Some y" for j y
  proof (cases "j = i")
    case True
    with y have "y = kill_instance x" unfolding get by simp
    with ok True D n [of i] show ?thesis by (auto simp: inst_ok_def kill_instance_def)
  next
    case False
    with y have "inst k j = Some y" unfolding get by simp
    with k have "inst_ok (Some i) D k j y" by (simp add: kcore_def)
    with inst_ok_other [OF False _ D, of "Some i" k y] n [of j] show ?thesis
      by (simp add: inst_ok_def)
  qed
  moreover have "sess_ok ?k s" if s: "sess ?k sid = Some s" for sid s
  proof -
    from s obtain s' where s': "sess k sid = Some s'" "s = poison_session i s'" unfolding sget by auto
    with k have ok': "sess_ok k s'" by (auto simp: kcore_def)
    show ?thesis
    proof (cases "s_kind s'")
      case Pta
      with ok' s'(2) show ?thesis by (simp add: sess_ok_def poison_session_def)
    next
      case UserTa
      with ok' obtain j y where "s_instance s' = Some j" "inst k j = Some y" "i_uuid y = s_uuid s'"
        "s_state s' = (if i_state y = I_Dead then S_Dead else S_Ready)"
        by (auto simp: sess_ok_def split: option.splits)
      with UserTa s'(2) x show ?thesis
        by (cases "j = i") (simp_all add: sess_ok_def poison_session_def)
    qed
  qed
  moreover have "single_ok ?k \<and> yield_ok ?k"
    using k by (intro live_transfer [of ?k k])
      (auto simp: kcore_def is_live_single_def split: if_splits)
  moreover have "tables_ok ?k"
    using k by (simp add: kcore_def tables_ok_def ins.update_ok)
  ultimately show ?thesis by (simp add: kcore_def)
qed

lemma on_panic_core:
  assumes "trap_ok k" and "on_panic E k = Some (out, k')"
  shows "kinv k' \<and> grow k k' \<and> out = done_err TEE_ERROR_TARGET_DEAD"
proof -
  from assms(2) have np: "\<not> k_current_pta k" and r: "(out, k') = on_ta_panic E k"
    by (auto simp: on_panic_def split: if_splits)
  show ?thesis
  proof (cases "k_current_instance k")
    case None
    with assms(1) np r show ?thesis by (auto simp: on_ta_panic_def trap_ok_def)
  next
    case (Some i)
    with assms(1) np obtain D where D: "kcore (Some i) D k" "D = None \<or> D = Some i"
      by (auto simp: trap_ok_def kinv_def)
    have "kcore None None
        (k\<lparr>k_current_instance := None,
           k_instances := instance_update (k_instances k) i kill_instance,
           k_sessions := poison_instance (k_sessions k) i\<rparr>)"
      by (rule kcore_cong [OF _ panic_core [OF D]]) (simp add: same_core_def)
    with Some np r show ?thesis by (simp add: on_ta_panic_def kinv_def grow_def)
  qed
qed

section \<open>Reachable states\<close>

text \<open>One step of the system: a command that returns, a command whose application or PTA panics
  followed by \<open>on_panic\<close>, or a call of the boot code. Early applications are registered at boot, so
  never while a load is outstanding; the embedder may change the HAL state between commands.\<close>

inductive kstep :: "('h, 'a, 's, 'p) env \<Rightarrow> ('h, 'a, 'p) kernel \<Rightarrow> ('h, 'a, 'p) kernel \<Rightarrow> bool"
  for E :: "('h, 'a, 's, 'p) env" where
  cmd_ret: "handle E k cmd = Ret out k' \<Longrightarrow> kstep E k k'"
| cmd_trap: "handle E k cmd = Trapped k1 \<Longrightarrow> on_panic E k1 = Some (out, k') \<Longrightarrow> kstep E k k'"
| notices: "emit_ree_notices writeln (con :: string list) n k = (ok, con', k') \<Longrightarrow> kstep E k k'"
| reg_pta: "kstep E k (register_pta k p)"
| reg_early: "k_yielding k = None \<Longrightarrow> kstep E k (register_early_ta k ta)"
| hal: "kstep E k (k\<lparr>k_hal := h\<rparr>)"

inductive reach :: "('h, 'a, 's, 'p) env \<Rightarrow> nat \<Rightarrow> ('h, 'a, 'p) kernel \<Rightarrow> bool"
  for E :: "('h, 'a, 's, 'p) env" where
  init: "reach E 0 (kernel_new E h)"
| step: "reach E n k \<Longrightarrow> kstep E k k' \<Longrightarrow> reach E (Suc n) k'"

lemma slots_new [simp]: "slots (tbl_new c) = replicate c None" "next_id (tbl_new c) = 1"
  by (simp_all add: tbl_new_def)

lemma kinv_new: "kinv (kernel_new E h)"
  by (simp add: kinv_def kcore_def kernel_new_def Let_def tables_ok_def ses.ok_new ins.ok_new
      single_ok_def yield_ok_def)

lemma kstep_kinv:
  assumes "kstep E k k'" and "kinv k" and "not_wrapped (k_sessions k)" and "not_wrapped (k_instances k)"
  shows "kinv k' \<and> grow k k'"
  using assms
proof (cases rule: kstep.cases)
  case (cmd_ret cmd out)
  with handle_core [OF assms(2-4), of E cmd] show ?thesis by (simp add: op_ok_def)
next
  case (cmd_trap cmd k1 out)
  with handle_core [OF assms(2-4), of E cmd] have "trap_ok k1" "grow k k1" by (auto simp: op_ok_def)
  with cmd_trap on_panic_core have "kinv k'" "grow k1 k'" by blast+
  moreover have "next_id (k_sessions k') = next_id (k_sessions k1)"
    "next_id (k_instances k') = next_id (k_instances k1)"
    using cmd_trap by (auto simp: on_panic_def on_ta_panic_def Let_def split: if_splits option.splits)
  ultimately show ?thesis using \<open>grow k k1\<close> by (simp add: grow_def)
next
  case (notices writeln con n ok con')
  then have "k' = k \<or> k' = k\<lparr>k_notices_ok := True\<rparr>"
    by (auto simp: emit_ree_notices_def Let_def split: if_splits prod.splits)
  moreover have "same_core k (k\<lparr>k_notices_ok := True\<rparr>)" by (simp add: same_core_def)
  ultimately show ?thesis using assms(2) kcore_cong by (auto simp: kinv_def grow_def)
next
  case (reg_pta p)
  with assms(2) show ?thesis by (simp add: register_pta_def grow_def)
next
  case (reg_early ta)
  have "kcore None None (k\<lparr>k_early := early_insert (k_early k) ta\<rparr>)"
    using assms(2) reg_early by (auto simp: kinv_def yield_ok_def intro: kcore_eq)
  with assms(2) reg_early show ?thesis by (simp add: register_early_ta_def kinv_def grow_def)
next
  case (hal h)
  then show ?thesis
    using assms(2) frame_core [OF frame_hal] by (auto simp: kinv_def grow_def)
qed

lemma reach_kinv:
  assumes "reach E n k" and "n < 2 ^ 32 - 2"
  shows "kinv k \<and> unat (next_id (k_sessions k)) \<le> n + 1 \<and> unat (next_id (k_instances k)) \<le> n + 1"
  using assms
proof (induction rule: reach.induct)
  case (init h)
  then show ?case using kinv_new by (simp add: kernel_new_def Let_def)
next
  case (step n k k')
  then have IH: "kinv k" "unat (next_id (k_sessions k)) \<le> n + 1" "unat (next_id (k_instances k)) \<le> n + 1"
    by auto
  with step.prems have "not_wrapped (k_sessions k)" "not_wrapped (k_instances k)"
    by (auto simp: not_wrapped_def)
  with kstep_kinv [OF step.hyps(2) IH(1)] IH show ?case by (auto simp: grow_def)
qed

end
