(* ===== verification/Kernel_Static.thy ===== *)
theory Kernel_Static
  imports Kernel_Step
begin

text \<open>
  What the operations of the kernel leave alone: the list of cancelled operations, the notice flag,
  the early applications and the origin of the entropy are fixed by every operation but the one
  that changes them, and only opening a session or completing a load touches the outstanding load.
\<close>

definition static :: "('h, 'a, 'p) kernel \<Rightarrow> ('h, 'a, 'p) kernel \<Rightarrow> bool" where
  "static k k' \<longleftrightarrow>
     k_cancelled k' = k_cancelled k \<and> k_notices_ok k' = k_notices_ok k \<and>
     k_early k' = k_early k \<and> k_entropy_origin k' = k_entropy_origin k \<and>
     k_yielding k' = k_yielding k"

lemma static_refl [simp]: "static k k"
  by (simp add: static_def)

lemma static_trans: "static k k' \<Longrightarrow> static k' k'' \<Longrightarrow> static k k''"
  by (simp add: static_def)

lemma static_upd [simp]:
  "static k (k'\<lparr>k_instances := t\<rparr>) = static k k'"
  "static k (k'\<lparr>k_sessions := t'\<rparr>) = static k k'"
  "static k (k'\<lparr>k_hal := h\<rparr>) = static k k'"
  "static k (k'\<lparr>k_current_instance := c\<rparr>) = static k k'"
  "static k (k'\<lparr>k_current_pta := b\<rparr>) = static k k'"
  "static k (k'\<lparr>k_ptas := ps\<rparr>) = static k k'"
  by (simp_all add: static_def)

lemma static_upd_left [simp]:
  "static (k\<lparr>k_instances := t\<rparr>) k' = static k k'"
  "static (k\<lparr>k_sessions := t'\<rparr>) k' = static k k'"
  "static (k\<lparr>k_hal := h\<rparr>) k' = static k k'"
  "static (k\<lparr>k_current_instance := c\<rparr>) k' = static k k'"
  "static (k\<lparr>k_current_pta := b\<rparr>) k' = static k k'"
  "static (k\<lparr>k_ptas := ps\<rparr>) k' = static k k'"
  by (simp_all add: static_def)

lemma static_unlock [simp]: "static k (unlock_instance i k') = static k k'"
  by (simp add: unlock_instance_def)

lemma static_drop [simp]: "static k (drop_instance i k') = static k k'"
  by (simp add: drop_instance_def)

lemma frame_static: "frame k k' \<Longrightarrow> static k k'"
  by (simp add: frame_def same_core_def static_def)

lemma lock_static: "lock_instance k i = (r, k') \<Longrightarrow> static k k'"
  by (auto simp: lock_instance_def split: option.splits if_splits)

lemma put_aspace_static: "put_aspace k i a = Some k' \<Longrightarrow> static k k'"
  by (auto simp: put_aspace_def split: option.splits)

lemma sync_param_in_static: "sync_param_in E k ck d = (r, k') \<Longrightarrow> static k k'"
  by (auto dest: sync_param_in_frame frame_static)

lemma map_loop_static: "map_loop E iid ps is k a raw vas = (r, k') \<Longrightarrow> static k k'"
proof (induction "is" arbitrary: k a raw vas)
  case Nil
  then show ?case by (auto dest: put_aspace_static split: option.splits)
next
  case (Cons i "is")
  show ?case
  proof (cases "\<exists>ck offs sz d. ps ! i = PMemref (Ree ck offs) sz d")
    case False
    with Cons show ?thesis by (auto split: param.splits memref_src.splits)
  next
    case True
    then obtain ck offs sz d where p: "ps ! i = PMemref (Ree ck offs) sz d" by blast
    obtain r1 k1 where sync: "sync_param_in E k ck d = (r1, k1)" by fastforce
    then have s1: "static k k1" by (rule sync_param_in_static)
    then have "static k k'" if "static k1 k'" using that static_trans by blast
    with Cons p sync s1 show ?thesis
      by (auto split: res.splits option.splits if_splits prod.splits sum.splits dest: put_aspace_static)
  qed
qed

lemma map_params_static: "map_params E k iid ps = (r, k') \<Longrightarrow> static k k'"
  by (auto simp: map_params_def take_aspace_def Let_def dest: map_loop_static split: option.splits)

lemma unmap_params_static [simp]: "static k (unmap_params E k' iid ps vas) = static k k'"
proof -
  have "static k' (unmap_params E k' iid ps vas)"
    by (rule frame_static [OF unmap_params_frame])
  then show ?thesis by (simp add: static_def)
qed

fun keeps :: "('h, 'a, 'p) kernel \<Rightarrow> ('h, 'a, 'p) kernel outcome \<Rightarrow> bool" where
  "keeps k (Ret out k') = static k k'"
| "keeps k (Trapped k') = static k k'"
| "keeps k Crash = True"

lemma keeps_then_do:
  "keeps k r \<Longrightarrow> (\<And>k'. static k k' \<Longrightarrow> static k (g k')) \<Longrightarrow> keeps k (then_do r g)"
  by (cases r) auto

lemma keeps_trans: "static k k1 \<Longrightarrow> keeps k1 r \<Longrightarrow> keeps k r"
  by (cases r) (auto intro: static_trans)

lemma add_session_keeps: "keeps k (add_session k i u login ctx ps)"
  by (auto simp: add_session_def Let_def split: prod.splits option.splits)

lemma bind_session_keeps: "keeps k (bind_session E k i u login ps)"
proof (cases "instance_entries k i")
  case None
  then show ?thesis by (simp add: bind_session_def add_session_keeps)
next
  case (Some ep)
  obtain r k1 where m: "map_params E k i ps = (r, k1)" by fastforce
  then have "static k k1" by (rule map_params_static)
  moreover have "keeps k (add_session k2 i u login ctx ps')" if "static k k2" for k2 ctx ps'
    using that add_session_keeps by (rule keeps_trans)
  ultimately show ?thesis
    using Some m by (auto simp: bind_session_def Let_def split: res.splits prod.splits option.splits)
qed

lemma bind_unlock_keeps:
  "static k k2 \<Longrightarrow> keeps k (then_do (bind_session E k2 i u login ps) (unlock_instance i))"
  by (rule keeps_then_do [OF keeps_trans [OF _ bind_session_keeps]]) simp_all

lemma call_create_static: "call_create E k i en = (c, k') \<Longrightarrow> static k k'"
  by (auto simp: call_create_def Let_def split: option.splits)

lemma instantiate_keeps: "keeps k (instantiate_and_bind E k pr u login ps en a)"
proof -
  obtain a' k0 where a': "(case a of Some a \<Rightarrow> (a, k)
      | None \<Rightarrow> let (a, h) = hal_new_address_space (e_hal E) (k_hal k) in (a, k\<lparr>k_hal := h\<rparr>)) = (a', k0)"
    by fastforce
  then have k0: "static k k0" by (auto simp: Let_def split: option.splits prod.splits)
  have "keeps k (case lock_instance (k0\<lparr>k_instances := t\<rparr>) i of
      (Err e, k) \<Rightarrow> Ret (done_err e) (drop_instance i k)
    | (Panic, k) \<Rightarrow> Crash
    | (Ok _, k) \<Rightarrow>
        (case call_create E k i en of
           (None, k) \<Rightarrow> Trapped k
         | (Some code, k) \<Rightarrow>
             if code \<noteq> TEE_SUCCESS
             then Ret (Done (TeeResult_ta code) None ps) (drop_instance i (unlock_instance i k))
             else then_do (bind_session E k i u login ps) (unlock_instance i)))" for t i
    using k0
    by (auto split: option.splits prod.splits res.splits intro: static_trans
        dest!: lock_static call_create_static) (meson static_trans bind_unlock_keeps)+
  with a' k0 show ?thesis
    by (auto simp: instantiate_and_bind_def split: option.splits prod.splits)
qed

lemma open_pta_keeps: "keeps k (open_pta E k p u login ps)"
  by (auto simp: open_pta_def Let_def split: option.splits prod.splits sum.splits)

text \<open>Opening changes the outstanding load only when it asks for one.\<close>

lemma open_user_ta_keeps:
  "keeps k (open_user_ta E k u login ps cid tmo) \<or>
   k_yielding k = None \<and> live_single (k_instances k) u = None \<and> early_get (k_early k) u = None \<and>
   open_user_ta E k u login ps cid tmo =
     Ret (Rpc (Rpc_LoadTa u)) (k\<lparr>k_yielding := Some (Y_LoadTa u login ps cid tmo)\<rparr>)"
  by (auto simp: open_user_ta_def instantiate_keeps split: option.splits prod.splits res.splits
      dest: lock_static intro: bind_unlock_keeps)

lemma open_session_keeps:
  "keeps k (open_session E k u login ps cid tmo) \<or>
   k_yielding k = None \<and> live_single (k_instances k) u = None \<and> early_get (k_early k) u = None \<and>
   open_session E k u login ps cid tmo =
     Ret (Rpc (Rpc_LoadTa u)) (k\<lparr>k_yielding := Some (Y_LoadTa u login ps cid tmo)\<rparr>)"
  using open_user_ta_keeps [of k E u login ps cid tmo]
  by (auto simp: open_session_def open_pta_keeps split: option.splits)

lemma call_invoke_keeps: "static k k1 \<Longrightarrow> keeps k (call_invoke E k1 i sid s c ps raw vas)"
  by (auto simp: call_invoke_def Let_def split: option.splits)

lemma invoke_keeps: "keeps k (invoke E k sid c ps cid)"
  by (auto simp: invoke_def invoke_pta_def invoke_user_ta_def Let_def
      split: option.splits session_kind.splits prod.splits res.splits
      dest!: lock_static map_params_static intro!: keeps_then_do call_invoke_keeps intro: static_trans)

lemma call_close_static: "call_close E k i ctx = r \<Longrightarrow> (case r of Inl k' \<Rightarrow> static k k' | Inr k' \<Rightarrow> static k k')"
  by (auto simp: call_close_def Let_def split: option.splits)

lemma call_destroy_static: "call_destroy E k i = r \<Longrightarrow> (case r of Inl k' \<Rightarrow> static k k' | Inr k' \<Rightarrow> static k k')"
  by (auto simp: call_destroy_def Let_def split: option.splits)

lemma release_keeps: "keeps k (release_instance E k i)"
  by (auto simp: release_instance_def Let_def split: sum.splits dest!: call_destroy_static)

lemma close_keeps: "keeps k (close_session E k sid)"
  by (auto simp: close_session_def close_pta_def close_user_ta_def Let_def
      split: option.splits session_kind.splits prod.splits res.splits sum.splits
      dest!: lock_static call_close_static intro: static_trans)
    (meson keeps_trans release_keeps static_trans)+

lemma load_ta_keeps: "keeps k (load_ta E k u login ps b)"
  by (auto simp: load_ta_def Let_def split: res.splits prod.splits
      intro: keeps_trans [OF _ instantiate_keeps])

lemma rpc_complete_keeps: "keeps (k\<lparr>k_yielding := None\<rparr>) (rpc_complete E k resp)"
proof (cases "k_yielding k")
  case None
  then show ?thesis by (simp add: rpc_complete_def static_def)
next
  case (Some y)
  then show ?thesis
    by (cases y) (auto simp: rpc_complete_def Let_def load_ta_keeps split: rpc_response.splits)
qed

text \<open>Over the steps of the system, cancellations and the notice flag are never taken back.\<close>

definition grows :: "('h, 'a, 'p) kernel \<Rightarrow> ('h, 'a, 'p) kernel \<Rightarrow> bool" where
  "grows k k' \<longleftrightarrow>
     set (k_cancelled k) \<subseteq> set (k_cancelled k') \<and> (k_notices_ok k \<longrightarrow> k_notices_ok k')"

lemma grows_refl [simp]: "grows k k"
  by (simp add: grows_def)

lemma grows_trans: "grows k k' \<Longrightarrow> grows k' k'' \<Longrightarrow> grows k k''"
  by (auto simp: grows_def)

lemma static_grows: "static k k' \<Longrightarrow> grows k k'"
  by (simp add: static_def grows_def)

lemma keeps_grows: "keeps k r \<Longrightarrow> r = Ret out k' \<or> r = Trapped k' \<Longrightarrow> grows k k'"
  by (auto intro: static_grows)

lemma handle_grows:
  assumes "handle E k cmd = Ret out k' \<or> handle E k cmd = Trapped k'"
  shows "grows k k'"
proof (cases "k_notices_ok k")
  case False
  with assms show ?thesis by (simp add: handle_def)
next
  case True
  have yield: "grows k k'" if "grows (k\<lparr>k_yielding := y\<rparr>) k'" for y
    using that by (simp add: grows_def)
  show ?thesis
  proof (cases cmd)
    case (OpenSession u login ps cid tmo)
    with True assms open_session_keeps [of k E u login ps cid tmo] show ?thesis
      by (auto simp: handle_def grows_def static_def)
  next
    case (Invoke sid c ps cid tmo)
    with True assms keeps_grows [OF invoke_keeps, of E k sid c ps cid] show ?thesis
      by (simp add: handle_def)
  next
    case (CloseSession sid)
    with True assms keeps_grows [OF close_keeps, of E k sid] show ?thesis by (simp add: handle_def)
  next
    case (Cancel c)
    with True assms show ?thesis by (auto simp: handle_def grows_def)
  next
    case (RpcComplete resp)
    with True assms have "rpc_complete E k resp = Ret out k' \<or> rpc_complete E k resp = Trapped k'"
      by (simp add: handle_def)
    from yield [OF keeps_grows [OF rpc_complete_keeps this]] show ?thesis .
  qed
qed

lemma on_panic_static: "on_panic E k = Some (out, k') \<Longrightarrow> static k k'"
  by (auto simp: on_panic_def on_ta_panic_def Let_def split: if_splits option.splits)

lemma kstep_grows: "kstep E k k' \<Longrightarrow> grows k k'"
proof (induction rule: kstep.induct)
  case (cmd_ret k cmd out k')
  then show ?case using handle_grows by blast
next
  case (cmd_trap k cmd k1 out k')
  then show ?case using handle_grows on_panic_static static_grows grows_trans by blast
next
  case (notices writeln con n k ok con' k')
  then show ?case
    by (auto simp: emit_ree_notices_def Let_def grows_def split: if_splits prod.splits)
qed (simp_all add: register_pta_def register_early_ta_def grows_def)

lemma ksteps_grow: "(kstep E)\<^sup>*\<^sup>* k k' \<Longrightarrow> grows k k'"
  by (induction rule: rtranclp_induct) (auto intro: grows_trans kstep_grows)

section \<open>Answers\<close>

text \<open>Only opening a session can answer with an RPC; everything else is done.\<close>

fun answers :: "'k outcome \<Rightarrow> bool" where
  "answers (Ret (Done r sid ps) k) = True"
| "answers (Ret (Rpc r) k) = False"
| "answers (Trapped k) = True"
| "answers Crash = True"

lemma answers_done_err [simp]: "answers (Ret (done_err e) k)"
  by (simp add: done_err_def)

lemma answers_close_done [simp]: "answers (Ret close_done k)"
  by (simp add: close_done_def)

lemma answers_then_do [simp]: "answers (then_do r g) = answers r"
  by (cases r rule: answers.cases) auto

lemma answers_add [simp]: "answers (add_session k i u login ctx ps)"
  by (simp add: add_session_def Let_def split: prod.splits option.splits)

lemma answers_bind [simp]: "answers (bind_session E k i u login ps)"
  by (simp add: bind_session_def Let_def split: prod.splits option.splits res.splits)

lemma answers_instantiate [simp]: "answers (instantiate_and_bind E k pr u login ps en a)"
  by (simp add: instantiate_and_bind_def split: prod.splits option.splits res.splits)

lemma answers_invoke [simp]: "answers (invoke E k sid c ps cid)"
  by (simp add: invoke_def invoke_pta_def invoke_user_ta_def call_invoke_def Let_def
      split: prod.splits option.splits res.splits session_kind.splits)

lemma answers_close [simp]: "answers (close_session E k sid)"
  by (simp add: close_session_def close_pta_def close_user_ta_def release_instance_def Let_def
      split: prod.splits option.splits res.splits session_kind.splits sum.splits)

lemma answers_load [simp]: "answers (load_ta E k u login ps b)"
  by (simp add: load_ta_def Let_def split: prod.splits res.splits)

lemma answers_rpc_complete [simp]: "answers (rpc_complete E k resp)"
  by (simp add: rpc_complete_def Let_def split: option.splits yielding.splits rpc_response.splits)

lemma answers_pta [simp]: "answers (open_pta E k p u login ps)"
  by (simp add: open_pta_def Let_def split: prod.splits option.splits sum.splits)

lemma answers_open:
  "answers (open_session E k u login ps cid tmo) \<or>
   \<not> cancelled k cid \<and> k_yielding k = None \<and>
   live_single (k_instances k) u = None \<and> early_get (k_early k) u = None \<and>
   open_session E k u login ps cid tmo =
     Ret (Rpc (Rpc_LoadTa u)) (k\<lparr>k_yielding := Some (Y_LoadTa u login ps cid tmo)\<rparr>)"
  by (simp add: open_session_def open_user_ta_def split: prod.splits option.splits res.splits)

end
