(* ===== verification/Kernel_Props.thy ===== *)
theory Kernel_Props
  imports Kernel_Static
begin

text \<open>
  Properties of the kernel: what holds in every state it can reach, what a panic, a cancellation
  and a load can change, which memory a parameter can name, and what opening and closing a session
  do. The environment \<open>demo_env\<close> at the start is a concrete HAL with one shared buffer and one
  trusted application; the witnesses run the kernel in it.
\<close>

section \<open>A concrete environment\<close>

definition demo_hal :: "(unit, u64 list, nat) hal_ops" where
  "demo_hal =
     \<lparr>hal_entropy_origin = (\<lambda>_. Isolated),
      hal_new_address_space = (\<lambda>h. ([], h)),
      hal_lookup_shm = (\<lambda>h ck. if ck = 0 then Some 64 else None),
      hal_sync_in = (\<lambda>h ck. if ck = 0 then Some (Inr (), h) else None),
      hal_sync_out = (\<lambda>h ck. if ck = 0 then Some (Inr (), h) else None),
      shm_len = (\<lambda>n. n),
      shm_map_into = (\<lambda>n a p. (Inr 4096, 4096 # a)),
      as_map_image = (\<lambda>a va b p. (Inr va, va # a)),
      as_unmap = (\<lambda>a va. filter (\<lambda>v. v \<noteq> va) a),
      as_drop_all = (\<lambda>_. [])\<rparr>"

text \<open>The application at address 5 panics on command 1; every other call succeeds.\<close>

definition demo_env :: "(unit, u64 list, nat, unit) env" where
  "demo_env =
     \<lparr>e_hal = demo_hal,
      e_crypto = \<lparr>sha256 = (\<lambda>_. replicate 32 0), rsa_pkcs1_verify = (\<lambda>_ _ _. False)\<rparr>,
      e_pubkey = [],
      ta_create = (\<lambda>_ h. Some (TEE_SUCCESS, h)),
      ta_destroy = (\<lambda>_ h. Some h),
      ta_open = (\<lambda>_ _ raw _ h. Some (TEE_SUCCESS, raw, 9, h)),
      ta_close = (\<lambda>_ _ h. Some h),
      ta_invoke = (\<lambda>_ _ c _ raw h. if c = 1 then None else Some (TEE_SUCCESS, raw, h)),
      pta_uuid = (\<lambda>_. []),
      pta_open = (\<lambda>_ _. None),
      pta_invoke = (\<lambda>_ _ _ _. None),
      pta_close = (\<lambda>_ _. None)\<rparr>"

definition demo_props :: ta_properties where
  "demo_props = \<lparr>tp_uuid = [1], tp_stack_size = 1, tp_data_size = 1, tp_single_instance = True,
     tp_multi_session = False, tp_instance_keep_alive = False, tp_endian = 0, tp_ta_version = 0\<rparr>"

definition demo_ep :: ta_entry_points where
  "demo_ep = \<lparr>ep_create = 1, ep_destroy = 2, ep_open_session = 3, ep_close_session = 4, ep_invoke = 5\<rparr>"

definition demo_boot :: "(unit, u64 list, unit) kernel" where
  "demo_boot = register_early_ta (kernel_new demo_env ())
     \<lparr>et_uuid = [1], et_props = demo_props, et_image = [], et_entries = Some demo_ep\<rparr>"

definition demo_open :: "uuid \<Rightarrow> kernel_cmd" where
  "demo_open u = OpenSession u Login_Public no_params 0 0"

definition demo_inst :: "u64 list ta_instance" where
  "demo_inst = \<lparr>i_id = 1, i_uuid = [1], i_props = demo_props, i_aspace = Some [],
     i_session_count = 1, i_state = I_Live, i_entries = Some demo_ep, i_busy = False\<rparr>"

definition demo_sess :: session where
  "demo_sess = \<lparr>s_id = 1, s_uuid = [1], s_kind = UserTa, s_instance = Some 1, s_ta_sess_ctx = 9,
     s_state = S_Ready, s_client = Login_Public\<rparr>"

text \<open>The kernel after the application's session has been opened, and after a load was requested.\<close>

definition demo_ready :: "(unit, u64 list, unit) kernel" where
  "demo_ready = demo_boot
     \<lparr>k_sessions := \<lparr>slots = Some demo_sess # replicate 31 None, next_id = 2\<rparr>,
      k_instances := \<lparr>slots = Some demo_inst # replicate 15 None, next_id = 2\<rparr>\<rparr>"

lemmas demo_simps = demo_boot_def demo_open_def demo_inst_def demo_sess_def demo_ready_def
  demo_env_def demo_hal_def demo_props_def demo_ep_def kernel_new_def register_early_ta_def
  early_insert_def early_get_def MAX_SESSIONS_def MAX_INSTANCES_def tbl_new_def

lemmas step_simps = handle_def open_session_def cancelled_def pta_get_mut_def open_user_ta_def
  live_single_def is_live_single_def instantiate_and_bind_def tbl_alloc_def bump_id_def
  lock_instance_def tbl_get_def tbl_update_def call_create_def bind_session_def instance_entries_def
  map_params_def take_aspace_def put_aspace_def no_params_def PARAM_COUNT_def unmap_params_def
  unmap_param_def params_from_raw_def add_session_def unlock_instance_def u16_inc_def Let_def
  TEE_SUCCESS_def upt_rec TeeResult_ok_def

lemma demo_opened:
  "handle demo_env demo_boot (demo_open [1]) = Ret (Done TeeResult_ok (Some 1) no_params) demo_ready"
  by (simp add: demo_simps step_simps replicate_unroll)

lemma demo_reach: "reach demo_env 2 demo_ready"
proof -
  have "reach demo_env 0 (kernel_new demo_env ())" by (rule reach.init)
  moreover have "kstep demo_env (kernel_new demo_env ()) demo_boot"
    unfolding demo_boot_def by (rule kstep.reg_early) (simp add: kernel_new_def Let_def)
  moreover have "kstep demo_env demo_boot demo_ready"
    using demo_opened by (rule kstep.cmd_ret)
  ultimately show ?thesis
    using reach.step [of demo_env 0 _ demo_boot] reach.step [of demo_env 1 demo_boot] by (simp add: numeral_eq_Suc)
qed

section \<open>Reachable states\<close>

text \<open>C10. Whatever commands the kernel has handled, whichever applications panicked in between: no
  call is marked as running between commands; every session of a user application points to an
  instance with the same UUID and is dead exactly when the instance is; every live instance is
  unlocked and counts exactly the sessions that point to it; a dead one stays locked. (The bound is
  the wrap-around of the 32-bit identifiers.)\<close>

theorem reachable_consistent:
  assumes "reach E n k" and "n < 2 ^ 32 - 2"
  shows "k_current_instance k = None \<and> \<not> k_current_pta k \<and>
    (\<forall>sid s. session_get (k_sessions k) sid = Some s \<longrightarrow>
       (case s_kind s of
          Pta \<Rightarrow> s_instance s = None \<and> s_state s = S_Ready
        | UserTa \<Rightarrow> \<exists>i x. s_instance s = Some i \<and> instance_get (k_instances k) i = Some x \<and>
            i_uuid x = s_uuid s \<and> s_state s = (if i_state x = I_Dead then S_Dead else S_Ready))) \<and>
    (\<forall>i x. instance_get (k_instances k) i = Some x \<longrightarrow>
       tp_uuid (i_props x) = i_uuid x \<and>
       (i_state x = I_Live \<and> \<not> i_busy x \<and>
          unat (i_session_count x) =
            card {sid. \<exists>s. session_get (k_sessions k) sid = Some s \<and> s_instance s = Some i} \<or>
        i_state x = I_Dead \<and> i_busy x))"
proof -
  have k: "kinv k" using reach_kinv [OF assms] by blast
  have "case s_kind s of
          Pta \<Rightarrow> s_instance s = None \<and> s_state s = S_Ready
        | UserTa \<Rightarrow> \<exists>i x. s_instance s = Some i \<and> inst k i = Some x \<and>
            i_uuid x = s_uuid s \<and> s_state s = (if i_state x = I_Dead then S_Dead else S_Ready)"
    if "sess k sid = Some s" for sid s
  proof -
    have "sess_ok k s" using k that by (auto simp: kinv_def kcore_def)
    then show ?thesis by (auto simp: sess_ok_def split: session_kind.splits option.splits)
  qed
  moreover have "inst_ok None None k i x" if "inst k i = Some x" for i x
    using k that by (simp add: kinv_def kcore_def)
  ultimately show ?thesis
    using k by (auto simp: kinv_def inst_ok_def n_sess_def sessions_of_def)
qed

theorem reachable_consistent_witness:
  "unat (i_session_count demo_inst) =
     card {sid. \<exists>s. session_get (k_sessions demo_ready) sid = Some s \<and> s_instance s = Some 1}"
proof -
  have "instance_get (k_instances demo_ready) 1 = Some demo_inst"
    by (simp add: demo_ready_def tbl_get_def demo_inst_def)
  with reachable_consistent [OF demo_reach]
  have "i_state demo_inst = I_Live \<and> \<not> i_busy demo_inst \<and> unat (i_session_count demo_inst) =
      card {sid. \<exists>s. session_get (k_sessions demo_ready) sid = Some s \<and> s_instance s = Some 1} \<or>
    i_state demo_inst = I_Dead \<and> i_busy demo_inst" by simp
  then show ?thesis by (auto simp: demo_inst_def)
qed

text \<open>C11. The multiplicity properties of an application are kept in every reachable state: at most one
  live instance of a single-instance application exists per UUID, and a live instance of an
  application that is not multi-session has at most one session.\<close>

theorem multiplicity:
  assumes "reach E n k" and "n < 2 ^ 32 - 2"
    and "instance_get (k_instances k) i = Some x" and "i_state x = I_Live"
  shows "(\<forall>j y. instance_get (k_instances k) j = Some y \<and> i_state y = I_Live \<and>
            i_uuid y = i_uuid x \<and> tp_single_instance (i_props x) \<and> tp_single_instance (i_props y)
            \<longrightarrow> j = i) \<and>
    (\<not> tp_multi_session (i_props x) \<longrightarrow>
       card {sid. \<exists>s. session_get (k_sessions k) sid = Some s \<and> s_instance s = Some i} \<le> 1)"
proof -
  have core: "kcore None None k" using reach_kinv [OF assms(1,2)] by (simp add: kinv_def)
  then have "single_ok k" "inst_ok None None k i x" using assms(3) by (auto simp: kcore_def)
  moreover have "j = i" if "single_ok k" "inst k j = Some y" "i_state y = I_Live" "i_uuid y = i_uuid x"
    "tp_single_instance (i_props x)" "tp_single_instance (i_props y)" for j y
    using that assms(3,4) unfolding single_ok_def is_live_single_def by blast
  ultimately show ?thesis
    using assms(4) by (auto simp: inst_ok_def n_sess_def sessions_of_def)
qed

theorem multiplicity_witness:
  "card {sid. \<exists>s. session_get (k_sessions demo_ready) sid = Some s \<and> s_instance s = Some 1} \<le> 1"
proof -
  have "instance_get (k_instances demo_ready) 1 = Some demo_inst"
    by (simp add: demo_ready_def tbl_get_def demo_inst_def)
  from multiplicity [OF demo_reach _ this] show ?thesis by (simp add: demo_inst_def demo_props_def)
qed

text \<open>C12. In a reachable state no command makes the kernel itself panic, except the completion of an
  outstanding load with an image on which one of the two image parsers panics.\<close>

theorem kernel_never_crashes:
  assumes "reach E n k" and "n < 2 ^ 32 - 2" and "handle E k cmd = Crash"
  shows "k_yielding k \<noteq> None \<and>
    (\<exists>b. cmd = RpcComplete (Resp_LoadTa b) \<and>
       (load_image (e_crypto E) (e_pubkey E) b = Panic \<or>
        fst (map_elf (e_hal E) (fst (hal_new_address_space (e_hal E) (k_hal k))) b) = Panic))"
proof -
  have "kinv k" "unat (next_id (k_sessions k)) \<le> n + 1" "unat (next_id (k_instances k)) \<le> n + 1"
    using reach_kinv [OF assms(1,2)] by auto
  with assms(2) have "kinv k" "not_wrapped (k_sessions k)" "not_wrapped (k_instances k)"
    by (auto simp: not_wrapped_def)
  from handle_core [OF this, of E cmd] assms(3) have "\<not> cmd_parses E k cmd" by (simp add: op_ok_def)
  then show ?thesis
    using assms(3)
    by (auto simp: cmd_parses_def load_parses_def handle_def rpc_complete_def
        split: kernel_cmd.splits rpc_response.splits if_splits option.splits)
qed

text \<open>The panicking image of the header search, offered as the answer to a load.\<close>

definition bad_elf :: bytes where
  "bad_elf = [0x7f, 0x45, 0x4c, 0x46, 2, 1, 0, 0] @ replicate 32 0 @ replicate 8 255 @
     [0, 0, 0, 0, 0, 0, 0, 0, 0, 0, 64, 0, 0, 0, 0, 0]"

definition demo_waiting :: "(unit, u64 list, unit) kernel" where
  "demo_waiting = demo_boot\<lparr>k_yielding := Some (Y_LoadTa [2] Login_Public no_params 0 0)\<rparr>"

lemma demo_waits: "handle demo_env demo_boot (demo_open [2]) = Ret (Rpc (Rpc_LoadTa [2])) demo_waiting"
  by (simp add: demo_simps step_simps demo_waiting_def replicate_unroll)

lemma demo_waiting_reach: "reach demo_env 2 demo_waiting"
proof -
  have "reach demo_env (Suc 0) demo_boot"
    using reach.step [OF reach.init [of demo_env "()"]] kstep.reg_early [of "kernel_new demo_env ()" demo_env]
    by (simp add: demo_boot_def kernel_new_def Let_def)
  from reach.step [OF this kstep.cmd_ret [OF demo_waits]] show ?thesis by (simp add: numeral_eq_Suc)
qed

theorem kernel_never_crashes_witness:
  "handle demo_env demo_waiting (RpcComplete (Resp_LoadTa bad_elf)) = Crash \<and>
   load_image (e_crypto demo_env) (e_pubkey demo_env) bad_elf = Panic"
proof -
  have "find_ta_head bad_elf = Panic"
    by (simp add: bad_elf_def replicate_unroll find_ta_head_def elf64_section_def res_simps RTAH_MAGIC_def
        from_le_bytes_def ELF_MAGIC_def usize_add_def usize_mul_def USIZE_MAX_def)
  then have l: "load_image (e_crypto demo_env) (e_pubkey demo_env) bad_elf = Panic"
    by (simp add: load_image_def parse_elf_def has_rtsg_magic_def bad_elf_def from_le_bytes_def RTSG_MAGIC_def)
  then have c: "handle demo_env demo_waiting (RpcComplete (Resp_LoadTa bad_elf)) = Crash"
    by (simp add: demo_waiting_def demo_simps handle_def rpc_complete_def load_ta_def cancelled_def Let_def)
  with kernel_never_crashes [OF demo_waiting_reach _ c] l show ?thesis by simp
qed

section \<open>Panics, notices, cancellation\<close>








text \<open>The notices gate: on a HAL whose entropy comes from the REE, a fresh kernel refuses every
  command with \<open>TEE_ERROR_SECURITY\<close> and without any effect, and goes on refusing until both lines
  have been written to the console.\<close>

lemma notices_gate:
  assumes "hal_entropy_origin (e_hal E) h = ReeHost"
    and "emit_ree_notices writeln con n (kernel_new E h) = (ok, con', k')"
  shows "handle E (kernel_new E h) cmd = Ret (done_err TEE_ERROR_SECURITY) (kernel_new E h) \<and>
    (ok \<longleftrightarrow> (\<exists>con1. writeln (case n of Some l \<Rightarrow> fst l | None \<Rightarrow> VIRT_ENTROPY_NOTICE) con = (con1, True) \<and>
                   writeln (case n of Some l \<Rightarrow> snd l | None \<Rightarrow> VIRT_HUK_NOTICE) con1 = (con', True))) \<and>
    k' = (if ok then (kernel_new E h)\<lparr>k_notices_ok := True\<rparr> else kernel_new E h) \<and>
    (\<not> ok \<longrightarrow> handle E k' cmd = Ret (done_err TEE_ERROR_SECURITY) k')"
proof -
  have o: "k_entropy_origin (kernel_new E h) = ReeHost" "\<not> k_notices_ok (kernel_new E h)"
    using assms(1) by (simp_all add: kernel_new_def Let_def)
  define l where "l = (case n of Some l \<Rightarrow> l | None \<Rightarrow> (VIRT_ENTROPY_NOTICE, VIRT_HUK_NOTICE))"
  have l: "(case n of Some l \<Rightarrow> fst l | None \<Rightarrow> VIRT_ENTROPY_NOTICE) = fst l"
    "(case n of Some l \<Rightarrow> snd l | None \<Rightarrow> VIRT_HUK_NOTICE) = snd l"
    by (simp_all add: l_def split: option.splits)
  have refuse: "handle E k cmd = Ret (done_err TEE_ERROR_SECURITY) k" if "\<not> k_notices_ok k" for k
    using that by (simp add: handle_def)
  from assms(2) o show ?thesis
    unfolding l
    by (auto simp: emit_ree_notices_def refuse simp flip: l_def split: if_splits prod.splits)
qed

text \<open>C14. A cancellation is for ever: once \<open>Cancel c\<close> has been handled, every later opening or
  invocation with the cancellation identifier \<open>c\<close>, however many commands and panics later, is
  answered with \<open>TEE_ERROR_CANCEL\<close> and changes nothing.\<close>

theorem cancel_permanent:
  assumes "k_notices_ok k" and "handle E k (Cancel c) = Ret out k1" and "(kstep E)\<^sup>*\<^sup>* k1 k2"
  shows "out = done_err TEE_SUCCESS \<and>
    handle E k2 (OpenSession u login ps c t) = Ret (done_err TEE_ERROR_CANCEL) k2 \<and>
    handle E k2 (Invoke sid f ps c t) = Ret (done_err TEE_ERROR_CANCEL) k2"
proof -
  have "out = done_err TEE_SUCCESS" "c \<in> set (k_cancelled k1)" "k_notices_ok k1"
    using assms(1,2) by (auto simp: handle_def)
  moreover have "grows k1 k2" using assms(3) by (rule ksteps_grow)
  ultimately show ?thesis
    by (auto simp: handle_def open_session_def invoke_def cancelled_def grows_def)
qed

theorem cancel_permanent_witness:
  "\<exists>k1 k2. handle demo_env demo_boot (Cancel 7) = Ret (done_err TEE_SUCCESS) k1 \<and>
     handle demo_env k1 (Cancel 8) = Ret (done_err TEE_SUCCESS) k2 \<and>
     handle demo_env k2 (OpenSession [1] Login_Public no_params 7 0) = Ret (done_err TEE_ERROR_CANCEL) k2"
proof -
  let ?k1 = "demo_boot\<lparr>k_cancelled := [7]\<rparr>"
  let ?k2 = "demo_boot\<lparr>k_cancelled := [7, 8]\<rparr>"
  have b: "k_notices_ok demo_boot" by (simp add: demo_simps)
  have s: "handle demo_env demo_boot (Cancel 7) = Ret (done_err TEE_SUCCESS) ?k1"
    "handle demo_env ?k1 (Cancel 8) = Ret (done_err TEE_SUCCESS) ?k2"
    by (simp_all add: handle_def b demo_simps)
  then have "(kstep demo_env)\<^sup>*\<^sup>* ?k1 ?k2" by (blast intro: kstep.cmd_ret)
  with cancel_permanent [OF b s(1)] s show ?thesis by blast
qed

section \<open>Loading over RPC\<close>

text \<open>C15. One outstanding load: the kernel asks for an image only when opening a session of a UUID
  that is neither a live single-instance application nor an early application, with no load
  outstanding, and remembers the call; while it waits, another opening that would need a load is
  answered \<open>TEE_ERROR_BUSY\<close>; a completion ends the wait whatever it brings; a completion that
  nobody waits for is refused.\<close>

theorem load_protocol:
  assumes "k_notices_ok k"
  shows "(\<forall>cmd r k'. handle E k cmd = Ret (Rpc r) k' \<longrightarrow>
            k_yielding k = None \<and>
            (\<exists>u login ps c t. cmd = OpenSession u login ps c t \<and> r = Rpc_LoadTa u \<and>
               early_get (k_early k) u = None \<and> live_single (k_instances k) u = None \<and>
               k' = k\<lparr>k_yielding := Some (Y_LoadTa u login ps c t)\<rparr>)) \<and>
    (\<forall>u login ps c t. k_yielding k \<noteq> None \<and> \<not> cancelled k c \<and>
       pta_get_mut E (k_ptas k) u = None \<and> early_get (k_early k) u = None \<and>
       live_single (k_instances k) u = None \<longrightarrow>
       handle E k (OpenSession u login ps c t) = Ret (done_err TEE_ERROR_BUSY) k) \<and>
    (\<forall>resp out k'. handle E k (RpcComplete resp) = Ret out k' \<longrightarrow> k_yielding k' = None) \<and>
    (\<forall>resp. k_yielding k = None \<longrightarrow>
       handle E k (RpcComplete resp) = Ret (done_err TEE_ERROR_BAD_PARAMETERS) k)"
proof -
  have "k_yielding k = None \<and>
     (\<exists>u login ps c t. cmd = OpenSession u login ps c t \<and> r = Rpc_LoadTa u \<and>
        early_get (k_early k) u = None \<and> live_single (k_instances k) u = None \<and>
        k' = k\<lparr>k_yielding := Some (Y_LoadTa u login ps c t)\<rparr>)"
    if h: "handle E k cmd = Ret (Rpc r) k'" for cmd r k'
  proof -
    have na: "\<not> answers (handle E k cmd)" using h by simp
    then obtain u login ps c t where cmd: "cmd = OpenSession u login ps c t"
      using assms by (cases cmd) (auto simp: handle_def)
    with na answers_open [of E k u login ps c t] h assms show ?thesis by (auto simp: handle_def)
  qed
  moreover have "k_yielding k' = None" if "handle E k (RpcComplete resp) = Ret out k'" for resp out k'
    using that assms rpc_complete_keeps [of k E resp] by (simp add: handle_def static_def)
  ultimately show ?thesis
    using assms by (simp add: handle_def open_session_def open_user_ta_def cancelled_def rpc_complete_def)
qed

theorem load_protocol_witness:
  "handle demo_env demo_boot (demo_open [2]) = Ret (Rpc (Rpc_LoadTa [2])) demo_waiting \<and>
   handle demo_env demo_waiting (demo_open [3]) = Ret (done_err TEE_ERROR_BUSY) demo_waiting"
proof -
  have "k_notices_ok demo_waiting" "k_yielding demo_waiting \<noteq> None"
    "pta_get_mut demo_env (k_ptas demo_waiting) [3] = None" "\<not> cancelled demo_waiting 0"
    "early_get (k_early demo_waiting) [3] = None" "live_single (k_instances demo_waiting) [3] = None"
    by (simp_all add: demo_waiting_def demo_simps pta_get_mut_def cancelled_def live_single_def)
  with load_protocol [of demo_waiting demo_env] demo_waits show ?thesis by (simp add: demo_open_def)
qed

text \<open>C16. What a load must bring to open a session: a load was outstanding and not cancelled in the
  meantime, the answer was an image, \<open>load_image\<close> accepted it, its header is valid and names the
  UUID that was asked for. And it was not a signed envelope: no signed image ever opens a session.\<close>

theorem load_opens:
  assumes "handle E k (RpcComplete resp) = Ret (Done r (Some sid) ps') k'"
  shows "\<exists>u login ps c t b l. k_yielding k = Some (Y_LoadTa u login ps c t) \<and> \<not> cancelled k c \<and>
    resp = Resp_LoadTa b \<and> load_image (e_crypto E) (e_pubkey E) b = Ok l \<and>
    validate (ld_props l) = Ok () \<and> tp_uuid (ld_props l) = u \<and> \<not> has_rtsg_magic b"
proof -
  have "rpc_complete E k resp = Ret (Done r (Some sid) ps') k'"
    using assms by (auto simp: handle_def done_err_def split: if_splits)
  then obtain u login ps c t b where y: "k_yielding k = Some (Y_LoadTa u login ps c t)" "\<not> cancelled k c"
    "resp = Resp_LoadTa b"
    and l: "load_ta E (k\<lparr>k_yielding := None\<rparr>) u login ps b = Ret (Done r (Some sid) ps') k'"
    by (auto simp: rpc_complete_def done_err_def Let_def cancelled_def
        split: option.splits yielding.splits rpc_response.splits if_splits)
  obtain a h where a: "hal_new_address_space (e_hal E) (k_hal k) = (a, h)" by fastforce
  obtain m a' where m: "map_elf (e_hal E) a b = (m, a')" by fastforce
  from l a m obtain l' where l': "load_image (e_crypto E) (e_pubkey E) b = Ok l'" "tp_uuid (ld_props l') = u"
    "\<exists>e. m = Ok e"
    by (auto simp: load_ta_def done_err_def Let_def split: res.splits if_splits)
  have "\<not> has_rtsg_magic b"
    using m l'(3) signed_not_elf [of b] by (auto simp: map_elf_def)
  moreover have "validate (ld_props l') = Ok ()"
    using l'(1) by (auto simp: load_image_def Let_def dest: parse_elf_props split: if_splits)
  ultimately show ?thesis using y l' by blast
qed

definition load_props :: ta_properties where
  "load_props = demo_props\<lparr>tp_uuid := replicate 16 7\<rparr>"

lemma load_props_uuid: "tp_uuid load_props = replicate 16 7"
  by (simp add: load_props_def)

lemma raw_head_loads:
  "load_image c key (encode_ta_head load_props) = Ok \<lparr>ld_props = load_props, ld_symbols = None\<rparr>"
  "map_elf H a (encode_ta_head load_props) = (Ok None, a)"
proof -
  have wf: "wf_props load_props" by (simp add: load_props_def demo_props_def wf_props_def)
  have len: "length (encode_ta_head load_props) = 40"
    by (simp add: encode_ta_head_def load_props_def)
  have magic: "(from_le_bytes (take 4 (encode_ta_head load_props)) :: u32) = RTAH_MAGIC"
    by (simp add: encode_ta_head_def)
  have p: "parse_ta_head (encode_ta_head load_props) = Ok load_props"
    using parse_encode_ta_head [OF wf, of "[]"]
    by (simp add: validate_def load_props_def demo_props_def)
  have e: "parse_elf (encode_ta_head load_props) =
      Ok \<lparr>ei_bytes = encode_ta_head load_props, ei_props = load_props, ei_segs = [], ei_symbols = None\<rparr>"
    using len magic p by (simp add: parse_elf_def find_ta_head_def res_simps)
  show "load_image c key (encode_ta_head load_props) = Ok \<lparr>ld_props = load_props, ld_symbols = None\<rparr>"
    using e magic len by (simp add: load_image_def has_rtsg_magic_def RTAH_MAGIC_def RTSG_MAGIC_def)
  show "map_elf H a (encode_ta_head load_props) = (Ok None, a)"
    using e by (simp add: map_elf_def bind_symbols_def)
qed

theorem load_opens_witness:
  "\<exists>k'. handle demo_env (demo_boot\<lparr>k_yielding := Some (Y_LoadTa (replicate 16 7) Login_Public no_params 0 0)\<rparr>)
          (RpcComplete (Resp_LoadTa (encode_ta_head load_props))) = Ret (Done TeeResult_ok (Some 1) no_params) k' \<and>
     \<not> has_rtsg_magic (encode_ta_head load_props)"
proof -
  let ?k = "demo_boot\<lparr>k_yielding := Some (Y_LoadTa (replicate 16 7) Login_Public no_params 0 0)\<rparr>"
  obtain k' where k': "handle demo_env ?k (RpcComplete (Resp_LoadTa (encode_ta_head load_props))) =
      Ret (Done TeeResult_ok (Some 1) no_params) k'"
    by (simp add: demo_simps step_simps rpc_complete_def load_ta_def raw_head_loads load_props_uuid
        replicate_unroll)
  with load_opens [OF k'] show ?thesis by blast
qed

end
