(* ===== verification/Kernel_Calls.thy ===== *)
theory Kernel_Calls
  imports Kernel_Props
begin

text \<open>
  What the calls of the kernel do to memory and to the tables: which shared memory a trusted
  application gets to see through its parameters, what opening a session adds, what closing it
  removes, and the two ways an instance can be lost.
\<close>

section \<open>Parameters and shared memory\<close>

text \<open>
  What the kernel relies on when it maps the shared-memory parameters of a call: synchronising does
  not change the registrations, a registration is shorter than the address space, and a mapped
  registration is \<open>placed\<close> at the address returned, as long as the address space is one of this HAL
  (\<open>as_inv\<close>).
\<close>

locale shm_contract =
  fixes H :: "('h, 'a, 's) hal_ops"
    and inv :: "'h \<Rightarrow> bool"
    and as_inv :: "'a \<Rightarrow> bool"
    and placed :: "'s \<Rightarrow> u64 \<Rightarrow> bool"
  assumes sync_keeps: "inv h \<Longrightarrow> hal_sync_in H h ck = Some (r, h') \<Longrightarrow>
      inv h' \<and> hal_lookup_shm H h' = hal_lookup_shm H h"
    and len_bound: "inv h \<Longrightarrow> hal_lookup_shm H h ck = Some s \<Longrightarrow> shm_len H s < USIZE_MAX"
    and map_placed: "as_inv a \<Longrightarrow> shm_map_into H s a p = (Inr va, a') \<Longrightarrow> as_inv a' \<and> placed s va"
begin

text \<open>What mapping makes of one parameter.\<close>

definition mapped_as :: "'h \<Rightarrow> param \<Rightarrow> param_raw \<times> u64 option \<Rightarrow> param_raw \<times> u64 option \<Rightarrow> bool" where
  "mapped_as h p rv rv' \<longleftrightarrow>
     (case p of
        PMemref (Ree ck offs) sz d \<Rightarrow>
          (\<exists>shm va. hal_lookup_shm H h ck = Some shm \<and> offs + sz \<le> shm_len H shm \<and> placed shm va \<and>
             rv' = (memref_raw (va + word_of_nat offs) sz, Some va))
      | _ \<Rightarrow> rv' = rv)"

lemma sync_param_in_keeps:
  "e_hal E = H \<Longrightarrow> inv (k_hal k) \<Longrightarrow> sync_param_in E k ck d = (r, k') \<Longrightarrow>
   inv (k_hal k') \<and> hal_lookup_shm H (k_hal k') = hal_lookup_shm H (k_hal k)"
  by (auto simp: sync_param_in_def dest: sync_keeps split: if_splits option.splits prod.splits sum.splits)

lemma map_loop_memref:
  assumes "e_hal E = H" and "ps ! i = PMemref (Ree ck offs) sz d"
    and "map_loop E iid ps (i # is) k a raw vas = (Ok (raw', vas'), k')"
  obtains k1 shm va a' where "sync_param_in E k ck d = (Ok (), k1)"
    "hal_lookup_shm H (k_hal k1) ck = Some shm" "saturating_add offs sz \<le> shm_len H shm"
    "shm_map_into H shm a (dir_perms d) = (Inr va, a')"
    "map_loop E iid ps is k1 a' (raw[i := memref_raw (va + word_of_nat offs) sz]) (vas[i := Some va]) =
       (Ok (raw', vas'), k')"
  using assms
  by (fastforce split: prod.splits res.splits option.splits if_splits sum.splits)

lemma map_loop_spec:
  assumes E: "e_hal E = H"
  shows "map_loop E iid ps is k a raw vas = (Ok (raw', vas'), k') \<Longrightarrow> distinct is \<Longrightarrow>
    inv (k_hal k) \<Longrightarrow> as_inv a \<Longrightarrow> \<forall>i \<in> set is. i < length raw \<and> i < length vas \<Longrightarrow>
    length raw' = length raw \<and> length vas' = length vas \<and>
    (\<forall>i. i \<notin> set is \<longrightarrow> raw' ! i = raw ! i \<and> vas' ! i = vas ! i) \<and>
    (\<forall>i \<in> set is. mapped_as (k_hal k) (ps ! i) (raw ! i, vas ! i) (raw' ! i, vas' ! i))"
proof (induction "is" arbitrary: k a raw vas)
  case Nil
  then show ?case by (simp split: option.splits)
next
  case (Cons i "is")
  show ?case
  proof (cases "\<exists>ck offs sz d. ps ! i = PMemref (Ree ck offs) sz d")
    case False
    then have skip: "map_loop E iid ps (i # is) k a raw vas = map_loop E iid ps is k a raw vas"
      "mapped_as h (ps ! i) rv rv' = (rv' = rv)" for h rv rv'
      by (auto simp: mapped_as_def split: param.splits memref_src.splits)
    with Cons.IH [of k a raw vas] Cons.prems show ?thesis by auto
  next
    case True
    then obtain ck offs sz d where p: "ps ! i = PMemref (Ree ck offs) sz d" by blast
    from map_loop_memref [OF E this Cons.prems(1)] obtain k1 shm va a' where
      sync: "sync_param_in E k ck d = (Ok (), k1)" and
      shm: "hal_lookup_shm H (k_hal k1) ck = Some shm" "saturating_add offs sz \<le> shm_len H shm"
        "shm_map_into H shm a (dir_perms d) = (Inr va, a')" and
      rest: "map_loop E iid ps is k1 a' (raw[i := memref_raw (va + word_of_nat offs) sz]) (vas[i := Some va]) =
        (Ok (raw', vas'), k')" .
    have k1: "inv (k_hal k1)" "hal_lookup_shm H (k_hal k1) = hal_lookup_shm H (k_hal k)"
      using sync_param_in_keeps [OF E Cons.prems(3) sync] by auto
    have a': "as_inv a'" "placed shm va" using map_placed [OF Cons.prems(4) shm(3)] by auto
    have m: "mapped_as (k_hal k1) = mapped_as (k_hal k)"
      by (simp add: mapped_as_def fun_eq_iff k1 split: param.splits memref_src.splits)
    have "offs + sz \<le> shm_len H shm"
      using shm(2) len_bound [OF k1(1) shm(1)] by (auto simp: saturating_add_def)
    with shm(1) k1(2) a'(2) have here: "mapped_as (k_hal k) (ps ! i) rv
        (memref_raw (va + word_of_nat offs) sz, Some va)" for rv
      unfolding mapped_as_def p by auto
    have ne: "i \<noteq> j" if "j \<in> set is" for j using Cons.prems(2) that by auto
    from Cons.IH [OF rest] Cons.prems(2,5) k1(1) a'(1) here show ?thesis
      unfolding m by (auto simp: nth_list_update ne)
  qed
qed

lemma memrefs_inside:
  assumes "e_hal E = H" and "inv (k_hal k)"
    and "instance_get (k_instances k) iid = Some x" and "i_aspace x = Some a" and "as_inv a"
    and "map_params E k iid ps = (Ok (raw, vas), k')" and "length ps = PARAM_COUNT" and "i < PARAM_COUNT"
  shows "case ps ! i of
      PMemref (Ree ck offs) sz d \<Rightarrow>
        (\<exists>shm va. hal_lookup_shm H (k_hal k) ck = Some shm \<and> offs + sz \<le> shm_len H shm \<and> placed shm va \<and>
           raw ! i = memref_raw (va + word_of_nat offs) sz \<and> vas ! i = Some va)
    | _ \<Rightarrow> raw ! i = param_to_raw (ps ! i) \<and> vas ! i = None"
proof -
  obtain k1 where t: "take_aspace k iid = (Some a, k1)" "k_hal k1 = k_hal k"
    using assms(3,4) by (simp add: take_aspace_def)
  then have "map_loop E iid ps [0..<PARAM_COUNT] k1 a (params_to_raw ps)
      (replicate PARAM_COUNT None) = (Ok (raw, vas), k')"
    using assms(6) by (simp add: map_params_def Let_def)
  from map_loop_spec [OF assms(1) this] assms t(2)
  have "mapped_as (k_hal k) (ps ! i) (param_to_raw (ps ! i), None) (raw ! i, vas ! i)"
    by (simp add: params_to_raw_def)
  then show ?thesis
    unfolding mapped_as_def by (fastforce split: param.splits memref_src.splits)
qed

end

section \<open>Opening\<close>

text \<open>The table after an answer with a session: the session that was added.\<close>

definition opened ::
  "uuid \<Rightarrow> login \<Rightarrow> session_table \<Rightarrow> session_id \<Rightarrow> session_table \<Rightarrow> bool" where
  "opened u login t sid t' \<longleftrightarrow>
     (\<exists>s. session_alloc t s = (Some sid, t') \<and> s_uuid s = u \<and> s_client s = login \<and> s_state s = S_Ready)"

fun opens :: "uuid \<Rightarrow> login \<Rightarrow> session_table \<Rightarrow> ('h, 'a, 'p) kernel outcome \<Rightarrow> bool" where
  "opens u login t (Ret (Done r (Some sid) ps) k') = opened u login t sid (k_sessions k')"
| "opens u login t r = True"

lemma opens_none [simp]: "opens u login t (Ret (Done r None ps) k)" "opens u login t (Ret (done_err e) k)"
  by (simp_all add: done_err_def)

lemma opens_then_do:
  assumes "opens u login t r" and "\<And>k. k_sessions (g k) = k_sessions k"
  shows "opens u login t (then_do r g)"
  using assms by (cases "(u, login, t, r)" rule: opens.cases) auto

lemma opens_add: "k_sessions k = t \<Longrightarrow> opens u login t (add_session k i u login ctx ps)"
  by (auto simp: add_session_def Let_def opened_def split: prod.splits option.splits)

lemma opens_bind: "opens u login (k_sessions k) (bind_session E k i u login ps)"
proof (cases "instance_entries k i")
  case None
  then show ?thesis by (simp add: bind_session_def opens_add)
next
  case (Some ep)
  then have i: "inst k i \<noteq> None" by (auto simp: instance_entries_def bind_eq_Some_conv)
  obtain r k1 where m: "map_params E k i ps = (r, k1)" by fastforce
  then have s1: "k_sessions k1 = k_sessions k"
    using map_params_frame [OF m i] by (simp add: frame_def same_core_def)
  have s2: "k_sessions (unmap_params E k2 i ps' vas) = k_sessions k2" for k2 ps' vas
    using unmap_params_frame [of k2 E i ps' vas] by (simp add: frame_def same_core_def)
  from Some m s1 s2 show ?thesis
    by (auto simp: bind_session_def Let_def opens_add split: res.splits prod.splits option.splits)
qed

lemma opens_bind_unlock:
  "k_sessions k2 = t \<Longrightarrow> opens u login t (then_do (bind_session E k2 i u login ps) (unlock_instance i))"
  using opens_bind [of u login k2 E i ps] by (intro opens_then_do) (auto simp: unlock_instance_def)

lemma lock_sessions: "lock_instance k i = (r, k') \<Longrightarrow> k_sessions k' = k_sessions k"
  by (auto simp: lock_instance_def split: option.splits if_splits)

lemma call_create_sessions: "call_create E k i en = (c, k') \<Longrightarrow> k_sessions k' = k_sessions k"
  by (auto simp: call_create_def Let_def split: option.splits)

lemma opens_instantiate: "opens u login (k_sessions k) (instantiate_and_bind E k pr u login ps en a)"
proof -
  obtain a' k0 where a': "(case a of Some a \<Rightarrow> (a, k)
      | None \<Rightarrow> let (a, h) = hal_new_address_space (e_hal E) (k_hal k) in (a, k\<lparr>k_hal := h\<rparr>)) = (a', k0)"
    by fastforce
  then have k0: "k_sessions k0 = k_sessions k" by (auto simp: Let_def split: option.splits prod.splits)
  have "opens u login (k_sessions k) (case lock_instance (k0\<lparr>k_instances := t\<rparr>) i of
      (Err e, k) \<Rightarrow> Ret (done_err e) (drop_instance i k)
    | (Panic, k) \<Rightarrow> Crash
    | (Ok _, k) \<Rightarrow>
        (case call_create E k i en of
           (None, k) \<Rightarrow> Trapped k
         | (Some code, k) \<Rightarrow>
             if code \<noteq> TEE_SUCCESS
             then Ret (Done (TeeResult_ta code) None ps) (drop_instance i (unlock_instance i k))
             else then_do (bind_session E k i u login ps) (unlock_instance i)))" for t i
    using k0
    by (auto split: option.splits prod.splits res.splits intro!: opens_bind_unlock
        dest!: lock_sessions call_create_sessions)
  with a' show ?thesis
    by (auto simp: instantiate_and_bind_def split: option.splits prod.splits)
qed

lemma opens_open: "opens u login (k_sessions k) (open_session E k u login ps c t)"
proof -
  have "opens u login (k_sessions k) (open_user_ta E k u login ps c t)"
    by (auto simp: open_user_ta_def opens_instantiate split: option.splits prod.splits res.splits
        intro!: opens_bind_unlock dest!: lock_sessions)
  moreover have "opens u login (k_sessions k) (open_pta E k p u login ps)" for p
    by (auto simp: open_pta_def Let_def opened_def split: option.splits prod.splits sum.splits)
  ultimately show ?thesis by (auto simp: open_session_def split: option.splits)
qed

lemma opens_load: "opens u login (k_sessions k) (load_ta E k u login ps b)"
  using opens_instantiate [of u login "k\<lparr>k_hal := h\<rparr>" for h]
  by (auto simp: load_ta_def Let_def split: res.splits prod.splits)

text \<open>C17. Opening adds exactly one session: when opening answers with a session identifier, in a
  reachable state, the identifier is new, the session table is the old one with that session added,
  which is ready and belongs to the UUID and client that asked, and no open session is lost.\<close>

theorem open_adds_session:
  assumes "reach E n k" and "n < 2 ^ 32 - 2"
    and "handle E k (OpenSession u login ps c t) = Ret (Done r (Some sid) ps') k'"
  shows "session_get (k_sessions k) sid = None \<and>
    (\<exists>s. session_get (k_sessions k') = (session_get (k_sessions k))(sid \<mapsto> s) \<and>
       s_id s = sid \<and> s_uuid s = u \<and> s_client s = login \<and> s_state s = S_Ready)"
proof -
  have ok: "tbl_ok s_id (k_sessions k)"
    using reach_kinv [OF assms(1,2)] by (simp add: kinv_def kcore_def tables_ok_def)
  have "open_session E k u login ps c t = Ret (Done r (Some sid) ps') k'"
    using assms(3) by (auto simp: handle_def done_err_def split: if_splits)
  with opens_open [of u login k E ps c t] obtain s where
    s: "session_alloc (k_sessions k) s = (Some sid, k_sessions k')" "s_uuid s = u" "s_client s = login"
      "s_state s = S_Ready"
    by (auto simp: opened_def)
  have "session_get (k_sessions k') = (session_get (k_sessions k))(sid \<mapsto> s\<lparr>s_id := sid\<rparr>)"
    by (rule ses.alloc_get [OF ok s(1)])
  moreover have "session_get (k_sessions k) sid = None"
    using ses.alloc_id [OF s(1)] ses.get_next [OF ok] by simp
  ultimately show ?thesis using s by auto
qed

theorem open_adds_session_witness:
  "reach demo_env 1 demo_boot \<and>
   handle demo_env demo_boot (demo_open [1]) = Ret (Done TeeResult_ok (Some 1) no_params) demo_ready \<and>
   session_get (k_sessions demo_boot) 1 = None"
proof -
  have r: "reach demo_env 1 demo_boot"
    using reach.step [OF reach.init [of demo_env "()"]] kstep.reg_early [of "kernel_new demo_env ()" demo_env]
    by (simp add: demo_boot_def kernel_new_def Let_def)
  from open_adds_session [OF r _ demo_opened [unfolded demo_open_def]] r demo_opened show ?thesis by simp
qed

section \<open>Closing\<close>

lemma call_destroy_tables:
  assumes "call_destroy E k i = Inr k'"
  shows "k_instances k' = k_instances k \<and> k_sessions k' = k_sessions k"
  using assms by (auto simp: call_destroy_def Let_def split: option.splits)

lemma call_close_tables:
  assumes "call_close E k i ctx = Inr k'"
  shows "k_instances k' = k_instances k \<and> k_sessions k' = k_sessions k"
  using assms by (auto simp: call_close_def Let_def split: option.splits)

lemma release_spec:
  assumes ok: "tbl_ok i_id (k_instances k)" and x: "inst k i = Some x"
    and r: "release_instance E k i = Ret out k'"
  shows "out = close_done \<and> k_sessions k' = k_sessions k \<and>
    inst k' = (inst k)(i := if u16_dec (i_session_count x) = 0 \<and> \<not> tp_instance_keep_alive (i_props x)
      then None else Some (x\<lparr>i_session_count := u16_dec (i_session_count x), i_busy := False\<rparr>))"
proof -
  let ?t = "instance_update (k_instances k) i (\<lambda>x. x\<lparr>i_session_count := u16_dec (i_session_count x)\<rparr>)"
  have get: "instance_get ?t i = Some (x\<lparr>i_session_count := u16_dec (i_session_count x)\<rparr>)" using x by simp
  show ?thesis
  proof (cases "u16_dec (i_session_count x) = 0 \<and> \<not> tp_instance_keep_alive (i_props x)")
    case True
    with r get obtain k1 where d: "call_destroy E (k\<lparr>k_instances := ?t\<rparr>) i = Inr k1"
      and k': "out = close_done"
        "k' = drop_instance i (k1\<lparr>k_instances := instance_update (k_instances k1) i kill_instance\<rparr>)"
      by (auto simp: release_instance_def split: sum.splits)
    from call_destroy_tables [OF d] have t1: "k_instances k1 = ?t" "k_sessions k1 = k_sessions k" by auto
    have "tbl_ok i_id (instance_update ?t i kill_instance)"
      using ok by (simp add: ins.update_ok)
    from ins.take_get [OF this, of i] have "inst k' = (instance_get (instance_update ?t i kill_instance))(i := None)"
      by (simp add: k' drop_instance_def t1)
    with True k' t1 show ?thesis by (auto simp: drop_instance_def fun_eq_iff)
  next
    case False
    with r get have k': "out = close_done" "k' = unlock_instance i (k\<lparr>k_instances := ?t\<rparr>)"
      by (auto simp: release_instance_def)
    with False x show ?thesis by (auto simp: unlock_instance_def fun_eq_iff)
  qed
qed

text \<open>C18. Closing a session of a live instance, in a reachable state: when the application's entry
  points return, the answer is success, exactly this session is gone, and the instance counts one
  session less, or is gone together with its last session unless it is to be kept alive; every
  other instance is untouched.\<close>

theorem close_releases:
  assumes "reach E n k" and "n < 2 ^ 32 - 2"
    and "session_get (k_sessions k) sid = Some s" and "s_instance s = Some i"
    and "instance_get (k_instances k) i = Some x" and "i_state x = I_Live"
    and "handle E k (CloseSession sid) = Ret out k'" and "k_notices_ok k"
  shows "out = Done TeeResult_ok None no_params \<and>
    session_get (k_sessions k') = (session_get (k_sessions k))(sid := None) \<and>
    instance_get (k_instances k') = (instance_get (k_instances k))(i :=
      if i_session_count x = 1 \<and> \<not> tp_instance_keep_alive (i_props x) then None
      else Some (x\<lparr>i_session_count := i_session_count x - 1\<rparr>))"
proof -
  have k: "kinv k" using reach_kinv [OF assms(1,2)] by blast
  then have tab: "tbl_ok s_id (k_sessions k)" "tbl_ok i_id (k_instances k)"
    by (auto simp: kinv_def kcore_def tables_ok_def)
  have "sess_ok k s" using k assms(3) by (auto simp: kinv_def kcore_def)
  with assms(4) have kind: "s_kind s = UserTa"
    by (auto simp: sess_ok_def split: session_kind.splits)
  have ok: "inst_ok None None k i x" using k assms(5) by (simp add: kinv_def kcore_def)
  with assms(6) have busy: "\<not> i_busy x" and cnt: "unat (i_session_count x) = n_sess k i"
    by (auto simp: inst_ok_def)
  have "sid \<in> sessions_of k i" using assms(3,4) by (simp add: sessions_of_def)
  with cnt have "unat (i_session_count x) \<noteq> 0"
    using finite_sessions_of [of k i] by (auto simp: n_sess_def)
  then have dec: "u16_dec (i_session_count x) = i_session_count x - 1" by (auto simp: u16_dec_def)
  obtain t where take: "session_take (k_sessions k) sid = (Some s, t)"
    using ses.take_fst [of "k_sessions k" sid] assms(3) by (metis prod.collapse)
  let ?k1 = "k\<lparr>k_sessions := t,
    k_instances := instance_update (k_instances k) i (\<lambda>x. x\<lparr>i_busy := True\<rparr>)\<rparr>"
  have "close_user_ta E (k\<lparr>k_sessions := t\<rparr>) s = Ret out k'"
    using assms(7,8) take kind by (simp add: handle_def close_session_def)
  then obtain k2 where c: "call_close E ?k1 i (s_ta_sess_ctx s) = Inr k2"
    and r: "release_instance E k2 i = Ret out k'"
    using assms(4,5) busy by (auto simp: close_user_ta_def lock_instance_def split: sum.splits)
  from call_close_tables [OF c] have k2: "k_sessions k2 = t" "k_instances k2 = k_instances ?k1" by auto
  have ok2: "tbl_ok i_id (k_instances k2)" using tab(2) by (simp add: k2 ins.update_ok)
  have x2: "inst k2 i = Some (x\<lparr>i_busy := True\<rparr>)" using assms(5) by (simp add: k2)
  from release_spec [OF ok2 x2 r] have "out = close_done" "k_sessions k' = t"
    "inst k' = (inst k2)(i := if u16_dec (i_session_count x) = 0 \<and> \<not> tp_instance_keep_alive (i_props x)
      then None else Some (x\<lparr>i_session_count := u16_dec (i_session_count x), i_busy := False\<rparr>))"
    by (auto simp: k2)
  moreover have "session_get t = (sess k)(sid := None)"
    using ses.take_get [OF tab(1), of sid] take by simp
  moreover have "(x\<lparr>i_session_count := c, i_busy := False\<rparr>) = x\<lparr>i_session_count := c\<rparr>" for c
    using busy by (cases x) simp
  moreover have "i_session_count x - 1 = 0 \<longleftrightarrow> i_session_count x = 1" by simp
  ultimately show ?thesis by (auto simp: dec k2 close_done_def fun_eq_iff)
qed

theorem close_releases_witness:
  "\<exists>k'. handle demo_env demo_ready (CloseSession 1) = Ret (Done TeeResult_ok None no_params) k' \<and>
     session_get (k_sessions k') 1 = None \<and> instance_get (k_instances k') 1 = None"
proof -
  obtain out k' where h: "handle demo_env demo_ready (CloseSession 1) = Ret out k'"
    by (simp add: demo_simps step_simps close_session_def tbl_take_def close_user_ta_def call_close_def
        release_instance_def call_destroy_def drop_instance_def u16_dec_def)
  have "session_get (k_sessions demo_ready) 1 = Some demo_sess" "s_instance demo_sess = Some 1"
    "instance_get (k_instances demo_ready) 1 = Some demo_inst" "i_state demo_inst = I_Live"
    "k_notices_ok demo_ready"
    by (simp_all add: demo_simps tbl_get_def)
  from close_releases [OF demo_reach _ this(1-4) h this(5)] h show ?thesis
    by (auto simp: demo_inst_def demo_props_def)
qed

text \<open>The remains of a panic cannot be cleared: in a reachable state, closing a session of an
  instance whose application has panicked answers \<open>TEE_ERROR_BUSY\<close> and removes the session, but the
  dead instance keeps its slot of the table.\<close>

lemma dead_instance_kept:
  assumes "reach E n k" and "n < 2 ^ 32 - 2"
    and "session_get (k_sessions k) sid = Some s" and "s_instance s = Some i"
    and "instance_get (k_instances k) i = Some x" and "i_state x = I_Dead"
    and "k_notices_ok k"
  shows "\<exists>k'. handle E k (CloseSession sid) = Ret (done_err TEE_ERROR_BUSY) k' \<and>
    session_get (k_sessions k') = (session_get (k_sessions k))(sid := None) \<and>
    k_instances k' = k_instances k"
proof -
  have k: "kinv k" using reach_kinv [OF assms(1,2)] by blast
  then have tab: "tbl_ok s_id (k_sessions k)" by (simp add: kinv_def kcore_def tables_ok_def)
  have "sess_ok k s" using k assms(3) by (auto simp: kinv_def kcore_def)
  with assms(4) have kind: "s_kind s = UserTa" by (auto simp: sess_ok_def split: session_kind.splits)
  have "inst_ok None None k i x" using k assms(5) by (simp add: kinv_def kcore_def)
  with assms(6) have busy: "i_busy x" by (simp add: inst_ok_def)
  obtain t where take: "session_take (k_sessions k) sid = (Some s, t)"
    using ses.take_fst [of "k_sessions k" sid] assms(3) by (metis prod.collapse)
  have "handle E k (CloseSession sid) = Ret (done_err TEE_ERROR_BUSY) (k\<lparr>k_sessions := t\<rparr>)"
    using assms(4,5,7) take kind busy
    by (simp add: handle_def close_session_def close_user_ta_def lock_instance_def)
  moreover have "session_get t = (sess k)(sid := None)"
    using ses.take_get [OF tab, of sid] take by simp
  ultimately show ?thesis by simp
qed

section \<open>Losing an address space\<close>



end
