(* ===== verification/Msg_Proto.thy ===== *)
theory Msg_Proto
  imports Rust_Prelude
begin

text \<open>
  The wire formats of \<open>crates/rustee-proto/src/lib.rs\<close>: the eight-register \<open>CallFrame\<close> with its
  bounce-pool cookie in registers 1 and 2, the 16-byte PDU header, the message header and its
  parameters (\<open>MsgArgHdr\<close>, \<open>MsgParam\<close>), the placement of a message in the bounce pool
  (\<open>write_msg\<close>, \<open>decode_msg\<close>) and the locally answered fast calls. The theorems are the round
  trips of each codec, the exact set of inputs each decoder accepts, and the frame of
  \<open>write_msg\<close>: what it leaves alone in the pool.
\<close>

section \<open>Constants\<close>

definition CALLS_UID_WORDS :: "u32 list" where
  "CALLS_UID_WORDS = [0x384fb3e0, 0xe7f811e3, 0xaf630002, 0xa5d5c51b]"
definition OS_UUID_WORDS :: "u32 list" where
  "OS_UUID_WORDS = [0xe819d7df, 0x5ffe45e6, 0xa1133233, 0x49b219aa]"
definition OS_REVISION_MAJOR :: u32 where "OS_REVISION_MAJOR = 0"
definition OS_REVISION_MINOR :: u32 where "OS_REVISION_MINOR = 1"

definition BOUNCE_POOL_SIZE :: usize where "BOUNCE_POOL_SIZE = 16 * 1024 * 1024"
definition PDU_HDR_LEN :: usize where "PDU_HDR_LEN = 16"
definition CALL_FRAME_LEN :: usize where "CALL_FRAME_LEN = 64"
definition MSG_ARG_ALIGN :: usize where "MSG_ARG_ALIGN = 8"
definition MSG_ARG_HDR_SIZE :: usize where "MSG_ARG_HDR_SIZE = 32"
definition MSG_PARAM_SIZE :: usize where "MSG_PARAM_SIZE = 32"

definition KIND_ENTER :: u32 where "KIND_ENTER = 1"
definition KIND_RPC :: u32 where "KIND_RPC = 2"
definition KIND_COMPLETE :: u32 where "KIND_COMPLETE = 3"
definition KIND_RPC_REPLY :: u32 where "KIND_RPC_REPLY = 4"

definition PAGE_SIZE :: usize where "PAGE_SIZE = 4096"

definition MSG_CMD_OPEN_SESSION :: u32 where "MSG_CMD_OPEN_SESSION = 0"
definition MSG_CMD_INVOKE_COMMAND :: u32 where "MSG_CMD_INVOKE_COMMAND = 1"
definition MSG_CMD_CLOSE_SESSION :: u32 where "MSG_CMD_CLOSE_SESSION = 2"
definition MSG_CMD_CANCEL :: u32 where "MSG_CMD_CANCEL = 3"
definition MSG_CMD_REGISTER_SHM :: u32 where "MSG_CMD_REGISTER_SHM = 4"
definition MSG_CMD_UNREGISTER_SHM :: u32 where "MSG_CMD_UNREGISTER_SHM = 5"

definition ATTR_TYPE_NONE :: u64 where "ATTR_TYPE_NONE = 0x0"
definition ATTR_TYPE_VALUE_INPUT :: u64 where "ATTR_TYPE_VALUE_INPUT = 0x1"
definition ATTR_TYPE_VALUE_OUTPUT :: u64 where "ATTR_TYPE_VALUE_OUTPUT = 0x2"
definition ATTR_TYPE_VALUE_INOUT :: u64 where "ATTR_TYPE_VALUE_INOUT = 0x3"
definition ATTR_TYPE_RMEM_INPUT :: u64 where "ATTR_TYPE_RMEM_INPUT = 0x5"
definition ATTR_TYPE_TMEM_INPUT :: u64 where "ATTR_TYPE_TMEM_INPUT = 0x9"
definition ATTR_TYPE_TMEM_OUTPUT :: u64 where "ATTR_TYPE_TMEM_OUTPUT = 0xa"
definition ATTR_TYPE_TMEM_INOUT :: u64 where "ATTR_TYPE_TMEM_INOUT = 0xb"
definition ATTR_TYPE_MASK :: u64 where "ATTR_TYPE_MASK = 0xff"
definition ATTR_META :: u64 where "ATTR_META = push_bit 8 1"
definition MSG_LOGIN_PUBLIC :: u32 where "MSG_LOGIN_PUBLIC = 0"

definition RPC_CMD_LOAD_TA :: u32 where "RPC_CMD_LOAD_TA = 0"
definition RPC_CMD_FS :: u32 where "RPC_CMD_FS = 2"
definition RPC_CMD_GET_TIME :: u32 where "RPC_CMD_GET_TIME = 3"
definition RPC_FS_OPEN :: u32 where "RPC_FS_OPEN = 0"
definition RPC_FS_CREATE :: u32 where "RPC_FS_CREATE = 1"
definition RPC_FS_CLOSE :: u32 where "RPC_FS_CLOSE = 2"
definition RPC_FS_READ :: u32 where "RPC_FS_READ = 3"
definition RPC_FS_WRITE :: u32 where "RPC_FS_WRITE = 4"
definition RPC_FS_TRUNCATE :: u32 where "RPC_FS_TRUNCATE = 5"
definition RPC_FS_REMOVE :: u32 where "RPC_FS_REMOVE = 6"
definition RPC_FS_RENAME :: u32 where "RPC_FS_RENAME = 7"
definition RPC_FS_OPENDIR :: u32 where "RPC_FS_OPENDIR = 8"
definition RPC_FS_CLOSEDIR :: u32 where "RPC_FS_CLOSEDIR = 9"
definition RPC_FS_READDIR :: u32 where "RPC_FS_READDIR = 10"

definition SMC_CALLS_UID :: u32 where "SMC_CALLS_UID = 0xBF00FF01"
definition SMC_CALLS_REVISION :: u32 where "SMC_CALLS_REVISION = 0xBF00FF03"
definition SMC_GET_OS_UUID :: u32 where "SMC_GET_OS_UUID = 0xB2000000"
definition SMC_GET_OS_REVISION :: u32 where "SMC_GET_OS_REVISION = 0xB2000001"
definition SMC_GET_SHM_CONFIG :: u32 where "SMC_GET_SHM_CONFIG = 0xB2000007"
definition SMC_EXCHANGE_CAPABILITIES :: u32 where "SMC_EXCHANGE_CAPABILITIES = 0xB2000009"
definition SMC_GET_THREAD_COUNT :: u32 where "SMC_GET_THREAD_COUNT = 0xB200000F"
definition SMC_CALL_WITH_ARG :: u32 where "SMC_CALL_WITH_ARG = 0x32000004"
definition SMC_RETURN_FROM_RPC :: u32 where "SMC_RETURN_FROM_RPC = 0x32000003"
definition SMC_RETURN_OK :: u32 where "SMC_RETURN_OK = 0"
definition SMC_RETURN_ENOTAVAIL :: u32 where "SMC_RETURN_ENOTAVAIL = 7"

definition V0_SEC_CAPS :: u32 where
  "V0_SEC_CAPS = push_bit 1 1 OR push_bit 2 1 OR push_bit 4 1"

lemmas proto_len_defs =
  PDU_HDR_LEN_def CALL_FRAME_LEN_def MSG_ARG_ALIGN_def MSG_ARG_HDR_SIZE_def MSG_PARAM_SIZE_def
lemmas proto_kind_defs =
  KIND_ENTER_def KIND_RPC_def KIND_COMPLETE_def KIND_RPC_REPLY_def

lemmas attr_defs =
  ATTR_TYPE_NONE_def ATTR_TYPE_VALUE_INPUT_def ATTR_TYPE_VALUE_OUTPUT_def ATTR_TYPE_VALUE_INOUT_def
  ATTR_TYPE_RMEM_INPUT_def ATTR_TYPE_TMEM_INPUT_def ATTR_TYPE_TMEM_OUTPUT_def ATTR_TYPE_TMEM_INOUT_def
  ATTR_TYPE_MASK_def ATTR_META_def
lemmas msg_cmd_defs =
  MSG_CMD_OPEN_SESSION_def MSG_CMD_INVOKE_COMMAND_def MSG_CMD_CLOSE_SESSION_def MSG_CMD_CANCEL_def
  MSG_CMD_REGISTER_SHM_def MSG_CMD_UNREGISTER_SHM_def
lemmas rpc_cmd_defs = RPC_CMD_LOAD_TA_def RPC_CMD_FS_def RPC_CMD_GET_TIME_def
lemmas rpc_fs_defs =
  RPC_FS_OPEN_def RPC_FS_CREATE_def RPC_FS_CLOSE_def RPC_FS_READ_def RPC_FS_WRITE_def
  RPC_FS_TRUNCATE_def RPC_FS_REMOVE_def RPC_FS_RENAME_def RPC_FS_OPENDIR_def RPC_FS_CLOSEDIR_def
  RPC_FS_READDIR_def

datatype proto_error = Truncated | BadKind | BadAlign | BadCmd | BounceOob

section \<open>Call frames\<close>

text \<open>\<open>r\<close> is an array of eight registers: \<open>wf_frame\<close> is its length, fixed by the Rust type.\<close>

record call_frame =
  cf_r :: "u64 list"

definition wf_frame :: "call_frame \<Rightarrow> bool" where
  "wf_frame f \<longleftrightarrow> length (cf_r f) = 8"

definition CallFrame_default :: call_frame where
  "CallFrame_default = \<lparr>cf_r = replicate 8 0\<rparr>"

definition cookie :: "call_frame \<Rightarrow> u64" where
  "cookie f = push_bit 32 (cf_r f ! 1) OR (cf_r f ! 2 AND 0xffffffff)"

definition set_cookie :: "call_frame \<Rightarrow> u64 \<Rightarrow> call_frame" where
  "set_cookie f ck = f\<lparr>cf_r := (cf_r f)[1 := drop_bit 32 ck, 2 := ck AND 0xffffffff]\<rparr>"

definition yielding_enter :: "u64 \<Rightarrow> call_frame" where
  "yielding_enter ck =
     (let f = CallFrame_default in
      set_cookie (f\<lparr>cf_r := (cf_r f)[0 := ucast SMC_CALL_WITH_ARG]\<rparr>) ck)"

definition return_from_rpc :: "u64 \<Rightarrow> call_frame" where
  "return_from_rpc ck =
     (let f = CallFrame_default in
      set_cookie (f\<lparr>cf_r := (cf_r f)[0 := ucast SMC_RETURN_FROM_RPC]\<rparr>) ck)"

definition CallFrame_encode :: "call_frame \<Rightarrow> bytes" where
  "CallFrame_encode f = concat (map to_le_bytes (cf_r f))"

fun read_regs :: "bytes \<Rightarrow> nat list \<Rightarrow> (u64 list, 'e) res" where
  "read_regs b [] = Ok []"
| "read_regs b (i # is) =
     res_bind (read_le b (i * 8)) (\<lambda>w. res_bind (read_regs b is) (\<lambda>ws. Ok (w # ws)))"

definition CallFrame_decode :: "bytes \<Rightarrow> (call_frame, proto_error) res" where
  "CallFrame_decode b =
     (if length b < CALL_FRAME_LEN then Err Truncated
      else res_bind (read_regs b [0..<8]) (\<lambda>rs. Ok \<lparr>cf_r = rs\<rparr>))"

section \<open>PDU header\<close>

record pdu_header =
  pdu_kind :: u32
  pdu_seq :: u32
  pdu_arg_len :: u32
  pdu_bounce_len :: u32

definition PduHeader_yielding :: "u32 \<Rightarrow> u32 \<Rightarrow> u32 \<Rightarrow> pdu_header" where
  "PduHeader_yielding kind seq bounce_len =
     \<lparr>pdu_kind = kind, pdu_seq = seq, pdu_arg_len = word_of_nat CALL_FRAME_LEN,
      pdu_bounce_len = bounce_len\<rparr>"

definition PduHeader_encode :: "pdu_header \<Rightarrow> bytes" where
  "PduHeader_encode h =
     to_le_bytes (pdu_kind h) @ to_le_bytes (pdu_seq h) @
     to_le_bytes (pdu_arg_len h) @ to_le_bytes (pdu_bounce_len h)"

definition valid_kind :: "u32 \<Rightarrow> bool" where
  "valid_kind k \<longleftrightarrow> k = KIND_ENTER \<or> k = KIND_RPC \<or> k = KIND_COMPLETE \<or> k = KIND_RPC_REPLY"

definition PduHeader_decode :: "bytes \<Rightarrow> (pdu_header, proto_error) res" where
  "PduHeader_decode b =
     (if length b < PDU_HDR_LEN then Err Truncated
      else res_bind (read_le b 0) (\<lambda>kind.
        if \<not> valid_kind kind then Err BadKind
        else res_bind (read_le b 8) (\<lambda>arg_len.
          if arg_len \<noteq> word_of_nat CALL_FRAME_LEN then Err Truncated
          else res_bind (read_le b 4) (\<lambda>seq.
            res_bind (read_le b 12) (\<lambda>bounce_len.
              Ok \<lparr>pdu_kind = kind, pdu_seq = seq, pdu_arg_len = arg_len,
                  pdu_bounce_len = bounce_len\<rparr>)))))"

section \<open>Messages\<close>

record msg_arg_hdr =
  msg_cmd :: u32
  msg_func :: u32
  msg_session :: u32
  msg_cancel_id :: u32
  msg_pad :: u32
  msg_ret :: u32
  msg_ret_origin :: u32
  msg_num_params :: u32

definition MsgArgHdr_default :: msg_arg_hdr where
  "MsgArgHdr_default =
     \<lparr>msg_cmd = 0, msg_func = 0, msg_session = 0, msg_cancel_id = 0, msg_pad = 0,
      msg_ret = 0, msg_ret_origin = 0, msg_num_params = 0\<rparr>"

record msg_param =
  mp_attr :: u64
  mp_a :: u64
  mp_b :: u64
  mp_c :: u64

definition MsgParam_default :: msg_param where
  "MsgParam_default = \<lparr>mp_attr = 0, mp_a = 0, mp_b = 0, mp_c = 0\<rparr>"

definition MsgParam_value :: "u64 \<Rightarrow> u64 \<Rightarrow> u64 \<Rightarrow> u64 \<Rightarrow> msg_param" where
  "MsgParam_value attr a b c = \<lparr>mp_attr = attr, mp_a = a, mp_b = b, mp_c = c\<rparr>"

definition MsgParam_tmem :: "u64 \<Rightarrow> u64 \<Rightarrow> u64 \<Rightarrow> u64 \<Rightarrow> msg_param" where
  "MsgParam_tmem attr buf_ptr sz shm_ref =
     \<lparr>mp_attr = attr, mp_a = buf_ptr, mp_b = sz, mp_c = shm_ref\<rparr>"

definition MsgParam_rmem :: "u64 \<Rightarrow> u64 \<Rightarrow> u64 \<Rightarrow> u64 \<Rightarrow> msg_param" where
  "MsgParam_rmem attr offs sz shm_ref =
     \<lparr>mp_attr = attr, mp_a = offs, mp_b = sz, mp_c = shm_ref\<rparr>"

definition MsgArgHdr_encode :: "msg_arg_hdr \<Rightarrow> bytes \<Rightarrow> (bytes, proto_error) res" where
  "MsgArgHdr_encode h out =
     (if length out < MSG_ARG_HDR_SIZE then Err Truncated
      else res_bind (write_le out 0 (msg_cmd h)) (\<lambda>out.
        res_bind (write_le out 4 (msg_func h)) (\<lambda>out.
        res_bind (write_le out 8 (msg_session h)) (\<lambda>out.
        res_bind (write_le out 12 (msg_cancel_id h)) (\<lambda>out.
        res_bind (write_le out 16 (msg_pad h)) (\<lambda>out.
        res_bind (write_le out 20 (msg_ret h)) (\<lambda>out.
        res_bind (write_le out 24 (msg_ret_origin h)) (\<lambda>out.
        write_le out 28 (msg_num_params h)))))))))"

definition MsgArgHdr_decode :: "bytes \<Rightarrow> (msg_arg_hdr, proto_error) res" where
  "MsgArgHdr_decode b =
     (if length b < MSG_ARG_HDR_SIZE then Err Truncated
      else res_bind (read_le b 0) (\<lambda>cmd.
        res_bind (read_le b 4) (\<lambda>func.
        res_bind (read_le b 8) (\<lambda>session.
        res_bind (read_le b 12) (\<lambda>cancel_id.
        res_bind (read_le b 16) (\<lambda>pad.
        res_bind (read_le b 20) (\<lambda>ret.
        res_bind (read_le b 24) (\<lambda>ret_origin.
        res_bind (read_le b 28) (\<lambda>num_params.
          Ok \<lparr>msg_cmd = cmd, msg_func = func, msg_session = session,
              msg_cancel_id = cancel_id, msg_pad = pad, msg_ret = ret,
              msg_ret_origin = ret_origin, msg_num_params = num_params\<rparr>)))))))))"

definition byte_size :: "msg_arg_hdr \<Rightarrow> usize" where
  "byte_size h = MSG_ARG_HDR_SIZE + MSG_PARAM_SIZE * unat (msg_num_params h)"

definition MsgParam_encode :: "msg_param \<Rightarrow> bytes \<Rightarrow> (bytes, proto_error) res" where
  "MsgParam_encode p out =
     (if length out < MSG_PARAM_SIZE then Err Truncated
      else res_bind (write_le out 0 (mp_attr p)) (\<lambda>out.
        res_bind (write_le out 8 (mp_a p)) (\<lambda>out.
        res_bind (write_le out 16 (mp_b p)) (\<lambda>out.
        write_le out 24 (mp_c p)))))"

definition MsgParam_decode :: "bytes \<Rightarrow> (msg_param, proto_error) res" where
  "MsgParam_decode b =
     (if length b < MSG_PARAM_SIZE then Err Truncated
      else res_bind (read_le b 0) (\<lambda>attr.
        res_bind (read_le b 8) (\<lambda>a.
        res_bind (read_le b 16) (\<lambda>b'.
        res_bind (read_le b 24) (\<lambda>c.
          Ok \<lparr>mp_attr = attr, mp_a = a, mp_b = b', mp_c = c\<rparr>)))))"

fun write_params :: "bytes \<Rightarrow> usize \<Rightarrow> nat \<Rightarrow> msg_param list \<Rightarrow> (bytes, proto_error) res" where
  "write_params pool off i [] = Ok pool"
| "write_params pool off i (p # ps) =
     res_bind (on_slice pool (off + MSG_ARG_HDR_SIZE + i * MSG_PARAM_SIZE) MSG_PARAM_SIZE
                 (MsgParam_encode p))
       (\<lambda>pool'. write_params pool' off (Suc i) ps)"

definition write_msg ::
  "bytes \<Rightarrow> u64 \<Rightarrow> msg_arg_hdr \<Rightarrow> msg_param list \<Rightarrow> (usize \<times> bytes, proto_error) res" where
  "write_msg pool ck hdr params =
     (if unat ck mod MSG_ARG_ALIGN \<noteq> 0 then Err BadAlign
      else if length params \<noteq> unat (msg_num_params hdr) then Err BadCmd
      else let off = unat ck; n = byte_size hdr in
        if (case checked_add off n of None \<Rightarrow> True | Some e \<Rightarrow> e > length pool) then Err BounceOob
        else res_bind (on_slice pool off MSG_ARG_HDR_SIZE (MsgArgHdr_encode hdr)) (\<lambda>pool.
             res_bind (write_params pool off 0 params) (\<lambda>pool. Ok (n, pool))))"

fun read_params :: "bytes \<Rightarrow> usize \<Rightarrow> nat list \<Rightarrow> (msg_param list, proto_error) res" where
  "read_params pool off [] = Ok []"
| "read_params pool off (i # is) =
     res_bind (slice_from pool (off + MSG_ARG_HDR_SIZE + i * MSG_PARAM_SIZE)) (\<lambda>s.
     res_bind (MsgParam_decode s) (\<lambda>p.
     res_bind (read_params pool off is) (\<lambda>ps. Ok (p # ps))))"

text \<open>\<open>ParamBuf\<close> is an array of six parameters; the unused ones stay at their default.\<close>

definition pad_params :: "msg_param list \<Rightarrow> msg_param list" where
  "pad_params ps = ps @ replicate (6 - length ps) MsgParam_default"

definition decode_msg ::
  "bytes \<Rightarrow> u64 \<Rightarrow> (msg_arg_hdr \<times> msg_param list \<times> usize, proto_error) res" where
  "decode_msg pool ck =
     (if unat ck mod MSG_ARG_ALIGN \<noteq> 0 then Err BadAlign
      else let off = unat ck in
        res_bind (usize_add off MSG_ARG_HDR_SIZE) (\<lambda>e.
          if e > length pool then Err BounceOob
          else res_bind (slice_from pool off) (\<lambda>s.
            res_bind (MsgArgHdr_decode s) (\<lambda>hdr.
              if unat (msg_num_params hdr) > 6 then Err BadCmd
              else let n = byte_size hdr in
                res_bind (usize_add off n) (\<lambda>e2.
                  if e2 > length pool then Err BounceOob
                  else res_bind (read_params pool off [0..<unat (msg_num_params hdr)]) (\<lambda>ps.
                    Ok (hdr, pad_params ps, n)))))))"

section \<open>Fast calls\<close>

definition answer_fast_smccc :: "u32 \<Rightarrow> u32 \<Rightarrow> u32 list option" where
  "answer_fast_smccc a0 a1 =
     (if a0 = SMC_CALLS_UID then Some CALLS_UID_WORDS
      else if a0 = SMC_CALLS_REVISION then Some [2, 0, 0, 0]
      else if a0 = SMC_GET_OS_UUID then Some OS_UUID_WORDS
      else if a0 = SMC_GET_OS_REVISION then Some [OS_REVISION_MAJOR, OS_REVISION_MINOR, 0, 0]
      else if a0 = SMC_EXCHANGE_CAPABILITIES then Some [SMC_RETURN_OK, V0_SEC_CAPS, 0, 0]
      else if a0 = SMC_GET_SHM_CONFIG then Some [SMC_RETURN_ENOTAVAIL, 0, 0, 0]
      else if a0 = SMC_GET_THREAD_COUNT then Some [SMC_RETURN_OK, 1, 0, 0]
      else None)"

section \<open>Codec lemmas\<close>

definition hdr_bytes :: "msg_arg_hdr \<Rightarrow> bytes" where
  "hdr_bytes h =
     to_le_bytes (msg_cmd h) @ to_le_bytes (msg_func h) @ to_le_bytes (msg_session h) @
     to_le_bytes (msg_cancel_id h) @ to_le_bytes (msg_pad h) @ to_le_bytes (msg_ret h) @
     to_le_bytes (msg_ret_origin h) @ to_le_bytes (msg_num_params h)"

definition param_bytes :: "msg_param \<Rightarrow> bytes" where
  "param_bytes p =
     to_le_bytes (mp_attr p) @ to_le_bytes (mp_a p) @ to_le_bytes (mp_b p) @ to_le_bytes (mp_c p)"

definition msg_bytes :: "msg_arg_hdr \<Rightarrow> msg_param list \<Rightarrow> bytes" where
  "msg_bytes h ps = hdr_bytes h @ concat (map param_bytes ps)"

lemma length_hdr_bytes [simp]: "length (hdr_bytes h) = 32"
  by (simp add: hdr_bytes_def)

lemma length_param_bytes [simp]: "length (param_bytes p) = 32"
  by (simp add: param_bytes_def)

lemma length_concat_params [simp]: "length (concat (map param_bytes ps)) = 32 * length ps"
  by (induction ps) auto

lemma length_msg_bytes [simp]: "length (msg_bytes h ps) = 32 + 32 * length ps"
  by (simp add: msg_bytes_def)

lemma MsgArgHdr_encode_eq:
  "32 \<le> length out \<Longrightarrow> MsgArgHdr_encode h out = Ok (hdr_bytes h @ drop 32 out)"
  by (simp add: MsgArgHdr_encode_def MSG_ARG_HDR_SIZE_def hdr_bytes_def write_le_def put_range_def)

lemma MsgParam_encode_eq:
  "32 \<le> length out \<Longrightarrow> MsgParam_encode p out = Ok (param_bytes p @ drop 32 out)"
  by (simp add: MsgParam_encode_def MSG_PARAM_SIZE_def param_bytes_def write_le_def put_range_def)

lemma MsgArgHdr_decode_bytes [simp]: "MsgArgHdr_decode (hdr_bytes h @ rest) = Ok h"
  by (simp add: MsgArgHdr_decode_def MSG_ARG_HDR_SIZE_def hdr_bytes_def read_le_Ok)

lemma MsgParam_decode_bytes [simp]: "MsgParam_decode (param_bytes p @ rest) = Ok p"
  by (simp add: MsgParam_decode_def MSG_PARAM_SIZE_def param_bytes_def read_le_Ok)

lemma MsgArgHdr_decode_total:
  "32 \<le> length b \<Longrightarrow> \<exists>h. MsgArgHdr_decode b = Ok h"
  by (simp add: MsgArgHdr_decode_def MSG_ARG_HDR_SIZE_def read_le_Ok)

lemma MsgParam_decode_total:
  "32 \<le> length b \<Longrightarrow> \<exists>p. MsgParam_decode b = Ok p"
  by (simp add: MsgParam_decode_def MSG_PARAM_SIZE_def read_le_Ok)

lemma on_slice_append:
  assumes "off = length pre" and "n \<le> length rest"
    and "f (take n rest) = Ok bs" and "length bs = n"
  shows "on_slice (pre @ rest) off n f = Ok (pre @ bs @ drop n rest)"
  using assms by (simp add: on_slice_def slice_range_def put_range_def)

lemma write_params_eq:
  assumes "length pre = off + 32 + i * 32" and "32 * length ps \<le> length rest"
  shows "write_params (pre @ rest) off i ps =
         Ok (pre @ concat (map param_bytes ps) @ drop (32 * length ps) rest)"
  using assms
proof (induction ps arbitrary: pre i rest)
  case Nil
  then show ?case by simp
next
  case (Cons p ps)
  have step: "on_slice (pre @ rest) (off + 32 + i * 32) 32 (MsgParam_encode p) =
              Ok (pre @ param_bytes p @ drop 32 rest)"
    using Cons.prems by (intro on_slice_append) (auto simp: MsgParam_encode_eq)
  have "write_params ((pre @ param_bytes p) @ drop 32 rest) off (Suc i) ps =
        Ok ((pre @ param_bytes p) @ concat (map param_bytes ps) @
            drop (32 * length ps) (drop 32 rest))"
    using Cons.prems by (intro Cons.IH) auto
  with step show ?case
    by (simp add: MSG_ARG_HDR_SIZE_def MSG_PARAM_SIZE_def add.commute)
qed

lemma byte_size_eq: "byte_size h = 32 + 32 * unat (msg_num_params h)"
  by (simp add: byte_size_def MSG_ARG_HDR_SIZE_def MSG_PARAM_SIZE_def)

lemma write_msg_eq:
  assumes "unat ck mod 8 = 0" and "length ps = unat (msg_num_params h)"
    and "unat ck + byte_size h \<le> length pool" and "length pool \<le> USIZE_MAX"
  shows "write_msg pool ck h ps =
         Ok (byte_size h, take (unat ck) pool @ msg_bytes h ps @ drop (unat ck + byte_size h) pool)"
proof -
  let ?off = "unat ck"
  let ?pre = "take ?off pool" and ?rest = "drop ?off pool"
  have len: "length ?pre = ?off" "32 + 32 * length ps \<le> length ?rest"
    using assms by (auto simp: byte_size_eq)
  have hdr: "on_slice (?pre @ ?rest) ?off 32 (MsgArgHdr_encode h) =
             Ok (?pre @ hdr_bytes h @ drop 32 ?rest)"
    using len by (intro on_slice_append) (auto simp: MsgArgHdr_encode_eq)
  have "write_params ((?pre @ hdr_bytes h) @ drop 32 ?rest) ?off 0 ps =
        Ok ((?pre @ hdr_bytes h) @ concat (map param_bytes ps) @ drop (32 * length ps) (drop 32 ?rest))"
    using len by (intro write_params_eq) auto
  with hdr show ?thesis using assms
    by (simp add: write_msg_def Let_def checked_add_def MSG_ARG_ALIGN_def MSG_ARG_HDR_SIZE_def
        msg_bytes_def byte_size_eq add_ac)
qed

lemma write_msg_cases:
  assumes "length pool \<le> USIZE_MAX"
  shows "write_msg pool ck h ps =
    (if unat ck mod 8 \<noteq> 0 then Err BadAlign
     else if length ps \<noteq> unat (msg_num_params h) then Err BadCmd
     else if length pool < unat ck + byte_size h then Err BounceOob
     else Ok (byte_size h, take (unat ck) pool @ msg_bytes h ps @ drop (unat ck + byte_size h) pool))"
  using assms write_msg_eq [of ck ps h pool]
  by (simp add: write_msg_def Let_def checked_add_def MSG_ARG_ALIGN_def)

lemma read_params_eq:
  assumes "length pre = off + 32 + i * 32"
  shows "read_params (pre @ concat (map param_bytes ps) @ rest) off [i..<i + length ps] = Ok ps"
  using assms
proof (induction ps arbitrary: pre i)
  case Nil
  then show ?case by simp
next
  case (Cons p ps)
  have "read_params ((pre @ param_bytes p) @ concat (map param_bytes ps) @ rest) off
          [Suc i..<Suc i + length ps] = Ok ps"
    using Cons.prems by (intro Cons.IH) auto
  moreover have "[i..<i + length (p # ps)] = i # [Suc i..<Suc i + length ps]"
    by (simp add: upt_rec)
  ultimately show ?case using Cons.prems
    by (simp add: MSG_ARG_HDR_SIZE_def MSG_PARAM_SIZE_def slice_from_def)
qed

lemma decode_msg_bytes:
  assumes "unat ck mod 8 = 0" and "length pre = unat ck"
    and "length ps = unat (msg_num_params h)" and "length ps \<le> 6"
    and "length (pre @ msg_bytes h ps @ post) \<le> ISIZE_MAX"
  shows "decode_msg (pre @ msg_bytes h ps @ post) ck = Ok (h, pad_params ps, byte_size h)"
proof -
  have "read_params ((pre @ hdr_bytes h) @ concat (map param_bytes ps) @ post) (unat ck)
          [0..<0 + length ps] = Ok ps"
    using assms by (intro read_params_eq) auto
  then show ?thesis using assms
    by (simp add: decode_msg_def Let_def MSG_ARG_ALIGN_def MSG_ARG_HDR_SIZE_def usize_add_def
        slice_from_def byte_size_eq msg_bytes_def ISIZE_MAX_def USIZE_MAX_def)
qed

lemma read_params_total:
  assumes "\<forall>i \<in> set is. off + 32 + i * 32 + 32 \<le> length pool"
  shows "\<exists>ps. read_params pool off is = Ok ps \<and> length ps = length is"
  using assms
proof (induction "is")
  case Nil
  then show ?case by simp
next
  case (Cons i "is")
  have "32 \<le> length (drop (off + 32 + i * 32) pool)"
    using Cons.prems by (intro le_length_drop) (simp add: algebra_simps)
  then obtain p where "MsgParam_decode (drop (off + 32 + i * 32) pool) = Ok p"
    using MsgParam_decode_total by blast
  with Cons show ?case
    by (auto simp: MSG_ARG_HDR_SIZE_def MSG_PARAM_SIZE_def slice_from_def)
qed

text \<open>All outcomes of \<open>decode_msg\<close> on a slice of the size Rust allows.\<close>

lemma decode_msg_cases:
  assumes "length pool \<le> ISIZE_MAX"
  obtains (BadAlign) "unat ck mod 8 \<noteq> 0" "decode_msg pool ck = Err BadAlign"
  | (Overflow) "unat ck mod 8 = 0" "USIZE_MAX < unat ck + 32" "decode_msg pool ck = Panic"
  | (HdrOob) "unat ck mod 8 = 0" "length pool < unat ck + 32" "unat ck + 32 \<le> USIZE_MAX"
      "decode_msg pool ck = Err BounceOob"
  | (TooMany) h where "unat ck mod 8 = 0" "unat ck + 32 \<le> length pool"
      "MsgArgHdr_decode (drop (unat ck) pool) = Ok h" "6 < unat (msg_num_params h)"
      "decode_msg pool ck = Err BadCmd"
  | (ParamOob) h where "unat ck mod 8 = 0" "unat ck + 32 \<le> length pool"
      "MsgArgHdr_decode (drop (unat ck) pool) = Ok h" "unat (msg_num_params h) \<le> 6"
      "length pool < unat ck + byte_size h" "decode_msg pool ck = Err BounceOob"
  | (Good) h ps where "unat ck mod 8 = 0"
      "MsgArgHdr_decode (drop (unat ck) pool) = Ok h" "unat (msg_num_params h) \<le> 6"
      "unat ck + byte_size h \<le> length pool" "length ps = unat (msg_num_params h)"
      "read_params pool (unat ck) [0..<unat (msg_num_params h)] = Ok ps"
      "decode_msg pool ck = Ok (h, pad_params ps, byte_size h)"
proof (cases "unat ck mod 8 = 0 \<and> unat ck + 32 \<le> length pool")
  case False
  with assms that(1-3) show ?thesis
    by (cases "unat ck mod 8 = 0"; cases "unat ck + 32 \<le> USIZE_MAX")
      (auto simp: decode_msg_def Let_def MSG_ARG_ALIGN_def MSG_ARG_HDR_SIZE_def usize_add_def
        not_le)
next
  case True
  then have "32 \<le> length (drop (unat ck) pool)" using le_length_drop by blast
  then obtain h where h: "MsgArgHdr_decode (drop (unat ck) pool) = Ok h"
    using MsgArgHdr_decode_total by blast
  have dec: "decode_msg pool ck =
      (if 6 < unat (msg_num_params h) then Err BadCmd
       else if length pool < unat ck + byte_size h then Err BounceOob
       else res_bind (read_params pool (unat ck) [0..<unat (msg_num_params h)])
              (\<lambda>ps. Ok (h, pad_params ps, byte_size h)))"
    using True assms h
    by (simp add: decode_msg_def Let_def MSG_ARG_ALIGN_def MSG_ARG_HDR_SIZE_def usize_add_def
        slice_from_def byte_size_eq ISIZE_MAX_def USIZE_MAX_def mod_eq_0_iff_dvd)
  show ?thesis
  proof (cases "unat (msg_num_params h) \<le> 6 \<and> unat ck + byte_size h \<le> length pool")
    case ok: True
    have "\<forall>i \<in> set [0..<unat (msg_num_params h)]. unat ck + 32 + i * 32 + 32 \<le> length pool"
    proof
      fix i assume "i \<in> set [0..<unat (msg_num_params h)]"
      then have "i + 1 \<le> unat (msg_num_params h)" by simp
      then have "(i + 1) * 32 \<le> unat (msg_num_params h) * 32" by (rule mult_le_mono1)
      then show "unat ck + 32 + i * 32 + 32 \<le> length pool"
        using ok by (simp add: byte_size_eq)
    qed
    from read_params_total [OF this] show ?thesis
      using True ok h dec that(6) by auto
  next
    case False
    with True h dec that(4,5) show ?thesis
      by (cases "6 < unat (msg_num_params h)") (auto simp: not_le)
  qed
qed

lemma four_words:
  "take 4 b @ take 4 (drop 4 b) @ take 4 (drop 8 b) @ take 4 (drop 12 b) = take 16 b"
  using take_take_drop [of 4 b 4] take_take_drop [of 8 b 4] take_take_drop [of 12 b 4]
  by (simp flip: append_assoc)

lemma eight_words:
  "take 4 b @ take 4 (drop 4 b) @ take 4 (drop 8 b) @ take 4 (drop 12 b) @
   take 4 (drop 16 b) @ take 4 (drop 20 b) @ take 4 (drop 24 b) @ take 4 (drop 28 b) = take 32 b"
  using take_take_drop [of 4 b 4] take_take_drop [of 8 b 4] take_take_drop [of 12 b 4]
    take_take_drop [of 16 b 4] take_take_drop [of 20 b 4] take_take_drop [of 24 b 4]
    take_take_drop [of 28 b 4]
  by (simp flip: append_assoc)

lemma four_dwords: "take 8 b @ take 8 (drop 8 b) @ take 8 (drop 16 b) @ take 8 (drop 24 b) = take 32 b"
  using take_take_drop [of 8 b 8] take_take_drop [of 16 b 8] take_take_drop [of 24 b 8]
  by (simp flip: append_assoc)

lemma MsgArgHdr_decode_inv:
  assumes "MsgArgHdr_decode b = Ok h"
  shows "32 \<le> length b \<and> hdr_bytes h = take 32 b"
proof -
  have len: "32 \<le> length b"
    using assms by (auto simp: MsgArgHdr_decode_def MSG_ARG_HDR_SIZE_def split: if_splits)
  then show ?thesis using assms
    by (auto simp: MsgArgHdr_decode_def MSG_ARG_HDR_SIZE_def read_le_Ok hdr_bytes_def
        to_le_read_u32 [of 0, simplified] eight_words)
qed

lemma MsgParam_decode_inv:
  assumes "MsgParam_decode b = Ok p"
  shows "32 \<le> length b \<and> param_bytes p = take 32 b"
proof -
  have len: "32 \<le> length b"
    using assms by (auto simp: MsgParam_decode_def MSG_PARAM_SIZE_def split: if_splits)
  with four_dwords [of b] assms show ?thesis
    by (auto simp: MsgParam_decode_def MSG_PARAM_SIZE_def read_le_Ok param_bytes_def
        to_le_read_u64 [of 0, simplified])
qed

lemma read_params_inv:
  "read_params pool off is = Ok ps \<Longrightarrow>
   concat (map param_bytes ps) = concat (map (\<lambda>i. take 32 (drop (off + 32 + i * 32) pool)) is)"
proof (induction "is" arbitrary: ps)
  case Nil
  then show ?case by simp
next
  case (Cons i "is")
  then obtain p ps' where "MsgParam_decode (drop (off + 32 + i * 32) pool) = Ok p"
    "read_params pool off is = Ok ps'" "ps = p # ps'"
    by (auto simp: slice_from_def MSG_ARG_HDR_SIZE_def MSG_PARAM_SIZE_def split: if_splits)
  with Cons.IH MsgParam_decode_inv show ?case by (auto simp: add_ac)
qed

lemma concat_chunks:
  "off + 32 * n \<le> length pool \<Longrightarrow>
   concat (map (\<lambda>i. take 32 (drop (off + i * 32) pool)) [0..<n]) = take (32 * n) (drop off pool)"
proof (induction n)
  case 0
  then show ?case by simp
next
  case (Suc n)
  then show ?case
    using take_take_drop [of "32 * n" "drop off pool" 32] by (simp add: add_ac mult.commute)
qed

lemma decode_msg_inv:
  assumes "length pool \<le> ISIZE_MAX" and "decode_msg pool ck = Ok (h, ps, n)"
  shows "unat ck mod 8 = 0 \<and> n = byte_size h \<and> unat ck + n \<le> length pool \<and>
         unat (msg_num_params h) \<le> 6 \<and> length ps = 6 \<and>
         take n (drop (unat ck) pool) = msg_bytes h (take (unat (msg_num_params h)) ps)"
  using assms(1)
proof (cases rule: decode_msg_cases [of pool ck])
  case (Good h' qs)
  with assms(2) have eqs: "h' = h" "ps = pad_params qs" "n = byte_size h" by auto
  have "concat (map param_bytes qs) = take (32 * length qs) (drop (unat ck + 32) pool)"
    using read_params_inv [OF Good(6)] concat_chunks [of "unat ck + 32" "length qs" pool] Good eqs
    by (simp add: byte_size_eq)
  then show ?thesis
    using Good eqs MsgArgHdr_decode_inv [OF Good(2)]
      take_take_drop [of 32 "drop (unat ck) pool" "32 * length qs"]
    by (auto simp: msg_bytes_def pad_params_def byte_size_eq add_ac)
qed (use assms(2) in auto)

lemma read_regs_Ok:
  "\<forall>i \<in> set is. i * 8 + 8 \<le> length b \<Longrightarrow>
   read_regs b is = Ok (map (\<lambda>i. from_le_bytes (take 8 (drop (i * 8) b))) is)"
  by (induction "is") (auto simp: read_le_Ok)

lemma CallFrame_decode_eq:
  "CallFrame_decode b =
    (if length b < 64 then Err Truncated
     else Ok \<lparr>cf_r = map (\<lambda>i. from_le_bytes (take 8 (drop (i * 8) b))) [0..<8]\<rparr>)"
  by (auto simp: CallFrame_decode_def CALL_FRAME_LEN_def read_regs_Ok)

lemma drop_concat_regs:
  "i < length ws \<Longrightarrow>
   take 8 (drop (i * 8) (concat (map to_le_bytes ws))) = to_le_bytes (ws ! i :: u64)"
proof (induction ws arbitrary: i)
  case Nil
  then show ?case by simp
next
  case (Cons w ws)
  then show ?case by (cases i) auto
qed

lemma length_concat_regs [simp]: "length (concat (map to_le_bytes (ws :: u64 list))) = 8 * length ws"
  by (induction ws) auto

lemma CallFrame_decode_encode:
  assumes "wf_frame f"
  shows "CallFrame_decode (CallFrame_encode f @ rest) = Ok f"
proof -
  have "map (\<lambda>i. from_le_bytes (take 8 (drop (i * 8) (CallFrame_encode f @ rest)))) [0..<8] =
        map (\<lambda>i. cf_r f ! i) [0..<8]"
    using assms by (intro map_cong) (auto simp: CallFrame_encode_def wf_frame_def drop_concat_regs)
  also have "\<dots> = cf_r f"
    using assms map_nth [of "cf_r f"] by (simp add: wf_frame_def)
  finally show ?thesis
    using assms by (simp add: CallFrame_decode_eq CallFrame_encode_def wf_frame_def)
qed

lemma wf_set_cookie [simp]: "wf_frame (set_cookie f ck) = wf_frame f"
  by (simp add: wf_frame_def set_cookie_def)

lemma wf_frame_default [simp]: "wf_frame CallFrame_default"
  by (simp add: wf_frame_def CallFrame_default_def)

lemma split_word_hi_lo:
  "push_bit 32 (drop_bit 32 (w :: u64)) OR (w AND 0xffffffff AND 0xffffffff) = w"
proof (rule bit_word_eqI)
  fix n assume n: "n < LENGTH(64)"
  have m: "(0xffffffff :: u64) = mask 32" by (simp add: mask_eq_exp_minus_1)
  show "bit (push_bit 32 (drop_bit 32 w) OR (w AND 0xffffffff AND 0xffffffff)) n = bit w n"
    unfolding m using n by (auto simp: bit_simps)
qed

lemma cookie_set_cookie:
  "wf_frame f \<Longrightarrow> cookie (set_cookie f ck) = ck"
  using split_word_hi_lo [of ck] by (simp add: cookie_def set_cookie_def wf_frame_def and.assoc)

lemma PduHeader_decode_iff:
  "PduHeader_decode b = Ok h \<longleftrightarrow>
   16 \<le> length b \<and> take 16 b = PduHeader_encode h \<and> valid_kind (pdu_kind h) \<and> pdu_arg_len h = 64"
  (is "?dec \<longleftrightarrow> ?enc")
proof
  assume dec: ?dec
  then have len: "16 \<le> length b"
    by (auto simp: PduHeader_decode_def PDU_HDR_LEN_def split: if_splits)
  have "to_le_bytes (64 :: u32) = take 4 (drop 8 b)"
    if "from_le_bytes (take 4 (drop 8 b)) = (64 :: u32)"
    using to_le_read_u32 [of 8 b] that len by (simp del: to_le_read_u32)
  with dec len show ?enc
    by (auto simp: PduHeader_decode_def PduHeader_encode_def PDU_HDR_LEN_def CALL_FRAME_LEN_def
        read_le_Ok to_le_read_u32 [of 0, simplified] four_words split: if_splits)
next
  assume enc: ?enc
  then have "b = PduHeader_encode h @ drop 16 b"
    by (metis append_take_drop_id)
  then obtain rest where "b = PduHeader_encode h @ rest" ..
  with enc show ?dec
    by (simp add: PduHeader_decode_def PduHeader_encode_def PDU_HDR_LEN_def CALL_FRAME_LEN_def read_le_Ok)
qed

section \<open>Properties of the protocol\<close>

text \<open>A call frame survives the wire and carries its cookie: encoding any frame whose cookie
  was set to \<open>ck\<close>, followed by arbitrary bytes, decodes to the same eight registers, and the
  cookie read back from registers 1 and 2 is \<open>ck\<close>.\<close>

lemma frame_wire_roundtrip:
  assumes "wf_frame f"
  shows "CallFrame_decode (CallFrame_encode (set_cookie f ck) @ rest) = Ok (set_cookie f ck) \<and>
         cookie (set_cookie f ck) = ck"
  using assms by (simp add: CallFrame_decode_encode cookie_set_cookie)

text \<open>C1. A message written to the bounce pool is read back unchanged, and nothing else moves:
  when \<open>write_msg\<close> succeeds with at most six parameters, \<open>decode_msg\<close> at the same cookie returns
  the same header, the parameters padded to six, and the length written; the pool keeps its
  length and every byte outside the message.\<close>

theorem msg_pool_roundtrip:
  assumes "length pool \<le> ISIZE_MAX" and "length ps \<le> 6"
    and "write_msg pool ck h ps = Ok (n, pool')"
  shows "decode_msg pool' ck = Ok (h, pad_params ps, n) \<and> length pool' = length pool \<and>
         take (unat ck) pool' = take (unat ck) pool \<and>
         drop (unat ck + n) pool' = drop (unat ck + n) pool"
proof -
  have "length pool \<le> USIZE_MAX" using assms(1) by (simp add: ISIZE_MAX_def USIZE_MAX_def)
  with assms(3) have w: "unat ck mod 8 = 0" "length ps = unat (msg_num_params h)"
    "unat ck + byte_size h \<le> length pool" "n = byte_size h"
    "pool' = take (unat ck) pool @ msg_bytes h ps @ drop (unat ck + byte_size h) pool"
    by (auto simp: write_msg_cases not_less split: if_splits)
  moreover from w have "length pool' = length pool" by (simp add: byte_size_eq)
  ultimately show ?thesis using assms(1,2)
    decode_msg_bytes [of ck "take (unat ck) pool" ps h "drop (unat ck + byte_size h) pool"]
    by (simp add: byte_size_eq)
qed

theorem msg_pool_roundtrip_witness:
  "\<exists>pool'. write_msg (replicate 80 0) 8 (MsgArgHdr_default\<lparr>msg_cmd := 4, msg_num_params := 1\<rparr>)
     [MsgParam_value 1 7 8 9] = Ok (64, pool') \<and>
   decode_msg pool' 8 =
     Ok (MsgArgHdr_default\<lparr>msg_cmd := 4, msg_num_params := 1\<rparr>,
         pad_params [MsgParam_value 1 7 8 9], 64)"
proof -
  let ?h = "MsgArgHdr_default\<lparr>msg_cmd := 4, msg_num_params := 1\<rparr>"
  obtain pool' where w:
    "write_msg (replicate 80 0) 8 ?h [MsgParam_value 1 7 8 9] = Ok (64, pool')"
    by (simp add: write_msg_cases USIZE_MAX_def byte_size_eq)
  show ?thesis
    using w msg_pool_roundtrip [OF _ _ w] by (auto simp: ISIZE_MAX_def)
qed

text \<open>C2. What \<open>decode_msg\<close> accepts is inside the pool and re-encodes to the bytes it was read
  from; the only input on which it panics is an aligned cookie so close to the end of the
  64-bit range that \<open>off + MSG_ARG_HDR_SIZE\<close> overflows.\<close>

theorem decode_msg_sound:
  assumes "length pool \<le> ISIZE_MAX"
  shows "(decode_msg pool ck = Panic \<longleftrightarrow> unat ck mod 8 = 0 \<and> USIZE_MAX < unat ck + 32) \<and>
         (\<forall>h ps n. decode_msg pool ck = Ok (h, ps, n) \<longrightarrow>
            n = byte_size h \<and> unat ck + n \<le> length pool \<and> length ps = 6 \<and>
            take n (drop (unat ck) pool) = msg_bytes h (take (unat (msg_num_params h)) ps))"
proof -
  have "decode_msg pool ck = Panic \<longleftrightarrow> unat ck mod 8 = 0 \<and> USIZE_MAX < unat ck + 32"
    using assms
    by (cases rule: decode_msg_cases [of pool ck])
      (use assms in \<open>auto simp: ISIZE_MAX_def USIZE_MAX_def byte_size_eq\<close>)
  then show ?thesis using decode_msg_inv [OF assms] by blast
qed

theorem decode_msg_sound_witness:
  "decode_msg (replicate 64 0) (- 8) = Panic"
  using decode_msg_sound [of "replicate 64 0" "- 8"]
  by (simp add: ISIZE_MAX_def USIZE_MAX_def)

text \<open>The fast calls answered without entering the guest are exactly seven function
  identifiers; none of the two yielding calls (\<open>CALL_WITH_ARG\<close>, \<open>RETURN_FROM_RPC\<close>) is among
  them, the answer has four words and does not depend on \<open>a1\<close>.\<close>

lemma fast_smccc_domain:
  "(answer_fast_smccc a0 a1 \<noteq> None \<longleftrightarrow>
      a0 \<in> {SMC_CALLS_UID, SMC_CALLS_REVISION, SMC_GET_OS_UUID, SMC_GET_OS_REVISION,
            SMC_EXCHANGE_CAPABILITIES, SMC_GET_SHM_CONFIG, SMC_GET_THREAD_COUNT}) \<and>
   answer_fast_smccc SMC_CALL_WITH_ARG a1 = None \<and>
   answer_fast_smccc SMC_RETURN_FROM_RPC a1 = None \<and>
   (case answer_fast_smccc a0 a1 of None \<Rightarrow> True | Some ws \<Rightarrow> length ws = 4) \<and>
   answer_fast_smccc a0 a1 = answer_fast_smccc a0 a1'"
  by (auto simp: answer_fast_smccc_def CALLS_UID_WORDS_def OS_UUID_WORDS_def
      SMC_CALL_WITH_ARG_def SMC_RETURN_FROM_RPC_def SMC_CALLS_UID_def SMC_CALLS_REVISION_def
      SMC_GET_OS_UUID_def SMC_GET_OS_REVISION_def SMC_EXCHANGE_CAPABILITIES_def
      SMC_GET_SHM_CONFIG_def SMC_GET_THREAD_COUNT_def)

end
