(* ===== verification/Virt_Vsock.thy ===== *)
theory Virt_Vsock
  imports Msg_Proto Hal_Iface
begin

text \<open>
  The stream transport of the virtual HAL: the PDU and frame codecs of
  \<open>crates/rustee-hal-virt/src/lib.rs\<close> and the whole of \<open>crates/rustee-hal-virt/src/vsock.rs\<close>: the
  44-byte packet header, the listening socket, and the accepted connection that collects the bytes
  of the stream and cuts PDUs from it.
\<close>

section \<open>PDU headers and frames\<close>

definition hv_PduHeader_encode :: "pdu_header \<Rightarrow> bytes" where
  "hv_PduHeader_encode h =
     to_le_bytes (pdu_kind h) @ to_le_bytes (pdu_seq h) @
     to_le_bytes (pdu_arg_len h) @ to_le_bytes (pdu_bounce_len h)"

definition hv_PduHeader_decode :: "bytes \<Rightarrow> (pdu_header, hal_error) res" where
  "hv_PduHeader_decode b =
     (if length b < PDU_HDR_LEN then Err Fault
      else res_bind (read_le b 0) (\<lambda>kind.
        if \<not> valid_kind kind then Err InvalidParam
        else res_bind (read_le b 4) (\<lambda>seq.
          res_bind (read_le b 8) (\<lambda>arg_len.
            res_bind (read_le b 12) (\<lambda>bounce_len.
              Ok \<lparr>pdu_kind = kind, pdu_seq = seq, pdu_arg_len = arg_len,
                  pdu_bounce_len = bounce_len\<rparr>)))))"

definition encode_frame :: "call_frame \<Rightarrow> bytes" where
  "encode_frame f = concat (map to_le_bytes (cf_r f))"

definition decode_frame :: "bytes \<Rightarrow> (call_frame, hal_error) res" where
  "decode_frame b =
     (if length b < CALL_FRAME_LEN then Err Fault
      else res_bind (read_regs b [0..<8]) (\<lambda>rs. Ok \<lparr>cf_r = rs\<rparr>))"

text \<open>The cookie of \<open>rustee-hal\<close>'s own \<open>CallFrame\<close>.\<close>

definition cookie_a1a2 :: "call_frame \<Rightarrow> u64" where
  "cookie_a1a2 f = push_bit 32 (cf_r f ! 1 AND 0xffffffff) OR (cf_r f ! 2 AND 0xffffffff)"

definition set_cookie_a1a2 :: "call_frame \<Rightarrow> u64 \<Rightarrow> call_frame" where
  "set_cookie_a1a2 f ck = f\<lparr>cf_r := (cf_r f)[1 := drop_bit 32 ck, 2 := ck AND 0xffffffff]\<rparr>"

section \<open>Packets\<close>

definition VSOCK_GUEST_CID :: u32 where "VSOCK_GUEST_CID = 3"
definition VSOCK_PORT :: u32 where "VSOCK_PORT = 7007"
definition VIRTIO_VSOCK_TYPE_STREAM :: u16 where "VIRTIO_VSOCK_TYPE_STREAM = 1"
definition VIRTIO_VSOCK_OP_REQUEST :: u16 where "VIRTIO_VSOCK_OP_REQUEST = 1"
definition VIRTIO_VSOCK_OP_RESPONSE :: u16 where "VIRTIO_VSOCK_OP_RESPONSE = 2"
definition VIRTIO_VSOCK_OP_RW :: u16 where "VIRTIO_VSOCK_OP_RW = 5"
definition VIRTIO_VSOCK_OP_CREDIT_UPDATE :: u16 where "VIRTIO_VSOCK_OP_CREDIT_UPDATE = 6"
definition VIRTIO_VSOCK_OP_CREDIT_REQUEST :: u16 where "VIRTIO_VSOCK_OP_CREDIT_REQUEST = 7"
definition VIRTIO_VSOCK_HDR_LEN :: usize where "VIRTIO_VSOCK_HDR_LEN = 44"
definition VSOCK_BUF_ALLOC :: u32 where "VSOCK_BUF_ALLOC = 256 * 1024"

lemmas vsock_op_defs = VIRTIO_VSOCK_OP_REQUEST_def VIRTIO_VSOCK_OP_RESPONSE_def VIRTIO_VSOCK_OP_RW_def
  VIRTIO_VSOCK_OP_CREDIT_UPDATE_def VIRTIO_VSOCK_OP_CREDIT_REQUEST_def VIRTIO_VSOCK_TYPE_STREAM_def

record vsock_hdr =
  vk_src_cid :: u64
  vk_dst_cid :: u64
  vk_src_port :: u32
  vk_dst_port :: u32
  vk_len :: u32
  vk_ty :: u16
  vk_op :: u16
  vk_flags :: u32
  vk_buf_alloc :: u32
  vk_fwd_cnt :: u32

definition VsockHdr_encode :: "vsock_hdr \<Rightarrow> bytes" where
  "VsockHdr_encode h =
     to_le_bytes (vk_src_cid h) @ to_le_bytes (vk_dst_cid h) @ to_le_bytes (vk_src_port h) @
     to_le_bytes (vk_dst_port h) @ to_le_bytes (vk_len h) @ to_le_bytes (vk_ty h) @
     to_le_bytes (vk_op h) @ to_le_bytes (vk_flags h) @ to_le_bytes (vk_buf_alloc h) @
     to_le_bytes (vk_fwd_cnt h)"

definition VsockHdr_decode :: "bytes \<Rightarrow> (vsock_hdr, hal_error) res" where
  "VsockHdr_decode b =
     (if length b < VIRTIO_VSOCK_HDR_LEN then Err Fault
      else res_bind (read_le b 0) (\<lambda>src_cid.
        res_bind (read_le b 8) (\<lambda>dst_cid.
        res_bind (read_le b 16) (\<lambda>src_port.
        res_bind (read_le b 20) (\<lambda>dst_port.
        res_bind (read_le b 24) (\<lambda>len.
        res_bind (read_le b 28) (\<lambda>ty.
        res_bind (read_le b 30) (\<lambda>op.
        res_bind (read_le b 32) (\<lambda>flags.
        res_bind (read_le b 36) (\<lambda>buf_alloc.
        res_bind (read_le b 40) (\<lambda>fwd_cnt.
          Ok \<lparr>vk_src_cid = src_cid, vk_dst_cid = dst_cid, vk_src_port = src_port,
              vk_dst_port = dst_port, vk_len = len, vk_ty = ty, vk_op = op, vk_flags = flags,
              vk_buf_alloc = buf_alloc, vk_fwd_cnt = fwd_cnt\<rparr>)))))))))))"

section \<open>The listening socket\<close>

record vsock_listener =
  vl_cid :: u32
  vl_port :: u32
  vl_listening :: bool

definition VsockListener_default :: vsock_listener where
  "VsockListener_default = \<lparr>vl_cid = VSOCK_GUEST_CID, vl_port = VSOCK_PORT, vl_listening = False\<rparr>"

definition vl_listen :: "vsock_listener \<Rightarrow> vsock_listener" where
  "vl_listen l = l\<lparr>vl_listening := True\<rparr>"

definition vl_accept :: "vsock_listener \<Rightarrow> vsock_hdr \<Rightarrow> (vsock_hdr, hal_error) res" where
  "vl_accept l req =
     (if \<not> vl_listening l then Err Busy
      else if vk_op req \<noteq> VIRTIO_VSOCK_OP_REQUEST \<or> vk_ty req \<noteq> VIRTIO_VSOCK_TYPE_STREAM \<or>
              vk_dst_cid req \<noteq> ucast (vl_cid l) \<or> vk_dst_port req \<noteq> vl_port l
      then Err InvalidParam
      else Ok \<lparr>vk_src_cid = ucast (vl_cid l), vk_dst_cid = vk_src_cid req, vk_src_port = vl_port l,
               vk_dst_port = vk_src_port req, vk_len = 0, vk_ty = VIRTIO_VSOCK_TYPE_STREAM,
               vk_op = VIRTIO_VSOCK_OP_RESPONSE, vk_flags = 0, vk_buf_alloc = VSOCK_BUF_ALLOC,
               vk_fwd_cnt = 0\<rparr>)"

section \<open>The connection\<close>

record vsock_conn =
  vc_guest_cid :: u64
  vc_guest_port :: u32
  vc_host_cid :: u64
  vc_host_port :: u32
  vc_fwd_cnt :: u32
  vc_rx :: bytes

definition conn_from_accept :: "vsock_hdr \<Rightarrow> vsock_listener \<Rightarrow> vsock_conn" where
  "conn_from_accept req l =
     \<lparr>vc_guest_cid = ucast (vl_cid l), vc_guest_port = vl_port l, vc_host_cid = vk_src_cid req,
      vc_host_port = vk_src_port req, vc_fwd_cnt = 0, vc_rx = []\<rparr>"

definition push_rw :: "vsock_conn \<Rightarrow> vsock_hdr \<Rightarrow> bytes \<Rightarrow> (vsock_conn, hal_error) res" where
  "push_rw c h payload =
     (if vk_op h \<noteq> VIRTIO_VSOCK_OP_RW \<or> vk_dst_cid h \<noteq> vc_guest_cid c \<or>
         vk_dst_port h \<noteq> vc_guest_port c \<or> vk_src_cid h \<noteq> vc_host_cid c \<or>
         length payload \<noteq> unat (vk_len h)
      then Err InvalidParam
      else Ok (c\<lparr>vc_rx := vc_rx c @ payload, vc_fwd_cnt := vc_fwd_cnt c + vk_len h\<rparr>))"

text \<open>\<open>recv_exact\<close> into a buffer of \<open>n\<close> bytes returns its contents.\<close>

definition recv_exact :: "vsock_conn \<Rightarrow> usize \<Rightarrow> (bytes \<times> vsock_conn, hal_error) res" where
  "recv_exact c n =
     (if length (vc_rx c) < n then Err NotFound
      else Ok (take n (vc_rx c), c\<lparr>vc_rx := drop n (vc_rx c)\<rparr>))"

text \<open>The connection comes back with the result: \<open>drain\<close> may have taken bytes although the frame
  then fails to decode.\<close>

definition take_pdu ::
  "vsock_conn \<Rightarrow> (pdu_header \<times> call_frame \<times> bytes, hal_error) res \<times> vsock_conn" where
  "take_pdu c =
     (if length (vc_rx c) < PDU_HDR_LEN then (Err NotFound, c)
      else case hv_PduHeader_decode (take PDU_HDR_LEN (vc_rx c)) of
        Err e \<Rightarrow> (Err e, c)
      | Panic \<Rightarrow> (Panic, c)
      | Ok h \<Rightarrow>
          if pdu_arg_len h \<noteq> word_of_nat CALL_FRAME_LEN then (Err InvalidParam, c)
          else
            (case Option.bind (checked_add PDU_HDR_LEN CALL_FRAME_LEN)
                    (\<lambda>n. checked_add n (unat (pdu_bounce_len h))) of
               None \<Rightarrow> (Err InvalidParam, c)
             | Some all \<Rightarrow>
                 if length (vc_rx c) < all then (Err NotFound, c)
                 else
                   let b = take all (vc_rx c); c = c\<lparr>vc_rx := drop all (vc_rx c)\<rparr> in
                   (res_bind (slice_range b PDU_HDR_LEN (PDU_HDR_LEN + CALL_FRAME_LEN)) (\<lambda>s.
                    res_bind (decode_frame s) (\<lambda>frame.
                    res_bind (slice_from b (PDU_HDR_LEN + CALL_FRAME_LEN)) (\<lambda>bounce.
                      Ok (h, frame, bounce)))), c)))"

definition wrap_rw :: "vsock_conn \<Rightarrow> bytes \<Rightarrow> vsock_hdr \<times> bytes" where
  "wrap_rw c payload =
     (\<lparr>vk_src_cid = vc_guest_cid c, vk_dst_cid = vc_host_cid c, vk_src_port = vc_guest_port c,
       vk_dst_port = vc_host_port c, vk_len = word_of_nat (length payload),
       vk_ty = VIRTIO_VSOCK_TYPE_STREAM, vk_op = VIRTIO_VSOCK_OP_RW, vk_flags = 0,
       vk_buf_alloc = VSOCK_BUF_ALLOC, vk_fwd_cnt = vc_fwd_cnt c\<rparr>, payload)"

definition conn_credit_update :: "vsock_conn \<Rightarrow> vsock_hdr" where
  "conn_credit_update c =
     \<lparr>vk_src_cid = vc_guest_cid c, vk_dst_cid = vc_host_cid c, vk_src_port = vc_guest_port c,
      vk_dst_port = vc_host_port c, vk_len = 0, vk_ty = VIRTIO_VSOCK_TYPE_STREAM,
      vk_op = VIRTIO_VSOCK_OP_CREDIT_UPDATE, vk_flags = 0, vk_buf_alloc = VSOCK_BUF_ALLOC,
      vk_fwd_cnt = vc_fwd_cnt c\<rparr>"

definition read_pdu ::
  "vsock_conn \<Rightarrow> (pdu_header \<times> call_frame \<times> bytes, hal_error) res \<times> vsock_conn" where
  "read_pdu c = take_pdu c"

definition encode_pdu :: "pdu_header \<Rightarrow> call_frame \<Rightarrow> bytes \<Rightarrow> bytes" where
  "encode_pdu h f bounce = hv_PduHeader_encode h @ encode_frame f @ bounce"

section \<open>Codec lemmas\<close>

lemma length_hv_hdr [simp]: "length (hv_PduHeader_encode h) = 16"
  by (simp add: hv_PduHeader_encode_def)

lemma length_encode_frame [simp]: "wf_frame f \<Longrightarrow> length (encode_frame f) = 64"
  by (simp add: encode_frame_def wf_frame_def)

lemma hv_decode_encode [simp]:
  "hv_PduHeader_decode (hv_PduHeader_encode h) = (if valid_kind (pdu_kind h) then Ok h else Err InvalidParam)"
  by (simp add: hv_PduHeader_decode_def hv_PduHeader_encode_def PDU_HDR_LEN_def read_le_Ok)

lemma hv_decode_total:
  "16 \<le> length b \<Longrightarrow> hv_PduHeader_decode b \<noteq> Panic"
  by (simp add: hv_PduHeader_decode_def PDU_HDR_LEN_def read_le_Ok)

lemma decode_frame_eq:
  "64 \<le> length b \<Longrightarrow>
   decode_frame b = Ok \<lparr>cf_r = map (\<lambda>i. from_le_bytes (take 8 (drop (i * 8) b))) [0..<8]\<rparr>"
  by (simp add: decode_frame_def CALL_FRAME_LEN_def read_regs_Ok)

lemma decode_encode_frame [simp]:
  assumes "wf_frame f"
  shows "decode_frame (encode_frame f @ rest) = Ok f"
proof -
  have "map (\<lambda>i. from_le_bytes (take 8 (drop (i * 8) (encode_frame f @ rest)))) [0..<8] =
        map (\<lambda>i. cf_r f ! i) [0..<8]"
    using assms by (intro map_cong) (auto simp: encode_frame_def wf_frame_def drop_concat_regs)
  also have "\<dots> = cf_r f"
    using assms map_nth [of "cf_r f"] by (simp add: wf_frame_def)
  finally show ?thesis
    using assms by (simp add: decode_frame_eq)
qed

lemma decode_encode_frame' [simp]: "wf_frame f \<Longrightarrow> decode_frame (encode_frame f) = Ok f"
  using decode_encode_frame [of f "[]"] by simp

lemma cookie_a1a2_eq: "cookie_a1a2 f = cookie f"
proof (rule bit_word_eqI)
  fix n assume n: "n < LENGTH(64)"
  have m: "(0xffffffff :: u64) = mask 32" by (simp add: mask_eq_exp_minus_1)
  show "bit (cookie_a1a2 f) n = bit (cookie f) n"
    unfolding cookie_a1a2_def cookie_def m using n by (auto simp: bit_simps)
qed

lemma set_cookie_a1a2_eq: "set_cookie_a1a2 = set_cookie"
  by (simp add: set_cookie_a1a2_def set_cookie_def fun_eq_iff)

text \<open>A PDU a peer may send: a known kind, a frame, and as much bounce data as announced.\<close>

definition wf_pdu :: "pdu_header \<Rightarrow> call_frame \<Rightarrow> bytes \<Rightarrow> bool" where
  "wf_pdu h f b \<longleftrightarrow>
     valid_kind (pdu_kind h) \<and> pdu_arg_len h = 64 \<and> wf_frame f \<and> length b = unat (pdu_bounce_len h)"

lemma length_encode_pdu: "wf_pdu h f b \<Longrightarrow> length (encode_pdu h f b) = 80 + unat (pdu_bounce_len h)"
  by (simp add: encode_pdu_def wf_pdu_def)

lemma total_len:
  "Option.bind (checked_add 16 64) (\<lambda>n. checked_add n (unat (b :: u32))) = Some (80 + unat b)"
  using unsigned_less [of b, where 'a = nat] by (simp add: checked_add_def USIZE_MAX_def)

lemma take_pdu_whole:
  assumes "wf_pdu h f b" and "vc_rx c = encode_pdu h f b @ rest"
  shows "take_pdu c = (Ok (h, f, b), c\<lparr>vc_rx := rest\<rparr>)"
proof -
  have h: "take 16 (vc_rx c) = hv_PduHeader_encode h"
    using assms(2) by (simp add: encode_pdu_def)
  have len: "length (vc_rx c) = 80 + unat (pdu_bounce_len h) + length rest"
    using assms by (simp add: length_encode_pdu)
  have t: "take (80 + unat (pdu_bounce_len h)) (vc_rx c) = encode_pdu h f b"
    "drop (80 + unat (pdu_bounce_len h)) (vc_rx c) = rest"
    using assms by (simp_all add: length_encode_pdu)
  have wf: "valid_kind (pdu_kind h)" "pdu_arg_len h = 64" "wf_frame f" "length b = unat (pdu_bounce_len h)"
    using assms(1) by (auto simp: wf_pdu_def)
  have "res_bind (slice_range (encode_pdu h f b) PDU_HDR_LEN (PDU_HDR_LEN + CALL_FRAME_LEN)) (\<lambda>s.
        res_bind (decode_frame s) (\<lambda>frame.
        res_bind (slice_from (encode_pdu h f b) (PDU_HDR_LEN + CALL_FRAME_LEN)) (\<lambda>bounce.
          Ok (h, frame, bounce)))) = Ok (h, f, b)"
    using wf by (simp add: encode_pdu_def PDU_HDR_LEN_def CALL_FRAME_LEN_def slice_range_def slice_from_def)
  with wf len t show ?thesis
    by (simp add: take_pdu_def h total_len Let_def PDU_HDR_LEN_def CALL_FRAME_LEN_def)
qed

lemma take_pdu_part:
  assumes "wf_pdu h f b" and "vc_rx c = take n (encode_pdu h f b)" and "n < length (encode_pdu h f b)"
  shows "take_pdu c = (Err NotFound, c)"
proof (cases "n < 16")
  case True
  with assms show ?thesis by (simp add: take_pdu_def PDU_HDR_LEN_def length_encode_pdu)
next
  case False
  then have h: "take 16 (vc_rx c) = hv_PduHeader_encode h"
    using assms(2) by (simp add: encode_pdu_def)
  have len: "length (vc_rx c) < 80 + unat (pdu_bounce_len h)" "\<not> length (vc_rx c) < 16"
    using assms False by (simp_all add: length_encode_pdu)
  have "valid_kind (pdu_kind h)" "pdu_arg_len h = 64" using assms(1) by (auto simp: wf_pdu_def)
  with len show ?thesis
    by (simp add: take_pdu_def h total_len PDU_HDR_LEN_def CALL_FRAME_LEN_def)
qed

lemma take_pdu_error:
  assumes "take_pdu c = (r, c')"
  shows "r \<noteq> Panic \<and> (\<forall>e. r = Err e \<longrightarrow> c' = c) \<and>
    (r = Err InvalidParam \<longrightarrow>
       (\<forall>more. take_pdu (c\<lparr>vc_rx := vc_rx c @ more\<rparr>) = (Err InvalidParam, c\<lparr>vc_rx := vc_rx c @ more\<rparr>)))"
proof (cases "length (vc_rx c) < 16")
  case True
  with assms show ?thesis by (auto simp: take_pdu_def PDU_HDR_LEN_def)
next
  case False
  have np: "hv_PduHeader_decode (take 16 (vc_rx c)) \<noteq> Panic" using False by (simp add: hv_decode_total)
  have fr: "res_bind (slice_range b 16 80) (\<lambda>s.
      res_bind (decode_frame s) (\<lambda>frame.
      res_bind (slice_from b 80) (\<lambda>bounce. Ok (h, frame, bounce)))) = Ok (h, f, drop 80 b)"
    if "80 \<le> length b" "f = \<lparr>cf_r = map (\<lambda>i. from_le_bytes (take 8 (drop (i * 8) (take 64 (drop 16 b))))) [0..<8]\<rparr>"
    for b h f
    using that by (simp add: slice_range_def slice_from_def PDU_HDR_LEN_def CALL_FRAME_LEN_def decode_frame_eq)
  show ?thesis
  proof (cases "hv_PduHeader_decode (take 16 (vc_rx c))")
    case (Ok h)
    with assms False fr [of "take (80 + unat (pdu_bounce_len h)) (vc_rx c)" _ h] show ?thesis
      by (auto simp: take_pdu_def total_len Let_def PDU_HDR_LEN_def CALL_FRAME_LEN_def split: if_splits)
  next
    case (Err e)
    with assms False show ?thesis by (auto simp: take_pdu_def PDU_HDR_LEN_def)
  next
    case Panic
    with np show ?thesis by simp
  qed
qed

lemma pdu_no_panic: "take_pdu c \<noteq> (Panic, c')"
  using take_pdu_error [of c Panic c'] by blast

text \<open>A sequence of packets arriving on the connection.\<close>

fun push_all :: "vsock_conn \<Rightarrow> (vsock_hdr \<times> bytes) list \<Rightarrow> (vsock_conn, hal_error) res" where
  "push_all c [] = Ok c"
| "push_all c ((h, p) # ps) = res_bind (push_rw c h p) (\<lambda>c. push_all c ps)"

lemma push_all_rx:
  "push_all c ps = Ok c' \<Longrightarrow> vc_rx c' = vc_rx c @ concat (map snd ps) \<and>
     c' = c\<lparr>vc_rx := vc_rx c', vc_fwd_cnt := vc_fwd_cnt c + sum_list (map (vk_len \<circ> fst) ps)\<rparr>"
proof (induction ps arbitrary: c)
  case (Cons hp ps)
  obtain h p where hp: "hp = (h, p)" by fastforce
  with Cons.prems obtain c1 where c1: "push_rw c h p = Ok c1" "push_all c1 ps = Ok c'" by auto
  then have "c1 = c\<lparr>vc_rx := vc_rx c @ p, vc_fwd_cnt := vc_fwd_cnt c + vk_len h\<rparr>"
    by (auto simp: push_rw_def split: if_splits)
  with Cons.IH [OF c1(2)] hp show ?case by (cases c; cases c') (auto simp: add.assoc)
qed simp

section \<open>Properties of the transport\<close>

text \<open>C24. Reassembly: however the bytes of a PDU are cut into packets, as long as some are missing the
  connection reports \<open>NotFound\<close> and keeps everything, and once the last packet has arrived, together
  with whatever follows it, exactly this PDU is taken and exactly the rest stays.\<close>

theorem pdu_reassembly:
  assumes "wf_pdu h f b" and "vc_rx c = []" and "push_all c ps = Ok c'"
    and "concat (map snd ps) @ missing = encode_pdu h f b @ rest"
  shows "(missing = [] \<longrightarrow> take_pdu c' = (Ok (h, f, b), c'\<lparr>vc_rx := rest\<rparr>)) \<and>
         (rest = [] \<and> missing \<noteq> [] \<longrightarrow> take_pdu c' = (Err NotFound, c'))"
proof (intro conjI impI)
  have rx: "vc_rx c' = concat (map snd ps)" using push_all_rx [OF assms(3)] assms(2) by simp
  show "take_pdu c' = (Ok (h, f, b), c'\<lparr>vc_rx := rest\<rparr>)" if "missing = []"
    using take_pdu_whole [OF assms(1)] assms(4) rx that by simp
  show "take_pdu c' = (Err NotFound, c')" if m: "rest = [] \<and> missing \<noteq> []"
  proof (rule take_pdu_part [OF assms(1)])
    have e: "concat (map snd ps) @ missing = encode_pdu h f b" using assms(4) m by simp
    then show "vc_rx c' = take (length (concat (map snd ps))) (encode_pdu h f b)"
      by (metis rx append_eq_conv_conj)
    show "length (concat (map snd ps)) < length (encode_pdu h f b)" using m by (simp flip: e)
  qed
qed

definition demo_conn :: vsock_conn where
  "demo_conn = \<lparr>vc_guest_cid = 3, vc_guest_port = 7007, vc_host_cid = 2, vc_host_port = 1024,
     vc_fwd_cnt = 0, vc_rx = []\<rparr>"

definition demo_rw :: "u32 \<Rightarrow> vsock_hdr" where
  "demo_rw n = \<lparr>vk_src_cid = 2, vk_dst_cid = 3, vk_src_port = 1024, vk_dst_port = 7007, vk_len = n,
     vk_ty = 1, vk_op = 5, vk_flags = 0, vk_buf_alloc = 0, vk_fwd_cnt = 0\<rparr>"

definition demo_pdu :: pdu_header where
  "demo_pdu = \<lparr>pdu_kind = 1, pdu_seq = 9, pdu_arg_len = 64, pdu_bounce_len = 2\<rparr>"

theorem pdu_reassembly_witness:
  "\<exists>c'. push_all demo_conn
     [(demo_rw 16, hv_PduHeader_encode demo_pdu), (demo_rw 64, encode_frame CallFrame_default),
      (demo_rw 2, [5, 6])] = Ok c' \<and>
     take_pdu c' = (Ok (demo_pdu, CallFrame_default, [5, 6]), c'\<lparr>vc_rx := []\<rparr>)"
proof -
  let ?ps = "[(demo_rw 16, hv_PduHeader_encode demo_pdu), (demo_rw 64, encode_frame CallFrame_default),
      (demo_rw 2, [5, 6])]"
  obtain c' where p: "push_all demo_conn ?ps = Ok c'"
    by (simp add: push_rw_def demo_conn_def demo_rw_def VIRTIO_VSOCK_OP_RW_def)
  have "wf_pdu demo_pdu CallFrame_default [5, 6]"
    by (simp add: wf_pdu_def demo_pdu_def valid_kind_def KIND_ENTER_def)
  from pdu_reassembly [OF this _ p, of "[]" "[]"]
  have "take_pdu c' = (Ok (demo_pdu, CallFrame_default, [5, 6]), c'\<lparr>vc_rx := []\<rparr>)"
    by (simp add: demo_conn_def encode_pdu_def)
  with p show ?thesis by blast
qed

text \<open>Reading never panics and an error takes nothing from the stream. So a header of unknown kind
  or frame size is fatal for the connection: it stays at the front, and every later attempt to read,
  whatever has arrived since, fails the same way.\<close>

lemma pdu_error_sticks:
  assumes "take_pdu c = (r, c')"
  shows "r \<noteq> Panic \<and> (\<forall>e. r = Err e \<longrightarrow> c' = c) \<and>
    (r = Err InvalidParam \<longrightarrow>
       (\<forall>more. take_pdu (c\<lparr>vc_rx := vc_rx c @ more\<rparr>) = (Err InvalidParam, c\<lparr>vc_rx := vc_rx c @ more\<rparr>)))"
  using assms by (rule take_pdu_error)

end
