(* ===== verification/Virt_Hal.thy ===== *)
theory Virt_Hal
  imports Virt_Vsock Slot_Table
begin

text \<open>
  The virtual HAL, \<open>crates/rustee-hal-virt/src/lib.rs\<close> and \<open>rng.rs\<close>: the call gate with its single
  outstanding yielding call, shared-memory registrations as windows of the bounce pool, the address
  space, the entropy source, and the operations of \<open>VirtHal\<close> on the stream and the pool. The
  addresses the allocator returns (of the pool and of a copied image) are parameters. The record
  \<open>virt_ops\<close> is this HAL behind the interface of the kernel.
\<close>

section \<open>The call gate\<close>

record virt_gate =
  vg_yielding :: bool
  vg_rx :: "(pdu_header \<times> call_frame) option"
  vg_tx :: "(pdu_header \<times> call_frame) option"
  vg_seq :: u32
  vg_last_cookie :: u64
  vg_last_bounce_len :: u32

definition gate_recv :: "virt_gate \<Rightarrow> (call_frame, hal_error) res \<times> virt_gate" where
  "gate_recv g =
     (if vg_yielding g then (Err Busy, g)
      else case vg_rx g of
        Some (h, f) \<Rightarrow>
          let g = g\<lparr>vg_rx := None\<rparr> in
          if pdu_kind h = KIND_ENTER \<and> pdu_arg_len h = word_of_nat CALL_FRAME_LEN
          then (Ok f, g\<lparr>vg_seq := pdu_seq h, vg_last_cookie := cookie_a1a2 f,
                        vg_last_bounce_len := pdu_bounce_len h\<rparr>)
          else (Err InvalidParam, g)
      | None \<Rightarrow> (Err NotFound, g))"

definition gate_complete :: "virt_gate \<Rightarrow> call_frame \<Rightarrow> virt_gate" where
  "gate_complete g out =
     g\<lparr>vg_tx := Some (\<lparr>pdu_kind = KIND_COMPLETE, pdu_seq = vg_seq g,
                       pdu_arg_len = word_of_nat CALL_FRAME_LEN,
                       pdu_bounce_len = vg_last_bounce_len g\<rparr>, out),
       vg_yielding := False, vg_rx := None\<rparr>"

definition gate_rpc_yield :: "virt_gate \<Rightarrow> call_frame \<Rightarrow> (call_frame, hal_error) res \<times> virt_gate" where
  "gate_rpc_yield g out =
     (let g = g\<lparr>vg_yielding := True,
                vg_tx := Some (\<lparr>pdu_kind = KIND_RPC, pdu_seq = vg_seq g,
                                pdu_arg_len = word_of_nat CALL_FRAME_LEN,
                                pdu_bounce_len = vg_last_bounce_len g\<rparr>, out)\<rparr> in
      case vg_rx g of
        Some (h, f) \<Rightarrow>
          let g = g\<lparr>vg_rx := None\<rparr> in
          if pdu_kind h = KIND_RPC_REPLY \<and> pdu_arg_len h = word_of_nat CALL_FRAME_LEN
          then (Ok f, g\<lparr>vg_yielding := False, vg_last_cookie := cookie_a1a2 f,
                        vg_last_bounce_len := pdu_bounce_len h\<rparr>)
          else (Err InvalidParam, g)
      | None \<Rightarrow> (Err NotFound, g))"

section \<open>Shared memory and address spaces\<close>

record virt_shm =
  vs_cookie :: u64
  vs_len :: usize
  vs_perms :: perms

definition shm_sync_in :: "virt_shm \<Rightarrow> (unit, hal_error) res \<times> virt_shm" where
  "shm_sync_in s = (Ok (), s)"

definition shm_sync_out :: "virt_shm \<Rightarrow> (unit, hal_error) res \<times> virt_shm" where
  "shm_sync_out s = (Ok (), s)"

record virt_as =
  va_mapped :: usize
  va_pool_va :: u64
  va_images :: "bytes list"

text \<open>\<open>alloc_va\<close> gives the address of the copy of an image, where the allocator put it.\<close>

definition map_image ::
  "(virt_as \<Rightarrow> bytes \<Rightarrow> u64) \<Rightarrow> virt_as \<Rightarrow> u64 \<Rightarrow> bytes \<Rightarrow> perms \<Rightarrow> (hal_error + u64) \<times> virt_as" where
  "map_image alloc_va a va src p =
     (if p_exec p \<and> src = [] then (Inl InvalidParam, a)
      else (Inr (alloc_va a src),
            a\<lparr>va_images := va_images a @ [src], va_mapped := saturating_add (va_mapped a) 1\<rparr>))"

definition map_shm :: "virt_as \<Rightarrow> virt_shm \<Rightarrow> perms \<Rightarrow> (hal_error + u64) \<times> virt_as" where
  "map_shm a s p =
     (if p_exec p \<or> p_exec (vs_perms s) then (Inl PermDenied, a)
      else if vs_len s = 0 then (Inl InvalidParam, a)
      else case checked_add (unat (vs_cookie s)) (vs_len s) of
        None \<Rightarrow> (Inl InvalidParam, a)
      | Some e \<Rightarrow>
          if e > BOUNCE_POOL_SIZE then (Inl InvalidParam, a)
          else (Inr (va_pool_va a + vs_cookie s), a\<lparr>va_mapped := saturating_add (va_mapped a) 1\<rparr>))"

definition as_unmap_virt :: "virt_as \<Rightarrow> u64 \<Rightarrow> virt_as" where
  "as_unmap_virt a va = a\<lparr>va_mapped := va_mapped a - 1\<rparr>"

definition drop_all :: "virt_as \<Rightarrow> virt_as" where
  "drop_all a = a\<lparr>va_mapped := 0, va_images := []\<rparr>"

section \<open>Entropy\<close>

record virt_entropy =
  ve_pool :: bytes
  ve_req :: u32

definition VirtEntropy_new :: virt_entropy where
  "VirtEntropy_new = \<lparr>ve_pool = [], ve_req = 1\<rparr>"

definition entropy_complete :: "virt_entropy \<Rightarrow> bytes \<Rightarrow> virt_entropy" where
  "entropy_complete e b = e\<lparr>ve_pool := ve_pool e @ b\<rparr>"

fun lcg_block :: "nat \<Rightarrow> u32 \<Rightarrow> bytes" where
  "lcg_block 0 s = []"
| "lcg_block (Suc n) s =
     (let s = s * 1664525 + 1013904223 in ucast (drop_bit 24 s) # lcg_block n s)"

definition kick_request :: "virt_entropy \<Rightarrow> usize \<Rightarrow> virt_entropy" where
  "kick_request e n =
     (let e = e\<lparr>ve_req := ve_req e + 1\<rparr> in
      entropy_complete e (lcg_block n (ve_req e * 0x9e3779b9)))"

text \<open>\<open>fill\<close> on a buffer \<open>buf\<close> returns its new contents.\<close>

definition entropy_fill :: "virt_entropy \<Rightarrow> bytes \<Rightarrow> bytes \<times> virt_entropy" where
  "entropy_fill e buf =
     (if buf = [] then (buf, e)
      else
        let e = (if length (ve_pool e) < length buf then kick_request e (max (length buf) 32) else e);
            n = min (length buf) (length (ve_pool e));
            buf = take n (ve_pool e) @ drop n buf;
            e = e\<lparr>ve_pool := drop n (ve_pool e)\<rparr> in
        (if list_all (\<lambda>b. b = 0) buf then buf[0 := 0xa5] else buf, e))"

definition entropy_origin_of :: "virt_entropy \<Rightarrow> entropy_origin" where
  "entropy_origin_of e = ReeHost"

section \<open>The HAL\<close>

definition hv_VIRT_ENTROPY_NOTICE :: string where
  "hv_VIRT_ENTROPY_NOTICE = ''RUSTEE virt entropy is ReeHost (virtio-rng / host), not Isolated''"
definition hv_VIRT_HUK_NOTICE :: string where
  "hv_VIRT_HUK_NOTICE = ''RUSTEE virt HUK is a compile-time test key, not a product HUK''"

record virt_hal =
  vh_gate :: virt_gate
  vh_bounce_len :: usize
  vh_bounce_mem :: bytes
  vh_pool_va :: u64
  vh_entropy :: virt_entropy
  vh_huk :: bytes
  vh_shms :: "virt_shm option list"
  vh_listener :: vsock_listener
  vh_conn :: "vsock_conn option"
  vh_enter_cookie :: u64
  vh_enter_bounce_len :: u32

definition boot_notices :: "string \<times> string" where
  "boot_notices = (hv_VIRT_ENTROPY_NOTICE, hv_VIRT_HUK_NOTICE)"

definition HUK_BYTES :: bytes where
  "HUK_BYTES = ascii ''RUSTEE-VIRT-DEV-HUK-NOT-SECRET!!''"

text \<open>\<open>init\<close> with a pool of \<open>n\<close> bytes at \<open>pool_va\<close>.\<close>

definition virt_init :: "u64 \<Rightarrow> usize \<Rightarrow> (virt_hal, hal_error) res" where
  "virt_init pool_va n =
     (if n \<noteq> BOUNCE_POOL_SIZE then Err InvalidParam
      else Ok \<lparr>vh_gate = \<lparr>vg_yielding = False, vg_rx = None, vg_tx = None, vg_seq = 0,
                          vg_last_cookie = 0, vg_last_bounce_len = 0\<rparr>,
               vh_bounce_len = n, vh_bounce_mem = replicate BOUNCE_POOL_SIZE 0, vh_pool_va = pool_va,
               vh_entropy = VirtEntropy_new, vh_huk = HUK_BYTES, vh_shms = replicate 32 None,
               vh_listener = vl_listen VsockListener_default, vh_conn = None,
               vh_enter_cookie = 0, vh_enter_bounce_len = 0\<rparr>)"

text \<open>\<open>VirtHal::new\<close>: \<open>init\<close> with the fixed boot information, whose failure would panic.\<close>

definition virt_new :: "u64 \<Rightarrow> (virt_hal, hal_error) res" where
  "virt_new pool_va = (case virt_init pool_va BOUNCE_POOL_SIZE of Err e \<Rightarrow> Panic | r \<Rightarrow> r)"

definition copy_bounce_in :: "virt_hal \<Rightarrow> u64 \<Rightarrow> bytes \<Rightarrow> (virt_hal, hal_error) res" where
  "copy_bounce_in h ck bounce =
     (let start = unat ck in
      case checked_add start (length bounce) of
        None \<Rightarrow> Err InvalidParam
      | Some e \<Rightarrow>
          if e > vh_bounce_len h then Err InvalidParam
          else res_bind (put_range (vh_bounce_mem h) start bounce) (\<lambda>m. Ok (h\<lparr>vh_bounce_mem := m\<rparr>)))"

definition feed_pdu :: "virt_hal \<Rightarrow> pdu_header \<Rightarrow> call_frame \<Rightarrow> bytes \<Rightarrow> (virt_hal, hal_error) res" where
  "feed_pdu h hdr f bounce =
     (if pdu_arg_len hdr \<noteq> word_of_nat CALL_FRAME_LEN then Err InvalidParam
      else if length bounce \<noteq> unat (pdu_bounce_len hdr) then Err InvalidParam
      else res_bind (copy_bounce_in h (cookie_a1a2 f) bounce) (\<lambda>h.
        Ok (h\<lparr>vh_gate := (vh_gate h)\<lparr>vg_rx := Some (hdr, f)\<rparr>\<rparr>)))"

text \<open>\<open>take_tx\<close>: \<open>Ok None\<close> when nothing is queued; the sum may overflow.\<close>

definition take_tx ::
  "virt_hal \<Rightarrow> ((pdu_header \<times> call_frame \<times> bytes) option, hal_error) res \<times> virt_hal" where
  "take_tx h =
     (case vg_tx (vh_gate h) of
        None \<Rightarrow> (Ok None, h)
      | Some (hdr, f) \<Rightarrow>
          let h = h\<lparr>vh_gate := (vh_gate h)\<lparr>vg_tx := None\<rparr>\<rparr>;
              start = unat (vg_last_cookie (vh_gate h)); len = unat (pdu_bounce_len hdr) in
          (res_bind (usize_add start len) (\<lambda>e.
             if e \<le> length (vh_bounce_mem h)
             then res_bind (slice_range (vh_bounce_mem h) start e) (\<lambda>b. Ok (Some (hdr, f, b)))
             else Ok (Some (hdr, f, []))), h))"

definition bounce_at :: "virt_hal \<Rightarrow> u64 \<Rightarrow> usize \<Rightarrow> bytes option" where
  "bounce_at h ck len =
     (case checked_add (unat ck) len of None \<Rightarrow> None | Some e \<Rightarrow> get_range (vh_bounce_mem h) (unat ck) e)"

text \<open>\<open>bounce_at_mut\<close> and a write through the slice it returns.\<close>

definition bounce_write :: "virt_hal \<Rightarrow> u64 \<Rightarrow> usize \<Rightarrow> (bytes \<Rightarrow> bytes) \<Rightarrow> virt_hal option" where
  "bounce_write h ck len g =
     (case bounce_at h ck len of
        None \<Rightarrow> None
      | Some s \<Rightarrow> Some (h\<lparr>vh_bounce_mem :=
          take (unat ck) (vh_bounce_mem h) @ g s @ drop (unat ck + len) (vh_bounce_mem h)\<rparr>))"

definition import_shm :: "virt_hal \<Rightarrow> u64 \<Rightarrow> usize \<Rightarrow> perms \<Rightarrow> (unit, hal_error) res \<times> virt_hal" where
  "import_shm h offset len p =
     (if p_exec p then (Err PermDenied, h)
      else case (usize_add (unat offset) len :: (usize, hal_error) res) of
        Panic \<Rightarrow> (Panic, h)
      | Err e \<Rightarrow> (Err e, h)
      | Ok e \<Rightarrow>
          if e > vh_bounce_len h then (Err InvalidParam, h)
          else if unat offset mod MSG_ARG_ALIGN \<noteq> 0 then (Err BadAlignment, h)
          else if find (\<lambda>s. vs_cookie s = offset) (flatten (vh_shms h)) \<noteq> None
          then (Ok (), h\<lparr>vh_shms := modify_first (\<lambda>s. vs_cookie s = offset)
                                     (\<lambda>s. s\<lparr>vs_len := len, vs_perms := p\<rparr>) (vh_shms h)\<rparr>)
          else (case put_first \<lparr>vs_cookie = offset, vs_len = len, vs_perms = p\<rparr> (vh_shms h) of
                  None \<Rightarrow> (Err NoMemory, h)
                | Some ss \<Rightarrow> (Ok (), h\<lparr>vh_shms := ss\<rparr>)))"

definition listen_vsock :: "virt_hal \<Rightarrow> virt_hal" where
  "listen_vsock h = h\<lparr>vh_listener := vl_listen (vh_listener h)\<rparr>"

definition vsock_bound :: "virt_hal \<Rightarrow> (u32 \<times> u32) option" where
  "vsock_bound h =
     (if vl_listening (vh_listener h) then Some (vl_cid (vh_listener h), vl_port (vh_listener h)) else None)"

definition feed_rng :: "virt_hal \<Rightarrow> bytes \<Rightarrow> virt_hal" where
  "feed_rng h b = h\<lparr>vh_entropy := entropy_complete (vh_entropy h) b\<rparr>"

definition accept_connect :: "virt_hal \<Rightarrow> vsock_hdr \<Rightarrow> (vsock_hdr, hal_error) res \<times> virt_hal" where
  "accept_connect h req =
     (case vl_accept (vh_listener h) req of
        Ok resp \<Rightarrow> (Ok resp, h\<lparr>vh_conn := Some (conn_from_accept req (vh_listener h))\<rparr>)
      | r \<Rightarrow> (r, h))"

definition push_host_rw :: "virt_hal \<Rightarrow> vsock_hdr \<Rightarrow> bytes \<Rightarrow> (virt_hal, hal_error) res" where
  "push_host_rw h hdr payload =
     (case vh_conn h of
        None \<Rightarrow> Err NotFound
      | Some c \<Rightarrow> res_bind (push_rw c hdr payload) (\<lambda>c. Ok (h\<lparr>vh_conn := Some c\<rparr>)))"

text \<open>Reading a PDU off the accepted stream; the stream changes also when a later step fails.\<close>

definition read_stream ::
  "virt_hal \<Rightarrow> (pdu_header \<times> call_frame \<times> bytes, hal_error) res \<times> virt_hal" where
  "read_stream h =
     (case vh_conn h of
        None \<Rightarrow> (Err NotFound, h)
      | Some c \<Rightarrow> let (r, c) = read_pdu c in (r, h\<lparr>vh_conn := Some c\<rparr>))"

definition recv_enter :: "virt_hal \<Rightarrow> (call_frame, hal_error) res \<times> virt_hal" where
  "recv_enter h =
     (case read_stream h of
        (Err e, h) \<Rightarrow> (Err e, h)
      | (Panic, h) \<Rightarrow> (Panic, h)
      | (Ok (hdr, f, bounce), h) \<Rightarrow>
          (case feed_pdu h hdr f bounce of
             Err e \<Rightarrow> (Err e, h)
           | Panic \<Rightarrow> (Panic, h)
           | Ok h \<Rightarrow> let (r, g) = gate_recv (vh_gate h) in (r, h\<lparr>vh_gate := g\<rparr>)))"

definition set_rpc_window :: "virt_hal \<Rightarrow> u64 \<Rightarrow> u32 \<Rightarrow> virt_hal" where
  "set_rpc_window h ck n =
     h\<lparr>vh_enter_cookie := vg_last_cookie (vh_gate h),
       vh_enter_bounce_len := vg_last_bounce_len (vh_gate h),
       vh_gate := (vh_gate h)\<lparr>vg_last_cookie := ck, vg_last_bounce_len := n\<rparr>\<rparr>"

definition recv_rpc_reply :: "virt_hal \<Rightarrow> (call_frame, hal_error) res \<times> virt_hal" where
  "recv_rpc_reply h =
     (case read_stream h of
        (Err e, h) \<Rightarrow> (Err e, h)
      | (Panic, h) \<Rightarrow> (Panic, h)
      | (Ok (hdr, f, bounce), h) \<Rightarrow>
          if pdu_kind hdr \<noteq> KIND_RPC_REPLY \<or> pdu_arg_len hdr \<noteq> word_of_nat CALL_FRAME_LEN
          then (Err InvalidParam, h)
          else (case feed_pdu h hdr f bounce of
                  Err e \<Rightarrow> (Err e, h)
                | Panic \<Rightarrow> (Panic, h)
                | Ok h \<Rightarrow>
                    (Ok f, h\<lparr>vh_gate := (vh_gate h)\<lparr>vg_rx := None, vg_yielding := False,
                               vg_last_cookie := vh_enter_cookie h,
                               vg_last_bounce_len := vh_enter_bounce_len h\<rparr>\<rparr>)))"

definition wrap_outgoing :: "virt_hal \<Rightarrow> bytes \<Rightarrow> (vsock_hdr, hal_error) res" where
  "wrap_outgoing h payload =
     (case vh_conn h of None \<Rightarrow> Err NotFound | Some c \<Rightarrow> Ok (fst (wrap_rw c payload)))"

definition hal_credit_update :: "virt_hal \<Rightarrow> (vsock_hdr, hal_error) res" where
  "hal_credit_update h =
     (case vh_conn h of None \<Rightarrow> Err NotFound | Some c \<Rightarrow> Ok (conn_credit_update c))"

definition complete_stream :: "virt_hal \<Rightarrow> call_frame \<Rightarrow> (vsock_hdr \<times> bytes, hal_error) res \<times> virt_hal" where
  "complete_stream h out =
     (let h = h\<lparr>vh_gate := gate_complete (vh_gate h) out\<rparr> in
      case take_tx h of
        (Err e, h) \<Rightarrow> (Err e, h)
      | (Panic, h) \<Rightarrow> (Panic, h)
      | (Ok None, h) \<Rightarrow> (Err Fault, h)
      | (Ok (Some (hdr, f, bounce)), h) \<Rightarrow>
          let pdu = encode_pdu hdr f bounce in
          (case vh_conn h of
             None \<Rightarrow> (Err NotFound, h)
           | Some c \<Rightarrow> (Ok (fst (wrap_rw c pdu), pdu), h)))"

definition import_arg :: "virt_hal \<Rightarrow> u64 \<Rightarrow> usize \<Rightarrow> (u64, hal_error) res" where
  "import_arg h offset len =
     (if unat offset mod MSG_ARG_ALIGN \<noteq> 0 then Err BadAlignment
      else res_bind (usize_add (unat offset) len) (\<lambda>e.
        if e > vh_bounce_len h then Err InvalidParam else Ok offset))"

definition new_address_space :: "virt_hal \<Rightarrow> virt_as" where
  "new_address_space h = \<lparr>va_mapped = 0, va_pool_va = vh_pool_va h, va_images = []\<rparr>"

definition lookup_shm :: "virt_hal \<Rightarrow> u64 \<Rightarrow> virt_shm option" where
  "lookup_shm h ck = find (\<lambda>s. vs_cookie s = ck) (flatten (vh_shms h))"

text \<open>\<open>lookup_shm_mut\<close> followed by \<open>sync_in\<close> or \<open>sync_out\<close>, as the kernel uses them.\<close>

definition lookup_sync ::
  "(virt_shm \<Rightarrow> (unit, hal_error) res \<times> virt_shm) \<Rightarrow> virt_hal \<Rightarrow> u64 \<Rightarrow> ((hal_error + unit) \<times> virt_hal) option" where
  "lookup_sync sync h ck =
     (case lookup_shm h ck of
        None \<Rightarrow> None
      | Some s \<Rightarrow>
          Some (case fst (sync s) of Err e \<Rightarrow> Inl e | _ \<Rightarrow> Inr (),
                h\<lparr>vh_shms := modify_first (\<lambda>s. vs_cookie s = ck) (\<lambda>s. snd (sync s)) (vh_shms h)\<rparr>))"

definition virt_ops :: "(virt_as \<Rightarrow> bytes \<Rightarrow> u64) \<Rightarrow> (virt_hal, virt_as, virt_shm) hal_ops" where
  "virt_ops alloc_va =
     \<lparr>hal_entropy_origin = (\<lambda>h. entropy_origin_of (vh_entropy h)),
      hal_new_address_space = (\<lambda>h. (new_address_space h, h)),
      hal_lookup_shm = lookup_shm,
      hal_sync_in = lookup_sync shm_sync_in,
      hal_sync_out = lookup_sync shm_sync_out,
      shm_len = vs_len,
      shm_map_into = (\<lambda>s a p. map_shm a s p),
      as_map_image = map_image alloc_va,
      as_unmap = as_unmap_virt,
      as_drop_all = drop_all\<rparr>"

end
