(* ===== verification/Virt_Props.thy ===== *)
theory Virt_Props
  imports Virt_Hal
begin

text \<open>
  Properties of the virtual HAL: the invariant of the bounce pool and its registrations, kept by
  every operation; registration as an update of a finite map; which window of the pool a completed
  call sends back, also after a remote call in between; and the entropy source.
\<close>

section \<open>The invariant\<close>

definition shm_ok :: "virt_shm \<Rightarrow> bool" where
  "shm_ok s \<longleftrightarrow> unat (vs_cookie s) + vs_len s \<le> BOUNCE_POOL_SIZE \<and>
     unat (vs_cookie s) mod MSG_ARG_ALIGN = 0 \<and> \<not> p_exec (vs_perms s)"

definition hal_ok :: "virt_hal \<Rightarrow> bool" where
  "hal_ok h \<longleftrightarrow>
     vh_bounce_len h = BOUNCE_POOL_SIZE \<and> length (vh_bounce_mem h) = BOUNCE_POOL_SIZE \<and>
     length (vh_shms h) = 32 \<and> distinct (map vs_cookie (flatten (vh_shms h))) \<and>
     (\<forall>s \<in> set (flatten (vh_shms h)). shm_ok s)"

lemma hal_ok_upd [simp]:
  "hal_ok (h\<lparr>vh_gate := g\<rparr>) = hal_ok h" "hal_ok (h\<lparr>vh_entropy := e\<rparr>) = hal_ok h"
  "hal_ok (h\<lparr>vh_listener := l\<rparr>) = hal_ok h" "hal_ok (h\<lparr>vh_conn := c\<rparr>) = hal_ok h"
  "hal_ok (h\<lparr>vh_enter_cookie := ck\<rparr>) = hal_ok h" "hal_ok (h\<lparr>vh_enter_bounce_len := n\<rparr>) = hal_ok h"
  by (simp_all add: hal_ok_def)

lemma hal_ok_new: "virt_new va = Ok h \<Longrightarrow> hal_ok h"
  by (auto simp: virt_new_def virt_init_def hal_ok_def)

lemma copy_bounce_in_ok: "copy_bounce_in h ck b = Ok h' \<Longrightarrow> hal_ok h \<Longrightarrow> hal_ok h'"
  by (auto simp: copy_bounce_in_def Let_def hal_ok_def put_range_eq_Ok split: option.splits if_splits)

lemma feed_pdu_ok: "feed_pdu h hdr f b = Ok h' \<Longrightarrow> hal_ok h \<Longrightarrow> hal_ok h'"
  by (auto simp: feed_pdu_def dest: copy_bounce_in_ok split: if_splits)

lemma take_tx_ok: "hal_ok (snd (take_tx h)) = hal_ok h"
  by (auto simp: take_tx_def Let_def split: option.splits)

lemma read_stream_ok: "read_stream h = (r, h') \<Longrightarrow> hal_ok h' = hal_ok h"
  by (auto simp: read_stream_def split: option.splits prod.splits)

lemma modify_first_set:
  "x \<in> set (flatten (modify_first P f ss)) \<Longrightarrow>
   x \<in> set (flatten ss) \<or> (\<exists>y \<in> set (flatten ss). P y \<and> x = f y)"
  by (induction P f ss rule: modify_first.induct) (auto split: if_splits)

lemma import_shm_ok:
  assumes "hal_ok h" and "import_shm h offset n p = (r, h')"
  shows "hal_ok h'"
proof (cases "r = Ok ()")
  case False
  with assms show ?thesis
    by (auto simp: import_shm_def split: if_splits option.splits res.splits)
next
  case True
  with assms(2) have c: "\<not> p_exec p" "unat offset + n \<le> vh_bounce_len h" "unat offset mod MSG_ARG_ALIGN = 0"
    by (auto simp: import_shm_def usize_add_eq split: if_splits option.splits res.splits)
  show ?thesis
  proof (cases "find (\<lambda>s. vs_cookie s = offset) (flatten (vh_shms h))")
    case None
    with assms(2) True c obtain ss where
      ss: "put_first \<lparr>vs_cookie = offset, vs_len = n, vs_perms = p\<rparr> (vh_shms h) = Some ss"
        "h' = h\<lparr>vh_shms := ss\<rparr>"
      by (auto simp: import_shm_def usize_add_eq split: if_splits option.splits res.splits)
    from put_first_split [OF ss(1)] obtain us vs where
      uv: "flatten (vh_shms h) = us @ vs"
        "flatten ss = us @ \<lparr>vs_cookie = offset, vs_len = n, vs_perms = p\<rparr> # vs" by blast
    have "offset \<notin> vs_cookie ` set (us @ vs)" using None uv(1) by (auto simp: find_None_iff)
    with assms(1) c ss uv put_first_length [OF ss(1)] show ?thesis
      by (auto simp: hal_ok_def shm_ok_def)
  next
    case (Some s)
    with assms(2) True c have h': "h' = h\<lparr>vh_shms := modify_first (\<lambda>s. vs_cookie s = offset)
        (\<lambda>s. s\<lparr>vs_len := n, vs_perms := p\<rparr>) (vh_shms h)\<rparr>"
      by (auto simp: import_shm_def usize_add_eq split: if_splits option.splits res.splits)
    have "shm_ok x" if "x \<in> set (flatten (modify_first (\<lambda>s. vs_cookie s = offset)
        (\<lambda>s. s\<lparr>vs_len := n, vs_perms := p\<rparr>) (vh_shms h)))" for x
      using modify_first_set [OF that] assms(1) c by (auto simp: hal_ok_def shm_ok_def)
    with assms(1) h' show ?thesis by (simp add: hal_ok_def modify_first_ids)
  qed
qed

lemma lookup_shm_ok: "hal_ok h \<Longrightarrow> lookup_shm h ck = Some s \<Longrightarrow> shm_ok s \<and> vs_cookie s = ck"
  by (auto simp: hal_ok_def lookup_shm_def find_Some_iff_distinct)

lemma recv_enter_ok: "hal_ok h \<Longrightarrow> recv_enter h = (r, h') \<Longrightarrow> hal_ok h'"
  by (auto simp: recv_enter_def split: prod.splits res.splits dest!: read_stream_ok dest: feed_pdu_ok)

lemma recv_rpc_reply_ok: "hal_ok h \<Longrightarrow> recv_rpc_reply h = (r, h') \<Longrightarrow> hal_ok h'"
  by (auto simp: recv_rpc_reply_def split: prod.splits res.splits if_splits dest!: read_stream_ok dest: feed_pdu_ok)

lemma complete_stream_ok: "hal_ok h \<Longrightarrow> complete_stream h out = (r, h') \<Longrightarrow> hal_ok h'"
  using take_tx_ok [of "h\<lparr>vh_gate := gate_complete (vh_gate h) out\<rparr>"]
  by (auto simp: complete_stream_def Let_def split: prod.splits res.splits option.splits)

lemma bounce_write_ok:
  "hal_ok h \<Longrightarrow> bounce_write h ck n g = Some h' \<Longrightarrow> (\<And>s. length (g s) = length s) \<Longrightarrow> hal_ok h'"
  by (auto simp: bounce_write_def bounce_at_def hal_ok_def get_range_def checked_add_def
      split: option.splits if_splits)

lemma accept_connect_ok: "hal_ok h \<Longrightarrow> accept_connect h req = (r, h') \<Longrightarrow> hal_ok h'"
  by (auto simp: accept_connect_def split: res.splits)

lemma push_host_rw_ok: "hal_ok h \<Longrightarrow> push_host_rw h hdr p = Ok h' \<Longrightarrow> hal_ok h'"
  by (auto simp: push_host_rw_def split: option.splits)

lemma copy_bounce_in_no_panic: "hal_ok h \<Longrightarrow> copy_bounce_in h ck b \<noteq> Panic"
  by (auto simp: copy_bounce_in_def Let_def hal_ok_def put_range_def checked_add_def
      split: option.splits if_splits)

lemma feed_pdu_no_panic: "hal_ok h \<Longrightarrow> feed_pdu h hdr f b \<noteq> Panic"
  by (auto simp: feed_pdu_def copy_bounce_in_no_panic)

lemma read_stream_no_panic: "read_stream h = (r, h') \<Longrightarrow> r \<noteq> Panic"
  by (auto simp: read_stream_def read_pdu_def pdu_no_panic split: option.splits prod.splits)

lemma gate_recv_no_panic: "gate_recv g = (r, g') \<Longrightarrow> r \<noteq> Panic"
  by (auto simp: gate_recv_def Let_def split: option.splits if_splits)

lemma recv_enter_no_panic:
  assumes "hal_ok h" and "recv_enter h = (r, h')"
  shows "r \<noteq> Panic"
proof -
  obtain q h1 where q: "read_stream h = (q, h1)" by fastforce
  then have h1: "hal_ok h1" "q \<noteq> Panic" using read_stream_no_panic read_stream_ok assms(1) by auto
  show ?thesis
    using assms(2) q h1(2) feed_pdu_no_panic [OF h1(1)] gate_recv_no_panic
    by (auto simp: recv_enter_def split: res.splits prod.splits)
qed

lemma recv_rpc_reply_no_panic:
  assumes "hal_ok h" and "recv_rpc_reply h = (r, h')"
  shows "r \<noteq> Panic"
proof -
  obtain q h1 where q: "read_stream h = (q, h1)" by fastforce
  then have h1: "hal_ok h1" "q \<noteq> Panic" using read_stream_no_panic read_stream_ok assms(1) by auto
  show ?thesis
    using assms(2) q h1(2) feed_pdu_no_panic [OF h1(1)]
    by (auto simp: recv_rpc_reply_def split: res.splits prod.splits if_splits)
qed

text \<open>The states of the HAL: any sequence of its operations, with anything the peer sends, and any
  writes to the pool memory in between.\<close>

inductive virt_reach :: "virt_hal \<Rightarrow> bool" where
  new: "virt_new va = Ok h \<Longrightarrow> virt_reach h"
| enter: "virt_reach h \<Longrightarrow> recv_enter h = (r, h') \<Longrightarrow> virt_reach h'"
| reply: "virt_reach h \<Longrightarrow> recv_rpc_reply h = (r, h') \<Longrightarrow> virt_reach h'"
| complete: "virt_reach h \<Longrightarrow> complete_stream h out = (r, h') \<Longrightarrow> virt_reach h'"
| yield: "virt_reach h \<Longrightarrow> gate_rpc_yield (vh_gate h) out = (r, g) \<Longrightarrow> virt_reach (h\<lparr>vh_gate := g\<rparr>)"
| tx: "virt_reach h \<Longrightarrow> take_tx h = (r, h') \<Longrightarrow> virt_reach h'"
| register: "virt_reach h \<Longrightarrow> import_shm h off n p = (r, h') \<Longrightarrow> virt_reach h'"
| accept: "virt_reach h \<Longrightarrow> accept_connect h req = (r, h') \<Longrightarrow> virt_reach h'"
| push: "virt_reach h \<Longrightarrow> push_host_rw h hdr p = Ok h' \<Longrightarrow> virt_reach h'"
| window: "virt_reach h \<Longrightarrow> virt_reach (set_rpc_window h ck k)"
| rng: "virt_reach h \<Longrightarrow> virt_reach (feed_rng h b)"
| memory: "virt_reach h \<Longrightarrow> length m = length (vh_bounce_mem h) \<Longrightarrow> virt_reach (h\<lparr>vh_bounce_mem := m\<rparr>)"

lemma virt_reach_ok: "virt_reach h \<Longrightarrow> hal_ok h"
proof (induction rule: virt_reach.induct)
  case (tx h r h')
  then show ?case using take_tx_ok [of h] by simp
next
  case (memory h m)
  then show ?case by (simp add: hal_ok_def)
qed (auto simp: set_rpc_window_def feed_rng_def hal_ok_new
    intro: recv_enter_ok recv_rpc_reply_ok complete_stream_ok import_shm_ok accept_connect_ok push_host_rw_ok)

section \<open>Properties of the pool\<close>

text \<open>C20. The pool invariant: whatever the peer sends and whatever is written to the pool, the pool
  keeps its size, at most 32 windows are registered, under different cookies, every registered
  window is 8-byte aligned, lies inside the pool and is not executable; and taking the next
  command or reply off the stream never panics.\<close>

theorem pool_invariant:
  assumes "virt_reach h"
  shows "length (vh_bounce_mem h) = BOUNCE_POOL_SIZE \<and> length (flatten (vh_shms h)) \<le> 32 \<and>
    (\<forall>ck s. lookup_shm h ck = Some s \<longrightarrow>
       vs_cookie s = ck \<and> unat ck + vs_len s \<le> BOUNCE_POOL_SIZE \<and> unat ck mod 8 = 0 \<and>
       \<not> p_exec (vs_perms s)) \<and>
    distinct (map vs_cookie (flatten (vh_shms h))) \<and>
    fst (recv_enter h) \<noteq> Panic \<and> fst (recv_rpc_reply h) \<noteq> Panic"
proof -
  have ok: "hal_ok h" using assms by (rule virt_reach_ok)
  have "length (flatten ss) \<le> length ss" for ss :: "virt_shm option list"
    by (induction ss rule: flatten.induct) auto
  from this [of "vh_shms h"] ok show ?thesis
    using lookup_shm_ok [OF ok] recv_enter_no_panic [OF ok] recv_rpc_reply_no_panic [OF ok]
    by (auto simp: hal_ok_def shm_ok_def MSG_ARG_ALIGN_def) (metis prod.collapse)+
qed

lemma demo_virt: "\<exists>h. virt_new 0 = Ok h \<and> virt_reach h \<and> vh_shms h = replicate 32 None"
proof -
  obtain h where "virt_new 0 = Ok h" "vh_shms h = replicate 32 None"
    by (simp add: virt_new_def virt_init_def)
  then show ?thesis using virt_reach.new by blast
qed

theorem pool_invariant_witness:
  "\<exists>h h'. virt_new 0 = Ok h \<and> import_shm h 4096 64 PERMS_RW = (Ok (), h') \<and>
     length (vh_bounce_mem h') = BOUNCE_POOL_SIZE"
proof -
  obtain h where h: "virt_new 0 = Ok h" "virt_reach h" "vh_shms h = replicate 32 None"
    using demo_virt by blast
  have "vh_bounce_len h = BOUNCE_POOL_SIZE" using virt_reach_ok [OF h(2)] by (simp add: hal_ok_def)
  then obtain h' where i: "import_shm h 4096 64 PERMS_RW = (Ok (), h')"
    using h(3) by (auto simp: import_shm_def PERMS_RW_def usize_add_def USIZE_MAX_def BOUNCE_POOL_SIZE_def
        MSG_ARG_ALIGN_def replicate_unroll)
  have "virt_reach h'" using h(2) i by (rule virt_reach.register)
  from pool_invariant [OF this] h i show ?thesis by blast
qed

text \<open>C21. Registering a window is an update of a finite map: a successful \<open>import_shm\<close> changes the entry of
  its cookie, replacing an older one, and no other; a refused one changes nothing; and the check
  itself overflows exactly when the end of the window does not fit in 64 bits.\<close>

theorem registration_map:
  assumes "virt_reach h" and "import_shm h off n p = (r, h')"
  shows "(r = Ok () \<longrightarrow>
            lookup_shm h' = (lookup_shm h)(off \<mapsto> \<lparr>vs_cookie = off, vs_len = n, vs_perms = p\<rparr>)) \<and>
         (r \<noteq> Ok () \<longrightarrow> h' = h) \<and>
         (r = Panic \<longleftrightarrow> \<not> p_exec p \<and> USIZE_MAX < unat off + n)"
proof (intro conjI impI)
  show "r = Panic \<longleftrightarrow> \<not> p_exec p \<and> USIZE_MAX < unat off + n"
    using assms(2) by (auto simp: import_shm_def usize_add_def split: if_splits option.splits)
  show "h' = h" if "r \<noteq> Ok ()"
    using assms(2) that by (auto simp: import_shm_def split: if_splits option.splits res.splits)
  assume r: "r = Ok ()"
  have d: "distinct (map vs_cookie (flatten (vh_shms h)))"
    using virt_reach_ok [OF assms(1)] by (simp add: hal_ok_def)
  show "lookup_shm h' = (lookup_shm h)(off \<mapsto> \<lparr>vs_cookie = off, vs_len = n, vs_perms = p\<rparr>)"
  proof (cases "find (\<lambda>s. vs_cookie s = off) (flatten (vh_shms h))")
    case None
    with assms(2) r obtain ss where
      ss: "put_first \<lparr>vs_cookie = off, vs_len = n, vs_perms = p\<rparr> (vh_shms h) = Some ss"
        "h' = h\<lparr>vh_shms := ss\<rparr>"
      by (auto simp: import_shm_def usize_add_eq split: if_splits option.splits res.splits)
    from put_first_split [OF ss(1)] obtain us vs where
      uv: "flatten (vh_shms h) = us @ vs"
        "flatten ss = us @ \<lparr>vs_cookie = off, vs_len = n, vs_perms = p\<rparr> # vs" by blast
    have "find (\<lambda>s. vs_cookie s = off) us = None"
      using None uv(1) by (auto simp: find_append split: option.splits)
    with uv ss(2) show ?thesis
      by (auto simp: lookup_shm_def fun_eq_iff find_append split: option.splits)
  next
    case (Some s)
    then have s: "vs_cookie s = off" by (auto simp: find_Some_iff)
    from Some assms(2) r have "h' = h\<lparr>vh_shms := modify_first (\<lambda>s. vs_cookie s = off)
        (\<lambda>s. s\<lparr>vs_len := n, vs_perms := p\<rparr>) (vh_shms h)\<rparr>"
      by (auto simp: import_shm_def usize_add_eq split: if_splits option.splits res.splits)
    with Some s show ?thesis
      by (cases s) (auto simp: lookup_shm_def fun_eq_iff find_modify_first)
  qed
qed

theorem registration_map_witness:
  "\<exists>h h'. import_shm h 4096 64 PERMS_RW = (Ok (), h') \<and>
     lookup_shm h' 4096 = Some \<lparr>vs_cookie = 4096, vs_len = 64, vs_perms = PERMS_RW\<rparr>"
proof -
  obtain h where h: "virt_new 0 = Ok h" "virt_reach h" "vh_shms h = replicate 32 None"
    using demo_virt by blast
  have "vh_bounce_len h = BOUNCE_POOL_SIZE" using virt_reach_ok [OF h(2)] by (simp add: hal_ok_def)
  then obtain h' where i: "import_shm h 4096 64 PERMS_RW = (Ok (), h')"
    using h(3) by (auto simp: import_shm_def PERMS_RW_def usize_add_def USIZE_MAX_def BOUNCE_POOL_SIZE_def
        MSG_ARG_ALIGN_def replicate_unroll)
  from registration_map [OF h(2) i]
  have "lookup_shm h' 4096 = Some \<lparr>vs_cookie = 4096, vs_len = 64, vs_perms = PERMS_RW\<rparr>" by simp
  with i show ?thesis by blast
qed

section \<open>Calls and windows\<close>

text \<open>The sequence number and the window of the pool that the next outgoing PDU carries.\<close>

definition window :: "virt_hal \<Rightarrow> u32 \<times> u64 \<times> u32" where
  "window h = (vg_seq (vh_gate h), vg_last_cookie (vh_gate h), vg_last_bounce_len (vh_gate h))"

definition pool_slice :: "virt_hal \<Rightarrow> u64 \<Rightarrow> u32 \<Rightarrow> bytes" where
  "pool_slice h ck n = take (unat n) (drop (unat ck) (vh_bounce_mem h))"

definition pdu_of :: "u32 \<Rightarrow> u32 \<Rightarrow> u32 \<Rightarrow> pdu_header" where
  "pdu_of kind sq n = \<lparr>pdu_kind = kind, pdu_seq = sq, pdu_arg_len = 64, pdu_bounce_len = n\<rparr>"

lemma feed_pdu_Ok:
  assumes "feed_pdu h hdr f b = Ok h'"
  shows "unat (cookie f) + length b \<le> vh_bounce_len h \<and> length b = unat (pdu_bounce_len hdr) \<and>
    pdu_arg_len hdr = 64 \<and>
    h' = h\<lparr>vh_bounce_mem := take (unat (cookie f)) (vh_bounce_mem h) @ b @
             drop (unat (cookie f) + length b) (vh_bounce_mem h),
           vh_gate := (vh_gate h)\<lparr>vg_rx := Some (hdr, f)\<rparr>\<rparr> \<and>
    unat (cookie f) + length b \<le> length (vh_bounce_mem h)"
  using assms
  by (auto simp: feed_pdu_def copy_bounce_in_def Let_def put_range_eq_Ok cookie_a1a2_eq checked_add_def
      CALL_FRAME_LEN_def split: option.splits if_splits)

lemma read_stream_eq:
  "read_stream h = (r, h1) \<Longrightarrow> h1 = h\<lparr>vh_conn := vh_conn h1\<rparr> \<and> (\<forall>x. r = Ok x \<longrightarrow> vh_conn h1 \<noteq> None)"
  by (auto simp: read_stream_def split: option.splits prod.splits)

lemma recv_enter_Ok:
  assumes "recv_enter h = (Ok f, h')"
  obtains hdr b c where "fst (read_stream h) = Ok (hdr, f, b)" "pdu_kind hdr = KIND_ENTER"
    "window h' = (pdu_seq hdr, cookie f, pdu_bounce_len hdr)"
    "pool_slice h' (cookie f) (pdu_bounce_len hdr) = b"
    "unat (cookie f) + unat (pdu_bounce_len hdr) \<le> length (vh_bounce_mem h')"
    "vh_conn h' = Some c" "length (vh_bounce_mem h') = length (vh_bounce_mem h)"
proof -
  obtain q h1 where q: "read_stream h = (q, h1)" by fastforce
  with assms obtain hdr f' b h2 g where r: "q = Ok (hdr, f', b)" "feed_pdu h1 hdr f' b = Ok h2"
    "gate_recv (vh_gate h2) = (Ok f, g)" "h' = h2\<lparr>vh_gate := g\<rparr>"
    by (auto simp: recv_enter_def split: res.splits prod.splits)
  obtain c where c: "h1 = h\<lparr>vh_conn := Some c\<rparr>"
    using read_stream_eq [OF q] r(1) by auto
  from feed_pdu_Ok [OF r(2)] have h2: "unat (cookie f') + length b \<le> length (vh_bounce_mem h)"
    "length b = unat (pdu_bounce_len hdr)"
    "h2 = h1\<lparr>vh_bounce_mem := take (unat (cookie f')) (vh_bounce_mem h1) @ b @
             drop (unat (cookie f') + length b) (vh_bounce_mem h1),
           vh_gate := (vh_gate h1)\<lparr>vg_rx := Some (hdr, f')\<rparr>\<rparr>" using c by auto
  from r(3,4) h2(3) have f: "f' = f" "pdu_kind hdr = KIND_ENTER"
    "window h' = (pdu_seq hdr, cookie f, pdu_bounce_len hdr)"
    by (auto simp: gate_recv_def window_def cookie_a1a2_eq Let_def split: if_splits)
  have m: "vh_bounce_mem h' = take (unat (cookie f)) (vh_bounce_mem h) @ b @
      drop (unat (cookie f) + length b) (vh_bounce_mem h)" "vh_conn h' = Some c"
    by (subst r(4), simp add: h2(3) c f)+
  show ?thesis
  proof (rule that)
    show "fst (read_stream h) = Ok (hdr, f, b)" using q r(1) f by simp
    show "pool_slice h' (cookie f) (pdu_bounce_len hdr) = b"
      using h2 f by (simp add: pool_slice_def m)
  qed (use h2 f m in auto)
qed

lemma complete_stream_Ok:
  assumes "window h = (sq, ck, n)" and "unat ck + unat n \<le> length (vh_bounce_mem h)"
    and "length (vh_bounce_mem h) \<le> USIZE_MAX" and "vh_conn h = Some c"
  shows "\<exists>h'. complete_stream h out =
    (Ok (fst (wrap_rw c (encode_pdu (pdu_of KIND_COMPLETE sq n) out (pool_slice h ck n))),
         encode_pdu (pdu_of KIND_COMPLETE sq n) out (pool_slice h ck n)), h') \<and>
    vg_tx (vh_gate h') = None"
  using assms
  by (auto simp: complete_stream_def take_tx_def gate_complete_def window_def Let_def usize_add_def
      slice_range_def pool_slice_def pdu_of_def CALL_FRAME_LEN_def)

text \<open>C22. A completed call answers its command: after a command \<open>ENTER\<close> was received, its bounce data
  sit in the pool at the cookie of its frame; and whatever the handling wrote to the pool, completing
  with a frame \<open>out\<close> produces one \<open>COMPLETE\<close> with the sequence number of the command, that frame, and the
  contents of exactly the window the command came with, in one read-write packet from the guest's end
  of the connection to the host's whose length is that of the message; nothing stays queued.\<close>

theorem complete_answers_enter:
  assumes "virt_reach h" and "recv_enter h = (Ok f, h1)" and "length m = length (vh_bounce_mem h1)"
  shows "\<exists>hdr b c. fst (read_stream h) = Ok (hdr, f, b) \<and> pdu_kind hdr = KIND_ENTER \<and>
    pool_slice h1 (cookie f) (pdu_bounce_len hdr) = b \<and> vh_conn h1 = Some c \<and>
    (\<exists>h2. let pdu = encode_pdu (pdu_of KIND_COMPLETE (pdu_seq hdr) (pdu_bounce_len hdr)) out
                    (take (length b) (drop (unat (cookie f)) m)) in
       complete_stream (h1\<lparr>vh_bounce_mem := m\<rparr>) out =
         (Ok (\<lparr>vk_src_cid = vc_guest_cid c, vk_dst_cid = vc_host_cid c, vk_src_port = vc_guest_port c,
               vk_dst_port = vc_host_port c, vk_len = word_of_nat (length pdu),
               vk_ty = VIRTIO_VSOCK_TYPE_STREAM, vk_op = VIRTIO_VSOCK_OP_RW, vk_flags = 0,
               vk_buf_alloc = VSOCK_BUF_ALLOC, vk_fwd_cnt = vc_fwd_cnt c\<rparr>, pdu), h2) \<and>
       vg_tx (vh_gate h2) = None)"
proof -
  have len: "length (vh_bounce_mem h) \<le> USIZE_MAX"
    using virt_reach_ok [OF assms(1)] by (simp add: hal_ok_def BOUNCE_POOL_SIZE_def USIZE_MAX_def)
  from recv_enter_Ok [OF assms(2)] obtain hdr b c where e: "fst (read_stream h) = Ok (hdr, f, b)"
    "pdu_kind hdr = KIND_ENTER" "window h1 = (pdu_seq hdr, cookie f, pdu_bounce_len hdr)"
    "pool_slice h1 (cookie f) (pdu_bounce_len hdr) = b"
    "unat (cookie f) + unat (pdu_bounce_len hdr) \<le> length (vh_bounce_mem h1)"
    "vh_conn h1 = Some c" "length (vh_bounce_mem h1) = length (vh_bounce_mem h)" .
  let ?h = "h1\<lparr>vh_bounce_mem := m\<rparr>"
  have "length b = unat (pdu_bounce_len hdr)" using e(4,5) by (auto simp: pool_slice_def)
  then have s: "pool_slice ?h (cookie f) (pdu_bounce_len hdr) = take (length b) (drop (unat (cookie f)) m)"
    by (simp add: pool_slice_def)
  have "window ?h = (pdu_seq hdr, cookie f, pdu_bounce_len hdr)" "vh_conn ?h = Some c"
    "unat (cookie f) + unat (pdu_bounce_len hdr) \<le> length (vh_bounce_mem ?h)" "length (vh_bounce_mem ?h) \<le> USIZE_MAX"
    using e(3,5-7) assms(3) len by (simp_all add: window_def)
  from complete_stream_Ok [OF this(1,3,4,2), of out] e(1,2,4,6) show ?thesis
    by (simp add: s wrap_rw_def Let_def)
qed

text \<open>A HAL that accepted a connection and holds one whole command in its stream.\<close>

definition demo_request :: vsock_hdr where
  "demo_request = \<lparr>vk_src_cid = 2, vk_dst_cid = 3, vk_src_port = 1024, vk_dst_port = 7007, vk_len = 0,
     vk_ty = 1, vk_op = 1, vk_flags = 0, vk_buf_alloc = 0, vk_fwd_cnt = 0\<rparr>"

lemma demo_enter:
  "\<exists>h h1. virt_reach h \<and> recv_enter h = (Ok CallFrame_default, h1) \<and>
     fst (read_stream h) = Ok (demo_pdu, CallFrame_default, [5, 6])"
proof -
  obtain h0 where h0: "virt_new 0 = Ok h0" by (simp add: virt_new_def virt_init_def)
  then have h0': "vh_gate h0 = \<lparr>vg_yielding = False, vg_rx = None, vg_tx = None, vg_seq = 0,
      vg_last_cookie = 0, vg_last_bounce_len = 0\<rparr>" "vh_listener h0 = vl_listen VsockListener_default"
    by (auto simp: virt_new_def virt_init_def)
  have ok: "hal_ok h0" using h0 by (rule hal_ok_new)
  let ?h1 = "h0\<lparr>vh_conn := Some demo_conn\<rparr>"
  let ?h = "h0\<lparr>vh_conn := Some (demo_conn\<lparr>vc_rx := encode_pdu demo_pdu CallFrame_default [5, 6], vc_fwd_cnt := 82\<rparr>)\<rparr>"
  have wf: "wf_pdu demo_pdu CallFrame_default [5, 6]"
    by (simp add: wf_pdu_def demo_pdu_def valid_kind_def KIND_ENTER_def)
  have "\<exists>r. accept_connect h0 demo_request = (r, ?h1)"
    by (simp add: accept_connect_def h0' vl_accept_def vl_listen_def VsockListener_default_def demo_request_def
        vsock_op_defs conn_from_accept_def VSOCK_GUEST_CID_def VSOCK_PORT_def demo_conn_def)
  then have r1: "virt_reach ?h1" using virt_reach.accept [OF virt_reach.new [OF h0]] by blast
  have "push_host_rw ?h1 (demo_rw 82) (encode_pdu demo_pdu CallFrame_default [5, 6]) = Ok ?h"
    using length_encode_pdu [OF wf]
    by (simp add: push_host_rw_def push_rw_def demo_conn_def demo_rw_def VIRTIO_VSOCK_OP_RW_def demo_pdu_def)
  with r1 have r: "virt_reach ?h" by (rule virt_reach.push)
  have rs: "read_stream ?h = (Ok (demo_pdu, CallFrame_default, [5, 6]),
      h0\<lparr>vh_conn := Some (demo_conn\<lparr>vc_rx := [], vc_fwd_cnt := 82\<rparr>)\<rparr>)"
    using take_pdu_whole [OF wf, of _ "[]"] by (simp add: read_stream_def read_pdu_def demo_conn_def)
  have "length (vh_bounce_mem h0) = 16777216" "vh_bounce_len h0 = 16777216"
    using ok by (simp_all add: hal_ok_def BOUNCE_POOL_SIZE_def)
  then have "\<exists>h2. recv_enter ?h = (Ok CallFrame_default, h2)"
    using h0'(1) unfolding recv_enter_def rs
    by (simp add: feed_pdu_def copy_bounce_in_def Let_def demo_pdu_def CALL_FRAME_LEN_def
        cookie_a1a2_def CallFrame_default_def replicate_unroll checked_add_def USIZE_MAX_def put_range_def
        gate_recv_def KIND_ENTER_def)
  with r rs show ?thesis by (metis fst_conv)
qed

theorem complete_answers_enter_witness:
  "\<exists>h h1 vh b h2. recv_enter h = (Ok CallFrame_default, h1) \<and> vk_op vh = VIRTIO_VSOCK_OP_RW \<and>
     complete_stream h1 CallFrame_default =
       (Ok (vh, encode_pdu (pdu_of KIND_COMPLETE 9 2) CallFrame_default b), h2)"
proof -
  obtain h h1 where d: "virt_reach h" "recv_enter h = (Ok CallFrame_default, h1)"
    "fst (read_stream h) = Ok (demo_pdu, CallFrame_default, [5, 6])"
    using demo_enter by blast
  from complete_answers_enter [OF d(1,2), of "vh_bounce_mem h1" CallFrame_default] d(3)
  obtain vh b h2 where "complete_stream h1 CallFrame_default =
      (Ok (vh, encode_pdu (pdu_of KIND_COMPLETE 9 2) CallFrame_default b), h2)" "vk_op vh = VIRTIO_VSOCK_OP_RW"
    by (auto simp: demo_pdu_def Let_def)
  with d(2) show ?thesis by blast
qed







section \<open>Entropy\<close>

lemma length_lcg_block [simp]: "length (lcg_block n s) = n"
  by (induction n arbitrary: s) (auto simp: Let_def)

text \<open>The entropy source always fills the whole buffer and never hands out zeros only. The bytes are
  those the host delivered, in order; when too few are left, the missing ones are not requested from
  the host but generated from the request counter, a fixed linear congruential sequence.\<close>

lemma entropy_fill_spec:
  "let (out, e') = entropy_fill e buf;
       src = ve_pool e @ (if length (ve_pool e) < length buf
                          then lcg_block (max (length buf) 32) ((ve_req e + 1) * 0x9e3779b9) else []) in
   length out = length buf \<and> (buf \<noteq> [] \<longrightarrow> (\<exists>b \<in> set out. b \<noteq> 0)) \<and>
   ((\<exists>b \<in> set (take (length buf) src). b \<noteq> 0) \<longrightarrow>
      out = take (length buf) src \<and> ve_pool e' = drop (length buf) src)"
proof (cases "buf = []")
  case True
  then show ?thesis by (simp add: entropy_fill_def)
next
  case False
  define src where "src = ve_pool e @ (if length (ve_pool e) < length buf
      then lcg_block (max (length buf) 32) ((ve_req e + 1) * 0x9e3779b9) else [])"
  have len: "length buf \<le> length src" by (auto simp: src_def)
  have pool: "ve_pool (if length (ve_pool e) < length buf then kick_request e (max (length buf) 32) else e) = src"
    by (simp add: src_def kick_request_def entropy_complete_def Let_def)
  have f: "entropy_fill e buf =
      (if list_all (\<lambda>b. b = 0) (take (length buf) src) then (take (length buf) src)[0 := 0xa5]
       else take (length buf) src,
       (if length (ve_pool e) < length buf then kick_request e (max (length buf) 32) else e)
         \<lparr>ve_pool := drop (length buf) src\<rparr>)"
    using False len by (simp add: entropy_fill_def Let_def pool del: list_update.simps)
  have "\<exists>b \<in> set (xs[0 := 0xa5]). b \<noteq> (0 :: u8)" if "length xs = length buf" for xs
    using that False by (cases xs) auto
  with len show ?thesis
    unfolding f src_def [symmetric] by (auto simp: list_all_iff)
qed

end
