(* ===== verification/Virt_Kernel.thy ===== *)
theory Virt_Kernel
  imports Kernel_Calls Virt_Props
begin

text \<open>
  The kernel on the virtual HAL: \<open>virt_ops\<close> keeps the contract \<open>shm_contract\<close>, so the pointers the
  kernel hands to a trusted application lie in the bounce pool.
\<close>

section \<open>The virtual HAL keeps the contract\<close>

lemma modify_first_same: "(\<And>x. P x \<Longrightarrow> f x = x) \<Longrightarrow> modify_first P f ss = ss"
  by (induction P f ss rule: modify_first.induct) auto

lemma lookup_sync_same:
  "(\<And>s. snd (sync s) = s) \<Longrightarrow> lookup_sync sync h ck = Some (r, h') \<Longrightarrow> h' = h"
  by (auto simp: lookup_sync_def modify_first_same split: option.splits)

lemma shm_sync_same [simp]: "snd (shm_sync_in s) = s" "snd (shm_sync_out s) = s"
  by (simp_all add: shm_sync_in_def shm_sync_out_def)

lemma map_shm_placed:
  "map_shm a s p = (Inr va, a') \<Longrightarrow>
   va_pool_va a' = va_pool_va a \<and> va = va_pool_va a + vs_cookie s \<and>
   unat (vs_cookie s) + vs_len s \<le> BOUNCE_POOL_SIZE"
  by (auto simp: map_shm_def checked_add_def split: if_splits option.splits)

interpretation vshm: shm_contract "virt_ops alloc_va" hal_ok "\<lambda>a. va_pool_va a = pool"
    "\<lambda>s va. va = pool + vs_cookie s"
  for alloc_va pool
proof unfold_locales
  fix h h' :: virt_hal and ck r
  assume "hal_ok h" "hal_sync_in (virt_ops alloc_va) h ck = Some (r, h')"
  then show "hal_ok h' \<and> hal_lookup_shm (virt_ops alloc_va) h' = hal_lookup_shm (virt_ops alloc_va) h"
    using lookup_sync_same [of shm_sync_in h ck r h'] by (simp add: virt_ops_def)
next
  fix h :: virt_hal and ck s
  assume "hal_ok h" "hal_lookup_shm (virt_ops alloc_va) h ck = Some s"
  then show "shm_len (virt_ops alloc_va) s < USIZE_MAX"
    using lookup_shm_ok [of h ck s]
    by (simp add: virt_ops_def shm_ok_def BOUNCE_POOL_SIZE_def USIZE_MAX_def)
qed (auto simp: virt_ops_def dest: map_shm_placed)

section \<open>Pointers into the pool\<close>

text \<open>C25. On the virtual HAL a trusted application is handed a shared-memory pointer only into the
  bounce pool: if \<open>map_params\<close> succeeds for an instance whose address space belongs to the pool at
  \<open>pool\<close>, then for every memory reference the cookie is registered, the whole range lies within the
  registered window and so within the pool, and the pointer is the address of the pool plus the
  cookie plus the offset; every other parameter is passed as it was marshalled.\<close>

theorem memref_in_pool:
  assumes "e_hal E = virt_ops alloc_va" and "virt_reach (k_hal k)"
    and "instance_get (k_instances k) iid = Some x" and "i_aspace x = Some a" and "va_pool_va a = pool"
    and "map_params E k iid ps = (Ok (raw, vas), k')" and "length ps = PARAM_COUNT" and "i < PARAM_COUNT"
  shows "case ps ! i of
      PMemref (Ree ck offs) sz d \<Rightarrow>
        (\<exists>s. lookup_shm (k_hal k) ck = Some s \<and> offs + sz \<le> vs_len s \<and>
           unat ck + (offs + sz) \<le> BOUNCE_POOL_SIZE \<and>
           raw ! i = memref_raw (pool + ck + word_of_nat offs) sz)
    | _ \<Rightarrow> raw ! i = param_to_raw (ps ! i)"
proof -
  have ok: "hal_ok (k_hal k)" using assms(2) by (rule virt_reach_ok)
  have v: "hal_lookup_shm (virt_ops alloc_va) = lookup_shm" "shm_len (virt_ops alloc_va) = vs_len"
    by (simp_all add: virt_ops_def)
  from vshm.memrefs_inside [OF assms(1) ok assms(3,4,5,6,7,8)] show ?thesis
    unfolding v
    by (fastforce dest: lookup_shm_ok [OF ok] simp: shm_ok_def split: param.splits memref_src.splits)
qed

definition demo_virt_env :: "(virt_hal, virt_as, virt_shm, unit) env" where
  "demo_virt_env =
     \<lparr>e_hal = virt_ops (\<lambda>a b. 0),
      e_crypto = \<lparr>sha256 = (\<lambda>_. replicate 32 0), rsa_pkcs1_verify = (\<lambda>_ _ _. False)\<rparr>,
      e_pubkey = [],
      ta_create = (\<lambda>_ h. Some (TEE_SUCCESS, h)),
      ta_destroy = (\<lambda>_ h. Some h),
      ta_open = (\<lambda>_ _ raw _ h. Some (TEE_SUCCESS, raw, 9, h)),
      ta_close = (\<lambda>_ _ h. Some h),
      ta_invoke = (\<lambda>_ _ c _ raw h. Some (TEE_SUCCESS, raw, h)),
      pta_uuid = (\<lambda>_. []),
      pta_open = (\<lambda>_ _. None),
      pta_invoke = (\<lambda>_ _ _ _. None),
      pta_close = (\<lambda>_ _. None)\<rparr>"

definition demo_virt_inst :: "virt_hal \<Rightarrow> virt_as ta_instance" where
  "demo_virt_inst h = \<lparr>i_id = 1, i_uuid = [1], i_props = demo_props, i_aspace = Some (new_address_space h),
     i_session_count = 1, i_state = I_Live, i_entries = Some demo_ep, i_busy = False\<rparr>"

definition demo_virt_kernel :: "virt_hal \<Rightarrow> (virt_hal, virt_as, unit) kernel" where
  "demo_virt_kernel h =
     (kernel_new demo_virt_env h)\<lparr>k_instances := \<lparr>slots = [Some (demo_virt_inst h)], next_id = 2\<rparr>\<rparr>"

abbreviation demo_memref :: "param list" where
  "demo_memref \<equiv> [PMemref (Ree 4096 8) 16 Dir_InOut, PNone, PNone, PNone]"

lemma demo_window:
  "\<exists>h. virt_reach h \<and> lookup_shm h 4096 = Some \<lparr>vs_cookie = 4096, vs_len = 64, vs_perms = PERMS_RW\<rparr>"
proof -
  obtain h where h: "virt_reach h" "vh_shms h = replicate 32 None" using demo_virt by blast
  have "vh_bounce_len h = BOUNCE_POOL_SIZE" using virt_reach_ok [OF h(1)] by (simp add: hal_ok_def)
  then obtain h' where i: "import_shm h 4096 64 PERMS_RW = (Ok (), h')"
    "lookup_shm h' 4096 = Some \<lparr>vs_cookie = 4096, vs_len = 64, vs_perms = PERMS_RW\<rparr>"
    using h(2) by (auto simp: import_shm_def PERMS_RW_def usize_add_def USIZE_MAX_def BOUNCE_POOL_SIZE_def
        MSG_ARG_ALIGN_def lookup_shm_def replicate_unroll)
  then show ?thesis using virt_reach.register [OF h(1)] by blast
qed

theorem memref_in_pool_witness:
  "\<exists>h raw vas k'. virt_reach h \<and>
     map_params demo_virt_env (demo_virt_kernel h) 1 demo_memref = (Ok (raw, vas), k') \<and>
     raw ! 0 = memref_raw (vh_pool_va h + 4096 + 8) 16"
proof -
  obtain h where h: "virt_reach h"
    "lookup_shm h 4096 = Some \<lparr>vs_cookie = 4096, vs_len = 64, vs_perms = PERMS_RW\<rparr>"
    using demo_window by blast
  have e: "e_hal demo_virt_env = virt_ops (\<lambda>a b. 0)" by (simp add: demo_virt_env_def)
  have k: "k_hal (demo_virt_kernel h) = h"
    "instance_get (k_instances (demo_virt_kernel h)) 1 = Some (demo_virt_inst h)"
    "i_aspace (demo_virt_inst h) = Some (new_address_space h)" "va_pool_va (new_address_space h) = vh_pool_va h"
    by (simp_all add: demo_virt_kernel_def kernel_new_def Let_def demo_virt_inst_def new_address_space_def tbl_get_def)
  have sync: "lookup_sync shm_sync_in h 4096 = Some (Inr (), h)"
    using h(2) by (simp add: lookup_sync_def shm_sync_in_def modify_first_same)
  obtain raw vas k' where m: "map_params demo_virt_env (demo_virt_kernel h) 1 demo_memref = (Ok (raw, vas), k')"
    using h(2) sync
    by (simp add: map_params_def take_aspace_def put_aspace_def sync_param_in_def e virt_ops_def k
        upt_rec PARAM_COUNT_def map_shm_def saturating_add_def PERMS_RW_def checked_add_def
        USIZE_MAX_def BOUNCE_POOL_SIZE_def tbl_get_def tbl_update_def demo_virt_kernel_def demo_virt_inst_def
        kernel_new_def Let_def)
  from memref_in_pool [OF e _ k(2,3,4) m, of 0] h(1) k(1) m show ?thesis
    by (auto simp: PARAM_COUNT_def)
qed

end
