(* ===== verification/Guest_Cmd.thy ===== *)
theory Guest_Cmd
  imports Msg_Proto Os_Abi
begin

text \<open>
  The translation between messages in the bounce pool and kernel commands,
  \<open>guest/rustee-guest/src/proto_cmd.rs\<close>: decoding a command, packing a request for an application
  image and taking its answer, and writing the outcome of a command back. A loop over the
  parameters is recursion over their indices; \<open>Err ()\<close> is the \<open>Err(())\<close> of the source. The
  functions that write return the new pool.
\<close>

section \<open>Constants\<close>

definition TEE_TIMEOUT_INFINITE :: u32 where "TEE_TIMEOUT_INFINITE = 0xFFFFFFFF"

section \<open>Parameters\<close>

definition ty :: "msg_param \<Rightarrow> u64" where
  "ty p = mp_attr p AND ATTR_TYPE_MASK"

definition is_meta :: "msg_param \<Rightarrow> bool" where
  "is_meta p \<longleftrightarrow> mp_attr p AND ATTR_META \<noteq> 0"

definition dir_of :: "u64 \<Rightarrow> dir" where
  "dir_of t =
     (if t = ATTR_TYPE_TMEM_INPUT \<or> t = ATTR_TYPE_VALUE_INPUT then Dir_In
      else if t = ATTR_TYPE_TMEM_OUTPUT \<or> t = ATTR_TYPE_VALUE_OUTPUT then Dir_Out
      else Dir_InOut)"

definition param_of :: "msg_param \<Rightarrow> param" where
  "param_of p =
     (if ty p = ATTR_TYPE_NONE then PNone
      else if ty p \<in> {ATTR_TYPE_VALUE_INPUT, ATTR_TYPE_VALUE_OUTPUT, ATTR_TYPE_VALUE_INOUT}
      then PValue (ucast (mp_a p)) (ucast (mp_b p)) (dir_of (ty p))
      else if ty p \<in> {ATTR_TYPE_TMEM_INPUT, ATTR_TYPE_TMEM_OUTPUT, ATTR_TYPE_TMEM_INOUT}
      then PMemref (Ree (mp_a p) 0) (unat (mp_b p)) (dir_of (ty p))
      else PNone)"

section \<open>Identifiers as two words\<close>

definition uuid_from_words :: "u64 \<Rightarrow> u64 \<Rightarrow> uuid" where
  "uuid_from_words hi lo =
     (let time_low = ucast (drop_bit 32 hi) :: u32;
          time_mid = ucast (drop_bit 16 hi) :: u16;
          time_hi = ucast hi :: u16 in
      to_be_bytes time_low @ to_be_bytes time_mid @ to_be_bytes time_hi @ to_be_bytes lo)"

definition uuid_to_words :: "uuid \<Rightarrow> u64 \<times> u64" where
  "uuid_to_words u =
     (let time_low = from_be_bytes (take 4 u) :: u32;
          time_mid = from_be_bytes (take 2 (drop 4 u)) :: u16;
          time_hi = from_be_bytes (take 2 (drop 6 u)) :: u16;
          hi = push_bit 32 (ucast time_low) OR push_bit 16 (ucast time_mid) OR ucast time_hi;
          lo = from_be_bytes (take 8 (drop 8 u)) in
      (hi, lo))"

section \<open>Requesting an image\<close>

definition RPC_COOKIE :: u64 where "RPC_COOKIE = 0x800000"
definition LOAD_TA_CAP :: u64 where "LOAD_TA_CAP = 2 * 1024 * 1024"

definition pack_load_ta :: "bytes \<Rightarrow> uuid \<Rightarrow> ((u64 \<times> u32) \<times> bytes, unit) res" where
  "pack_load_ta pool uuid =
     (let (hi, lo) = uuid_to_words uuid;
          dest = RPC_COOKIE + word_of_nat (MSG_ARG_HDR_SIZE + 2 * MSG_PARAM_SIZE) in
      if dest mod 8 \<noteq> 0 \<or> dest < RPC_COOKIE then Err ()
      else
        let hdr = MsgArgHdr_default\<lparr>msg_cmd := RPC_CMD_LOAD_TA, msg_num_params := 2\<rparr>;
            params = [MsgParam_value ATTR_TYPE_VALUE_INPUT hi lo 0,
                      MsgParam_tmem ATTR_TYPE_TMEM_OUTPUT dest LOAD_TA_CAP 0] in
        res_bind (map_err (\<lambda>_. ()) (write_msg pool RPC_COOKIE hdr params)) (\<lambda>(n, pool).
          Ok ((RPC_COOKIE, word_of_nat n), pool)))"

definition take_load_ta :: "bytes \<Rightarrow> (bytes, u32) res" where
  "take_load_ta pool =
     res_bind (map_err (\<lambda>_. TEE_ERROR_BAD_PARAMETERS) (decode_msg pool RPC_COOKIE)) (\<lambda>(hdr, params, _).
       if msg_ret hdr \<noteq> 0 then Err (msg_ret hdr)
       else if msg_num_params hdr < 2 then Err TEE_ERROR_BAD_PARAMETERS
       else
         res_bind (index params 1) (\<lambda>p.
           let dest = unat (mp_a p); sz = unat (mp_b p) in
           res_bind (ok_or (checked_add dest sz) TEE_ERROR_BAD_PARAMETERS) (\<lambda>e.
             if dest < unat RPC_COOKIE \<or> e > length pool then Err TEE_ERROR_ITEM_NOT_FOUND
             else slice_range pool dest e)))"

section \<open>Decoding a command\<close>

fun open_params ::
  "msg_param list \<Rightarrow> nat list \<Rightarrow> uuid \<Rightarrow> login \<Rightarrow> param list \<Rightarrow> usize \<Rightarrow>
   (uuid \<times> login \<times> param list, unit) res" where
  "open_params params [] uuid login user ui = Ok (uuid, login, user)"
| "open_params params (i # is) uuid login user ui =
     res_bind (index params i) (\<lambda>p.
       if is_meta p
       then (if ty p = ATTR_TYPE_VALUE_INPUT \<and> i = 0
             then open_params params is (uuid_from_words (mp_a p) (mp_b p)) login user ui
             else if ucast (mp_c p) = MSG_LOGIN_PUBLIC
             then open_params params is uuid Login_Public user ui
             else open_params params is uuid login user ui)
       else if ui < PARAM_COUNT
       then open_params params is uuid login (user[ui := param_of p]) (ui + 1)
       else open_params params is uuid login user ui)"

fun invoke_params ::
  "msg_param list \<Rightarrow> nat list \<Rightarrow> param list \<Rightarrow> usize \<Rightarrow> (param list, unit) res" where
  "invoke_params params [] user ui = Ok user"
| "invoke_params params (i # is) user ui =
     res_bind (index params i) (\<lambda>p.
       if is_meta p then invoke_params params is user ui
       else if ui < PARAM_COUNT
       then invoke_params params is (user[ui := param_of p]) (ui + 1)
       else invoke_params params is user ui)"

definition decode_cmd :: "bytes \<Rightarrow> u64 \<Rightarrow> (kernel_cmd, unit) res" where
  "decode_cmd pool ck =
     res_bind (map_err (\<lambda>_. ()) (decode_msg pool ck)) (\<lambda>(hdr, params, _).
       let ixs = [0..<unat (msg_num_params hdr)] in
       if msg_cmd hdr = MSG_CMD_OPEN_SESSION then
         res_bind (open_params params ixs (replicate 16 0) Login_Public no_params 0)
           (\<lambda>(uuid, login, user).
             Ok (OpenSession uuid login user (msg_cancel_id hdr) TEE_TIMEOUT_INFINITE))
       else if msg_cmd hdr = MSG_CMD_INVOKE_COMMAND then
         res_bind (invoke_params params ixs no_params 0) (\<lambda>user.
           Ok (Invoke (msg_session hdr) (msg_func hdr) user (msg_cancel_id hdr) TEE_TIMEOUT_INFINITE))
       else if msg_cmd hdr = MSG_CMD_CLOSE_SESSION then Ok (CloseSession (msg_session hdr))
       else if msg_cmd hdr = MSG_CMD_CANCEL then Ok (Cancel (msg_cancel_id hdr))
       else Err ())"

section \<open>Writing the outcome\<close>

fun done_params ::
  "param list \<Rightarrow> nat list \<Rightarrow> msg_param list \<Rightarrow> usize \<Rightarrow> (msg_param list, unit) res" where
  "done_params produced [] params ui = Ok params"
| "done_params produced (i # is) params ui =
     res_bind (index params i) (\<lambda>p.
       if is_meta p then done_params produced is params ui
       else if ui < PARAM_COUNT
       then res_bind (index produced ui) (\<lambda>q.
              done_params produced is
                (case q of PMemref _ sz d \<Rightarrow>
                             if d \<noteq> Dir_In then params[i := p\<lparr>mp_b := word_of_nat sz\<rparr>] else params
                         | _ \<Rightarrow> params)
                (ui + 1))
       else done_params produced is params ui)"

definition write_done :: "bytes \<Rightarrow> u64 \<Rightarrow> u32 \<Rightarrow> u32 \<Rightarrow> u32 \<Rightarrow> param list \<Rightarrow> (bytes, unit) res" where
  "write_done pool ck ret origin session produced =
     (case decode_msg pool ck of
        Panic \<Rightarrow> Panic
      | Err _ \<Rightarrow> Ok pool
      | Ok (hdr, params, _) \<Rightarrow>
          let hdr = hdr\<lparr>msg_ret := ret, msg_ret_origin := origin, msg_session := session\<rparr>;
              n = unat (msg_num_params hdr) in
          res_bind (done_params produced [0..<n] params 0) (\<lambda>params.
          res_bind (slice_range params 0 n) (\<lambda>ps.
            (case write_msg pool ck hdr ps of
               Ok (_, pool) \<Rightarrow> Ok pool
             | Err _ \<Rightarrow> Ok pool
             | Panic \<Rightarrow> Panic))))"

section \<open>What the loops compute\<close>

text \<open>The four user parameters of a message: its parameters that are not marked as meta, in order.\<close>

definition user_args :: "msg_param list \<Rightarrow> param list" where
  "user_args ps = take PARAM_COUNT (map param_of (filter (\<lambda>p. \<not> is_meta p) ps) @ no_params)"

definition open_uuid :: "msg_param list \<Rightarrow> uuid" where
  "open_uuid ps =
     (case ps of
        p # _ \<Rightarrow> if is_meta p \<and> ty p = ATTR_TYPE_VALUE_INPUT then uuid_from_words (mp_a p) (mp_b p)
                else replicate 16 0
      | [] \<Rightarrow> replicate 16 0)"

text \<open>The parameters of the answer: the size of every memory reference the command may write.\<close>

fun put_sizes :: "param list \<Rightarrow> msg_param list \<Rightarrow> msg_param list" where
  "put_sizes qs [] = []"
| "put_sizes qs (p # ps) =
     (if is_meta p then p # put_sizes qs ps
      else case qs of
          [] \<Rightarrow> p # ps
        | q # qs \<Rightarrow>
            (case q of PMemref _ sz d \<Rightarrow> if d \<noteq> Dir_In then p\<lparr>mp_b := word_of_nat sz\<rparr> else p | _ \<Rightarrow> p) #
            put_sizes qs ps)"

lemma length_put_sizes [simp]: "length (put_sizes qs ps) = length ps"
  by (induction qs ps rule: put_sizes.induct) (auto split: list.splits)

fun fill_args :: "param list \<Rightarrow> nat \<Rightarrow> param list \<Rightarrow> param list" where
  "fill_args user ui [] = user"
| "fill_args user ui (x # xs) = (if ui < PARAM_COUNT then fill_args (user[ui := x]) (ui + 1) xs else user)"

lemma fill_args_eq:
  "length user = PARAM_COUNT \<Longrightarrow> ui \<le> PARAM_COUNT \<Longrightarrow>
   fill_args user ui xs = take PARAM_COUNT (take ui user @ xs @ drop (ui + length xs) user)"
proof (induction user ui xs rule: fill_args.induct)
  case (2 user ui x xs)
  then show ?case
    by (cases "ui < PARAM_COUNT") (auto simp: take_Suc_conv_app_nth)
qed simp

lemma fill_args_full [simp]: "\<not> ui < PARAM_COUNT \<Longrightarrow> fill_args user ui xs = user"
  by (cases xs) auto

lemma put_sizes_Nil [simp]: "put_sizes [] ps = ps"
  by (induction ps) auto

lemma invoke_params_eq:
  "\<forall>i \<in> set is. i < length params \<Longrightarrow>
   invoke_params params is user ui =
     Ok (fill_args user ui (map param_of (filter (\<lambda>p. \<not> is_meta p) (map ((!) params) is))))"
proof (induction params "is" user ui rule: invoke_params.induct)
  case (2 params i "is" user ui)
  then show ?case
    by (cases "is_meta (params ! i)"; cases "ui < PARAM_COUNT")
      (auto simp: index_def)
qed simp

lemma open_params_eq:
  "\<forall>i \<in> set is. i < length params \<Longrightarrow> 0 \<notin> set is \<Longrightarrow>
   open_params params is uuid Login_Public user ui =
     Ok (uuid, Login_Public, fill_args user ui (map param_of (filter (\<lambda>p. \<not> is_meta p) (map ((!) params) is))))"
proof (induction "is" arbitrary: user ui)
  case (Cons i "is")
  then show ?case
    by (cases "is_meta (params ! i)"; cases "ui < PARAM_COUNT")
      (auto simp: index_def)
qed simp

lemma length_no_params_count [simp]: "length no_params = PARAM_COUNT"
  by (simp add: no_params_def)

lemma fill_no_params: "fill_args no_params 0 (map param_of (filter (\<lambda>p. \<not> is_meta p) ps)) = user_args ps"
  by (simp add: fill_args_eq user_args_def no_params_def)

lemma nth_upt_all: "n \<le> length ps \<Longrightarrow> map ((!) ps) [0..<n] = take n ps"
  by (simp add: list_eq_iff_nth_eq)

lemma open_params_all:
  assumes "n \<le> length params"
  shows "open_params params [0..<n] (replicate 16 0) Login_Public no_params 0 =
    Ok (open_uuid (take n params), Login_Public, user_args (take n params))"
proof (cases n)
  case 0
  then show ?thesis by (simp add: open_uuid_def user_args_def no_params_def)
next
  case (Suc k)
  then obtain p ps where ps: "params = p # ps" using assms by (cases params) auto
  have m: "map ((!) params) [Suc 0..<n] = take k ps"
    using nth_upt_all [of k ps] assms unfolding Suc ps map_Suc_upt [symmetric] by (simp add: comp_def)
  have r: "open_params params [Suc 0..<n] uuid Login_Public user ui =
      Ok (uuid, Login_Public, fill_args user ui (map param_of (filter (\<lambda>p. \<not> is_meta p) (take k ps))))" for uuid user ui
    using assms by (subst open_params_eq) (auto simp: m)
  have "[0..<n] = 0 # [Suc 0..<n]" using Suc by (simp add: upt_rec)
  then have "open_params params [0..<n] (replicate 16 0) Login_Public no_params 0 =
      open_params params (0 # [Suc 0..<n]) (replicate 16 0) Login_Public no_params 0" by (rule arg_cong)
  also have "\<dots> = Ok (open_uuid (p # take k ps), Login_Public, user_args (p # take k ps))"
    using fill_no_params [of "p # take k ps"] r
    by (cases "is_meta p") (simp_all add: ps index_def open_uuid_def PARAM_COUNT_def del: upt_Suc)
  finally show ?thesis by (simp add: ps Suc)
qed

lemma done_params_eq:
  "length produced = PARAM_COUNT \<Longrightarrow> n \<le> length params \<Longrightarrow> j \<le> n \<Longrightarrow>
   done_params produced [j..<n] params ui =
     Ok (take j params @ put_sizes (drop ui produced) (take (n - j) (drop j params)) @ drop n params)"
proof (induction "n - j" arbitrary: j params ui)
  case (Suc k)
  then have j: "j < n" "j < length params" by auto
  have u: "[j..<n] = j # [Suc j..<n]" using j by (simp add: upt_rec)
  have d: "take (n - j) (drop j params) = params ! j # take (n - Suc j) (drop (Suc j) params)"
    using j by (simp add: Cons_nth_drop_Suc [symmetric] Suc_diff_Suc [symmetric] del: Suc_diff_Suc)
  have t: "take (Suc j) params = take j params @ [params ! j]" using j(2) by (rule take_Suc_conv_app_nth)
  show ?case
  proof (cases "is_meta (params ! j) \<or> \<not> ui < PARAM_COUNT")
    case True
    with Suc.hyps(1) [of "Suc j" params ui] Suc.hyps(2) Suc.prems j show ?thesis
      by (auto simp: u d t index_def split: list.splits)
  next
    case False
    define p where "p = (case produced ! ui of PMemref _ sz dd \<Rightarrow>
      if dd \<noteq> Dir_In then (params ! j)\<lparr>mp_b := word_of_nat sz\<rparr> else params ! j | _ \<Rightarrow> params ! j)"
    have "done_params produced [j..<n] params ui = done_params produced [Suc j..<n] (params[j := p]) (ui + 1)"
      using False j Suc.prems(1) unfolding u p_def
      by (auto simp: index_def split: param.splits)
    moreover have "drop ui produced = produced ! ui # drop (Suc ui) produced"
      using False Suc.prems(1) by (simp add: Cons_nth_drop_Suc)
    ultimately show ?thesis
      using Suc.hyps(1) [of "Suc j" "params[j := p]" "ui + 1"] Suc.hyps(2) Suc.prems j False
      by (simp add: d p_def take_Suc_conv_app_nth)
  qed
qed simp

section \<open>What the operations compute\<close>

lemma length_user_args [simp]: "length (user_args ps) = PARAM_COUNT"
  by (simp add: user_args_def PARAM_COUNT_def)

lemma pad_params_take [simp]: "take (length ps) (pad_params ps) = ps"
  by (simp add: pad_params_def)

lemma length_pad_params: "length ps \<le> 6 \<Longrightarrow> length (pad_params ps) = 6"
  by (simp add: pad_params_def)

lemma decode_msg_pad:
  assumes "length pool \<le> ISIZE_MAX" and "decode_msg pool ck = Ok (h, params, n)"
  obtains ps where "params = pad_params ps" "length ps = unat (msg_num_params h)" "length ps \<le> 6"
  using assms(1)
proof (cases rule: decode_msg_cases [of pool ck])
  case (Good h' qs)
  with assms(2) that show ?thesis by auto
qed (use assms(2) in auto)

text \<open>The command a decoded message stands for.\<close>

definition cmd_of :: "msg_arg_hdr \<Rightarrow> msg_param list \<Rightarrow> (kernel_cmd, unit) res" where
  "cmd_of h ps =
     (if msg_cmd h = MSG_CMD_OPEN_SESSION
      then Ok (OpenSession (open_uuid ps) Login_Public (user_args ps) (msg_cancel_id h) TEE_TIMEOUT_INFINITE)
      else if msg_cmd h = MSG_CMD_INVOKE_COMMAND
      then Ok (Invoke (msg_session h) (msg_func h) (user_args ps) (msg_cancel_id h) TEE_TIMEOUT_INFINITE)
      else if msg_cmd h = MSG_CMD_CLOSE_SESSION then Ok (CloseSession (msg_session h))
      else if msg_cmd h = MSG_CMD_CANCEL then Ok (Cancel (msg_cancel_id h))
      else Err ())"

lemma decode_cmd_eq:
  assumes "decode_msg pool ck = Ok (h, pad_params ps, n)" and "length ps = unat (msg_num_params h)" and "length ps \<le> 6"
  shows "decode_cmd pool ck = cmd_of h ps"
proof -
  have "open_params (pad_params ps) [0..<length ps] (replicate 16 0) Login_Public no_params 0 =
      Ok (open_uuid ps, Login_Public, user_args ps)"
    using open_params_all [of "length ps" "pad_params ps"] assms(3) by (simp add: length_pad_params)
  moreover have "invoke_params (pad_params ps) [0..<length ps] no_params 0 = Ok (user_args ps)"
    using invoke_params_eq [of "[0..<length ps]" "pad_params ps"] assms(3) fill_no_params [of ps]
    by (simp add: length_pad_params nth_upt_all)
  ultimately show ?thesis using assms by (simp add: decode_cmd_def cmd_of_def Let_def)
qed

lemma decode_cmd_cases:
  assumes "length pool \<le> ISIZE_MAX"
  shows "decode_cmd pool ck =
    (case decode_msg pool ck of Ok (h, params, _) \<Rightarrow> cmd_of h (take (unat (msg_num_params h)) params)
     | Err _ \<Rightarrow> Err () | Panic \<Rightarrow> Panic)"
proof (cases "decode_msg pool ck")
  case (Ok x)
  then obtain h params n where x: "decode_msg pool ck = Ok (h, params, n)" by (cases x) auto
  obtain ps where ps: "params = pad_params ps" "length ps = unat (msg_num_params h)" "length ps \<le> 6"
    using decode_msg_pad [OF assms x] .
  have "take (unat (msg_num_params h)) params = ps" using ps(1) by (simp flip: ps(2))
  with decode_cmd_eq [of pool ck h ps n] x ps show ?thesis by simp
qed (simp_all add: decode_cmd_def)

lemma cmd_of_not_Panic [simp]: "cmd_of h ps \<noteq> Panic"
  by (simp add: cmd_of_def)

text \<open>Writing the outcome of a command.\<close>

lemma write_done_eq:
  assumes "length pool \<le> ISIZE_MAX" and "decode_msg pool ck = Ok (h, params, n)"
    and "length produced = PARAM_COUNT"
  obtains pool' where "write_done pool ck ret origin session produced = Ok pool'"
    "decode_msg pool' ck =
       Ok (h\<lparr>msg_ret := ret, msg_ret_origin := origin, msg_session := session\<rparr>,
           pad_params (put_sizes produced (take (unat (msg_num_params h)) params)), n)"
    "length pool' = length pool" "take (unat ck) pool' = take (unat ck) pool"
    "drop (unat ck + n) pool' = drop (unat ck + n) pool"
proof -
  let ?h = "h\<lparr>msg_ret := ret, msg_ret_origin := origin, msg_session := session\<rparr>"
  obtain ps where ps: "params = pad_params ps" "length ps = unat (msg_num_params h)" "length ps \<le> 6"
    using decode_msg_pad [OF assms(1,2)] .
  define qs where "qs = put_sizes produced ps"
  have len: "length pool \<le> USIZE_MAX" using assms(1) by (simp add: ISIZE_MAX_def USIZE_MAX_def)
  have inv: "unat ck mod 8 = 0" "n = byte_size h" "unat ck + n \<le> length pool"
    using decode_msg_inv [OF assms(1,2)] by auto
  have d: "done_params produced [0..<length ps] params 0 = Ok (qs @ drop (length ps) params)"
    using done_params_eq [of produced "length ps" params 0 0] assms(3) ps(1,3)
    by (simp add: qs_def length_pad_params)
  have q: "length qs = unat (msg_num_params ?h)" using ps by (simp add: qs_def)
  have b: "byte_size ?h = byte_size h" by (simp add: byte_size_def)
  define pool' where "pool' = take (unat ck) pool @ msg_bytes ?h qs @ drop (unat ck + n) pool"
  have w: "write_msg pool ck ?h qs = Ok (n, pool')"
    using write_msg_eq [of ck qs ?h pool] inv len q by (simp add: b pool'_def)
  have "write_done pool ck ret origin session produced = Ok pool'"
    using assms(2) d w ps q by (simp add: write_done_def Let_def slice_range_def)
  moreover have l: "length pool' = length pool"
    using inv q by (simp add: pool'_def byte_size_eq)
  moreover have "decode_msg pool' ck = Ok (?h, pad_params qs, n)"
    using decode_msg_bytes [of ck "take (unat ck) pool" qs ?h "drop (unat ck + n) pool"] inv q ps assms(1) l
    by (simp add: pool'_def b)
  moreover have "take (unat (msg_num_params h)) params = ps" using ps(1) by (simp flip: ps(2))
  moreover have "take (unat ck) pool' = take (unat ck) pool" "drop (unat ck + n) pool' = drop (unat ck + n) pool"
    using inv q by (simp_all add: pool'_def byte_size_eq)
  ultimately show ?thesis using that [of pool'] unfolding qs_def by metis
qed

lemma write_done_unread: "decode_msg pool ck = Err e \<Longrightarrow> write_done pool ck ret origin session produced = Ok pool"
  by (simp add: write_done_def)

text \<open>Identifiers.\<close>

lemma uuid_words_hi:
  "push_bit 32 (ucast (ucast (drop_bit 32 hi) :: u32)) OR push_bit 16 (ucast (ucast (drop_bit 16 hi) :: u16)) OR
   ucast (ucast hi :: u16) = (hi :: u64)"
proof (rule bit_word_eqI)
  fix n assume "n < LENGTH(64)"
  then show "bit (push_bit 32 (ucast (ucast (drop_bit 32 hi) :: u32)) OR
      push_bit 16 (ucast (ucast (drop_bit 16 hi) :: u16)) OR (ucast (ucast hi :: u16) :: u64)) n = bit hi n"
    by (cases "n < 16"; cases "n < 32") (auto simp: bit_simps)
qed

lemma uuid_words_parts:
  fixes a :: u32 and b c :: u16
  shows "ucast (drop_bit 32 (push_bit 32 (ucast a) OR push_bit 16 (ucast b) OR (ucast c :: u64))) = a"
    "ucast (drop_bit 16 (push_bit 32 (ucast a) OR push_bit 16 (ucast b) OR (ucast c :: u64))) = b"
    "ucast (push_bit 32 (ucast a) OR push_bit 16 (ucast b) OR (ucast c :: u64)) = c"
  by (rule bit_word_eqI; auto simp: bit_simps dest: bit_imp_le_length)+

lemma from_be_to_be [simp]:
  "from_be_bytes (to_be_bytes a) = (a :: u16)" "from_be_bytes (to_be_bytes b) = (b :: u32)"
  "from_be_bytes (to_be_bytes c) = (c :: u64)"
  by (simp_all add: from_be_bytes_def to_be_bytes_def)

lemma length_to_be_bytes [simp]: "length (to_be_bytes (v :: 'a::len word)) = LENGTH('a) div 8"
  by (simp add: to_be_bytes_def)

lemma to_be_from_be:
  "length bs = 2 \<Longrightarrow> to_be_bytes (from_be_bytes bs :: u16) = bs"
  "length bs = 4 \<Longrightarrow> to_be_bytes (from_be_bytes bs :: u32) = bs"
  "length bs = 8 \<Longrightarrow> to_be_bytes (from_be_bytes bs :: u64) = bs"
  by (simp_all add: from_be_bytes_def to_be_bytes_def to_le_from_le)

lemma uuid_to_from_words: "uuid_to_words (uuid_from_words hi lo) = (hi, lo)"
  by (simp add: uuid_to_words_def uuid_from_words_def Let_def uuid_words_hi)

lemma uuid_from_to_words:
  assumes "length u = 16" and "uuid_to_words u = (hi, lo)"
  shows "uuid_from_words hi lo = u"
proof -
  have "u = take 4 u @ take 2 (drop 4 u) @ take 2 (drop 6 u) @ take 8 (drop 8 u)"
    using take_take_drop [of 4 u 2] take_take_drop [of 6 u 2] take_take_drop [of 8 u 8] assms(1)
    by (simp flip: append_assoc)
  with assms show ?thesis
    by (auto simp: uuid_to_words_def uuid_from_words_def Let_def uuid_words_parts to_be_from_be
        simp del: drop_bit_or)
qed

lemma length_uuid_from_words [simp]: "length (uuid_from_words hi lo) = 16"
  by (simp add: uuid_from_words_def Let_def)

end
