(* ===== verification/Guest_Main.thy ===== *)
theory Guest_Main
  imports Virt_Kernel Guest_Cmd
begin

text \<open>
  The guest program, \<open>guest/rustee-guest/src/main.rs\<close>: the loop that takes packets off the virtio
  queue, reassembles commands and remote-call replies, runs the kernel and sends the answers. One
  iteration of the loop is \<open>vsock_step\<close>, on the bytes the device put in the receive buffer; what it
  queues for sending is a list of packets. \<open>Halt\<close> is \<open>fail_halt\<close> and \<open>Hang\<close> the panic handler, which
  prints and waits for ever: both end the loop. Probing the devices, the queues and the lines printed
  to the console are not modelled.
\<close>

type_synonym 'p gkernel = "(virt_hal, virt_as, 'p) kernel"
type_synonym 'p genv = "(virt_hal, virt_as, virt_shm, 'p) env"

record 'p guest =
  g_kernel :: "'p gkernel"
  g_waiting :: "call_frame option"

datatype 'k guest_res = Go 'k "bytes list" | Halt string | Hang

definition RX_BUF_LEN :: usize where "RX_BUF_LEN = 4096"

section \<open>Sending\<close>

definition send_rw :: "vsock_hdr \<Rightarrow> bytes \<Rightarrow> bytes" where
  "send_rw vh pdu = VsockHdr_encode vh @ pdu"

text \<open>\<open>if let Ok(cu) = k.hal_mut().credit_update() { tx.add_out_owned(..) }\<close>\<close>

definition send_credit :: "virt_hal \<Rightarrow> bytes list" where
  "send_credit h = (case hal_credit_update h of Ok cu \<Rightarrow> [VsockHdr_encode cu] | _ \<Rightarrow> [])"

text \<open>\<open>write_done\<close> through \<open>bounce_at_mut\<close> of the whole pool, when it is there.\<close>

definition put_done ::
  "'p gkernel \<Rightarrow> u64 \<Rightarrow> u32 \<Rightarrow> u32 \<Rightarrow> u32 \<Rightarrow> param list \<Rightarrow> ('p gkernel, unit) res" where
  "put_done k ck ret origin session produced =
     (case bounce_at (k_hal k) 0 BOUNCE_POOL_SIZE of
        None \<Rightarrow> Ok k
      | Some buf \<Rightarrow>
          res_bind (write_done buf ck ret origin session produced) (\<lambda>buf.
            (case bounce_write (k_hal k) 0 BOUNCE_POOL_SIZE (\<lambda>_. buf) of
               None \<Rightarrow> Ok k
             | Some h \<Rightarrow> Ok (k\<lparr>k_hal := h\<rparr>))))"

text \<open>\<open>complete_stream\<close> and, when it succeeds, \<open>send_rw\<close>.\<close>

definition send_complete :: "'p gkernel \<Rightarrow> call_frame \<Rightarrow> 'p gkernel guest_res" where
  "send_complete k fr =
     (case complete_stream (k_hal k) fr of
        (Ok (vh, pdu), h) \<Rightarrow> Go (k\<lparr>k_hal := h\<rparr>) [send_rw vh pdu]
      | (Err _, h) \<Rightarrow> Go (k\<lparr>k_hal := h\<rparr>) []
      | (Panic, h) \<Rightarrow> Hang)"

definition send_load_ta :: "'p gkernel \<Rightarrow> uuid \<Rightarrow> 'p gkernel guest_res" where
  "send_load_ta k uuid =
     (case bounce_at (k_hal k) 0 BOUNCE_POOL_SIZE of
        None \<Rightarrow> Halt ''bounce''
      | Some buf \<Rightarrow>
          (case pack_load_ta buf uuid of
             Err _ \<Rightarrow> Halt ''pack LOAD_TA''
           | Panic \<Rightarrow> Hang
           | Ok ((ck, bounce_len), buf) \<Rightarrow>
               (case bounce_write (k_hal k) 0 BOUNCE_POOL_SIZE (\<lambda>_. buf) of
                  None \<Rightarrow> Halt ''bounce''
                | Some h \<Rightarrow>
                    let h = set_rpc_window h ck bounce_len;
                        rpc_frame = set_cookie_a1a2 \<lparr>cf_r = replicate 8 0\<rparr> ck;
                        h = h\<lparr>vh_gate := snd (gate_rpc_yield (vh_gate h) rpc_frame)\<rparr> in
                    (case take_tx h of
                       (Ok None, h) \<Rightarrow> Halt ''rpc tx''
                     | (Ok (Some (hdr, fr, bounce)), h) \<Rightarrow>
                         let pdu = encode_pdu hdr fr bounce in
                         (case wrap_outgoing h pdu of
                            Ok vh \<Rightarrow> Go (k\<lparr>k_hal := h\<rparr>) [send_rw vh pdu]
                          | _ \<Rightarrow> Go (k\<lparr>k_hal := h\<rparr>) [])
                     | (Err _, h) \<Rightarrow> Hang
                     | (Panic, h) \<Rightarrow> Hang))))"

section \<open>Commands\<close>

fun import_params :: "virt_hal \<Rightarrow> param list \<Rightarrow> virt_hal option" where
  "import_params h [] = Some h"
| "import_params h (PMemref (Ree ck offs) sz d # ps) =
     (if unat ck + offs \<ge> 2 ^ 64 then None
      else (case import_shm h (ck + word_of_nat offs) (max sz 1) (dir_perms d) of
              (Panic, h) \<Rightarrow> None
            | (_, h) \<Rightarrow> import_params h ps))"
| "import_params h (_ # ps) = import_params h ps"

text \<open>\<open>None\<close> is a panic.\<close>

definition import_memrefs :: "'p gkernel \<Rightarrow> kernel_cmd \<Rightarrow> 'p gkernel option" where
  "import_memrefs k cmd =
     (case cmd of
        OpenSession _ _ params _ _ \<Rightarrow> map_option (\<lambda>h. k\<lparr>k_hal := h\<rparr>) (import_params (k_hal k) params)
      | Invoke _ _ params _ _ \<Rightarrow> map_option (\<lambda>h. k\<lparr>k_hal := h\<rparr>) (import_params (k_hal k) params)
      | _ \<Rightarrow> Some k)"

definition dispatch_out ::
  "'p gkernel \<Rightarrow> call_frame \<Rightarrow> kernel_out \<Rightarrow> call_frame option \<Rightarrow> 'p guest guest_res" where
  "dispatch_out k fr out waiting =
     (case out of
        Done result session params \<Rightarrow>
          (case put_done k (cookie_a1a2 fr) (res_code result) (as_gp (res_origin result))
                  (case session of Some s \<Rightarrow> s | None \<Rightarrow> 0) params of
             Ok k \<Rightarrow>
               (case send_complete k fr of
                  Go k tx \<Rightarrow> Go \<lparr>g_kernel = k, g_waiting = waiting\<rparr> tx
                | Halt s \<Rightarrow> Halt s
                | Hang \<Rightarrow> Hang)
           | _ \<Rightarrow> Hang)
      | Rpc (Rpc_LoadTa uuid) \<Rightarrow>
          (case send_load_ta k uuid of
             Go k tx \<Rightarrow> Go \<lparr>g_kernel = k, g_waiting = Some fr\<rparr> tx
           | Halt s \<Rightarrow> Halt s
           | Hang \<Rightarrow> Hang)
      | Rpc _ \<Rightarrow> Halt ''rpc not LoadTa'')"

text \<open>A trusted application that panics runs the panic handler of the guest.\<close>

definition run_cmd ::
  "'p genv \<Rightarrow> 'p gkernel \<Rightarrow> call_frame \<Rightarrow> kernel_cmd \<Rightarrow> call_frame option \<Rightarrow> 'p guest guest_res" where
  "run_cmd E k fr cmd waiting =
     (case handle E k cmd of
        Ret out k \<Rightarrow> dispatch_out k fr out waiting
      | Trapped _ \<Rightarrow> Hang
      | Crash \<Rightarrow> Hang)"

definition handle_enter ::
  "'p genv \<Rightarrow> 'p gkernel \<Rightarrow> call_frame \<Rightarrow> call_frame option \<Rightarrow> 'p guest guest_res" where
  "handle_enter E k fr waiting =
     (let ck = cookie_a1a2 fr in
      case bounce_at (k_hal k) 0 BOUNCE_POOL_SIZE of
        None \<Rightarrow> Halt ''bounce''
      | Some pool \<Rightarrow>
          (case decode_cmd pool ck of
             Panic \<Rightarrow> Hang
           | Err _ \<Rightarrow>
               (case put_done k ck 0xFFFF0006 4 0 no_params of
                  Ok k \<Rightarrow>
                    (case send_complete k fr of
                       Go k tx \<Rightarrow> Go \<lparr>g_kernel = k, g_waiting = waiting\<rparr> tx
                     | Halt s \<Rightarrow> Halt s
                     | Hang \<Rightarrow> Hang)
                | _ \<Rightarrow> Hang)
           | Ok cmd \<Rightarrow>
               (case import_memrefs k cmd of
                  None \<Rightarrow> Hang
                | Some k \<Rightarrow> run_cmd E k fr cmd waiting)))"

definition handle_rpc_reply ::
  "'p genv \<Rightarrow> 'p gkernel \<Rightarrow> call_frame \<Rightarrow> call_frame option \<Rightarrow> 'p guest guest_res" where
  "handle_rpc_reply E k enter waiting =
     (case bounce_at (k_hal k) 0 BOUNCE_POOL_SIZE of
        None \<Rightarrow> Halt ''bounce''
      | Some pool \<Rightarrow>
          (case take_load_ta pool of
             Panic \<Rightarrow> Hang
           | Ok bytes \<Rightarrow> run_cmd E k enter (RpcComplete (Resp_LoadTa bytes)) waiting
           | Err code \<Rightarrow> run_cmd E k enter (RpcComplete (Resp_Error code)) waiting))"

section \<open>The loop\<close>

text \<open>The outcome of a handler, followed by the credit update.\<close>

fun and_credit :: "'p guest guest_res \<Rightarrow> 'p guest guest_res" where
  "and_credit (Go g tx) = Go g (tx @ send_credit (k_hal (g_kernel g)))"
| "and_credit r = r"

definition on_request :: "'p guest \<Rightarrow> vsock_hdr \<Rightarrow> 'p guest guest_res" where
  "on_request g hdr =
     (let k = g_kernel g in
      case accept_connect (k_hal k) hdr of
        (Ok resp, h) \<Rightarrow>
          Go (g\<lparr>g_kernel := k\<lparr>k_hal := h\<rparr>\<rparr>) ([VsockHdr_encode resp] @ send_credit h)
      | (Err _, h) \<Rightarrow> Halt ''vsock REQUEST reject''
      | (Panic, h) \<Rightarrow> Hang)"

definition on_rw :: "'p genv \<Rightarrow> 'p guest \<Rightarrow> vsock_hdr \<Rightarrow> bytes \<Rightarrow> 'p guest guest_res" where
  "on_rw E g hdr payload =
     (let k = g_kernel g in
      case push_host_rw (k_hal k) hdr payload of
        Panic \<Rightarrow> Hang
      | Err _ \<Rightarrow> Go g []
      | Ok h \<Rightarrow>
          and_credit
            (case g_waiting g of
               Some enter \<Rightarrow>
                 (case recv_rpc_reply h of
                    (Ok _, h) \<Rightarrow> handle_rpc_reply E (k\<lparr>k_hal := h\<rparr>) enter None
                  | (Err NotFound, h) \<Rightarrow> Go (g\<lparr>g_kernel := k\<lparr>k_hal := h\<rparr>\<rparr>) []
                  | (Err _, h) \<Rightarrow> Halt ''rpc reply''
                  | (Panic, h) \<Rightarrow> Hang)
             | None \<Rightarrow>
                 (case recv_enter h of
                    (Ok fr, h) \<Rightarrow> handle_enter E (k\<lparr>k_hal := h\<rparr>) fr None
                  | (Err _, h) \<Rightarrow> Go (g\<lparr>g_kernel := k\<lparr>k_hal := h\<rparr>\<rparr>) []
                  | (Panic, h) \<Rightarrow> Hang)))"

text \<open>One used buffer: \<open>len\<close> as the device reports it and the whole receive buffer.\<close>

definition vsock_step :: "'p genv \<Rightarrow> 'p guest \<Rightarrow> u32 \<Rightarrow> bytes \<Rightarrow> 'p guest guest_res" where
  "vsock_step E g len rxbuf =
     (if unat len < VIRTIO_VSOCK_HDR_LEN then Go g []
      else
        (case VsockHdr_decode (take VIRTIO_VSOCK_HDR_LEN rxbuf) of
           Err _ \<Rightarrow> Go g []
         | Panic \<Rightarrow> Hang
         | Ok hdr \<Rightarrow>
             (case (slice_range rxbuf VIRTIO_VSOCK_HDR_LEN (unat len) :: (bytes, unit) res) of
                Ok payload \<Rightarrow>
                  if vk_op hdr = VIRTIO_VSOCK_OP_REQUEST then on_request g hdr
                  else if vk_op hdr = VIRTIO_VSOCK_OP_RW then on_rw E g hdr payload
                  else if vk_op hdr = VIRTIO_VSOCK_OP_CREDIT_REQUEST
                  then Go g (send_credit (k_hal (g_kernel g)))
                  else Go g []
              | _ \<Rightarrow> Hang)))"

text \<open>The loop over a list of used buffers: all packets queued, and the guest at the end.\<close>

fun vsock_loop :: "'p genv \<Rightarrow> 'p guest \<Rightarrow> (u32 \<times> bytes) list \<Rightarrow> bytes list \<times> 'p guest guest_res" where
  "vsock_loop E g [] = ([], Go g [])"
| "vsock_loop E g ((len, rxbuf) # rest) =
     (case vsock_step E g len rxbuf of
        Go g tx \<Rightarrow> let (tx', r) = vsock_loop E g rest in (tx @ tx', r)
      | r \<Rightarrow> ([], r))"

text \<open>\<open>run\<close>, from the HAL \<open>rust_main\<close> made: the kernel and its notices. The console takes every line.\<close>

definition guest_boot :: "'p genv \<Rightarrow> virt_hal \<Rightarrow> 'p guest guest_res" where
  "guest_boot E h =
     (if vsock_bound h \<noteq> Some (VSOCK_GUEST_CID, VSOCK_PORT) then Halt ''vsock not bound''
      else
        let k = kernel_new E h;
            (_, _, k) = emit_ree_notices (\<lambda>s w. (w @ [s], True)) [] (Some boot_notices) k in
        Go \<lparr>g_kernel = k, g_waiting = None\<rparr> [])"

end
