(* ===== verification/Kernel_Hal.thy ===== *)
theory Kernel_Hal
  imports Kernel_Static
begin

text \<open>
  What a command can do to the HAL: it reaches it only through synchronising shared memory, making
  an address space and running a trusted application. The locale \<open>hal_frame\<close> is the contract: a
  relation on HAL states that each of these steps keeps. Then every command keeps it.
\<close>

locale hal_frame =
  fixes E :: "('h, 'a, 's, 'p) env"
    and R :: "'h \<Rightarrow> 'h \<Rightarrow> bool"
  assumes R_refl: "R h h"
    and R_trans: "R h h' \<Longrightarrow> R h' h'' \<Longrightarrow> R h h''"
    and R_sync_in: "hal_sync_in (e_hal E) h ck = Some (r, h') \<Longrightarrow> R h h'"
    and R_sync_out: "hal_sync_out (e_hal E) h ck = Some (r, h') \<Longrightarrow> R h h'"
    and R_space: "hal_new_address_space (e_hal E) h = (a, h') \<Longrightarrow> R h h'"
    and R_create: "ta_create E va h = Some (c, h') \<Longrightarrow> R h h'"
    and R_destroy: "ta_destroy E va h = Some h' \<Longrightarrow> R h h'"
    and R_open: "ta_open E va tys raw n h = Some (c, raw', ctx, h') \<Longrightarrow> R h h'"
    and R_close: "ta_close E va ctx h = Some h' \<Longrightarrow> R h h'"
    and R_invoke: "ta_invoke E va ctx c tys raw h = Some (c', raw', h') \<Longrightarrow> R h h'"
begin

abbreviation hrel :: "('h, 'a, 'p) kernel \<Rightarrow> ('h, 'a, 'p) kernel \<Rightarrow> bool" where
  "hrel k k' \<equiv> R (k_hal k) (k_hal k')"

fun hkeeps :: "('h, 'a, 'p) kernel \<Rightarrow> ('h, 'a, 'p) kernel outcome \<Rightarrow> bool" where
  "hkeeps k (Ret out k') = hrel k k'"
| "hkeeps k (Trapped k') = hrel k k'"
| "hkeeps k Crash = True"

lemma R_same: "h' = h \<Longrightarrow> R h h'"
  by (simp add: R_refl)

lemma hkeeps_trans: "hrel k k1 \<Longrightarrow> hkeeps k1 r \<Longrightarrow> hkeeps k r"
  by (cases r) (auto intro: R_trans)

lemma hkeeps_then_do: "hkeeps k r \<Longrightarrow> (\<And>k'. k_hal (g k') = k_hal k') \<Longrightarrow> hkeeps k (then_do r g)"
  by (cases r) auto

lemma hal_unlock: "k_hal (unlock_instance i k) = k_hal k"
  by (simp add: unlock_instance_def)

lemma hal_drop: "k_hal (drop_instance i k) = k_hal k"
  by (simp add: drop_instance_def)

lemma hal_lock: "lock_instance k i = (r, k') \<Longrightarrow> k_hal k' = k_hal k"
  by (auto simp: lock_instance_def split: option.splits if_splits)

lemma hal_put_aspace: "put_aspace k i a = Some k' \<Longrightarrow> k_hal k' = k_hal k"
  by (auto simp: put_aspace_def split: option.splits)

lemma sync_param_in_hrel: "sync_param_in E k ck d = (r, k') \<Longrightarrow> hrel k k'"
  by (auto simp: sync_param_in_def R_refl dest: R_sync_in split: if_splits option.splits prod.splits sum.splits)

lemma map_loop_hrel: "map_loop E iid ps is k a raw vas = (r, k') \<Longrightarrow> hrel k k'"
proof (induction "is" arbitrary: k a raw vas)
  case Nil
  then show ?case by (auto simp: R_refl dest: hal_put_aspace split: option.splits)
next
  case (Cons i "is")
  show ?case
  proof (cases "\<exists>ck offs sz d. ps ! i = PMemref (Ree ck offs) sz d")
    case False
    with Cons show ?thesis by (auto split: param.splits memref_src.splits)
  next
    case True
    then obtain ck offs sz d where p: "ps ! i = PMemref (Ree ck offs) sz d" by blast
    obtain r1 k1 where sync: "sync_param_in E k ck d = (r1, k1)" by fastforce
    then have s1: "hrel k k1" by (rule sync_param_in_hrel)
    with R_trans have t: "hrel k k'" if "hrel k1 k'" using that by blast
    from Cons p sync s1 show ?thesis
      by (auto split: res.splits option.splits if_splits prod.splits sum.splits
          intro: t dest: hal_put_aspace)
  qed
qed

lemma map_params_hrel: "map_params E k iid ps = (r, k') \<Longrightarrow> hrel k k'"
  by (auto simp: map_params_def take_aspace_def Let_def R_refl dest: map_loop_hrel split: option.splits)

lemma unmap_param_hrel: "hrel k (unmap_param E iid ps vas i k)"
  by (auto simp: unmap_param_def Let_def R_refl intro: R_sync_out
      split: param.splits memref_src.splits option.splits prod.splits)

lemma fold_unmap_hrel: "hrel k (fold (unmap_param E iid ps vas) is k)"
proof (induction "is" arbitrary: k)
  case (Cons i "is")
  show ?case using R_trans [OF unmap_param_hrel Cons.IH] by simp
qed (simp add: R_refl)

lemma unmap_params_hrel: "hrel k (unmap_params E k iid ps vas)"
  by (simp add: unmap_params_def fold_unmap_hrel)

lemma hrel_unmap: "R h (k_hal k) \<Longrightarrow> R h (k_hal (unmap_params E k iid ps vas))"
  using R_trans unmap_params_hrel by blast

lemma add_session_hkeeps: "hkeeps k (add_session k i u login ctx ps)"
  by (auto simp: add_session_def Let_def R_refl split: prod.splits option.splits)

lemma bind_session_hkeeps: "hkeeps k (bind_session E k i u login ps)"
proof (cases "instance_entries k i")
  case None
  then show ?thesis by (simp add: bind_session_def add_session_hkeeps)
next
  case (Some ep)
  obtain r k1 where m: "map_params E k i ps = (r, k1)" by fastforce
  then have k1: "hrel k k1" by (rule map_params_hrel)
  have o: "R (k_hal k) h" if "ta_open E va tys raw n (k_hal k1) = Some (c, raw', ctx, h)" for va tys raw n c raw' ctx h
    using k1 R_open [OF that] by (rule R_trans)
  have a: "hkeeps k (add_session k2 i u login ctx ps')" if "hrel k k2" for k2 ctx ps'
    using that add_session_hkeeps by (rule hkeeps_trans)
  show ?thesis
    using Some m k1
    by (auto simp: bind_session_def Let_def intro!: a hrel_unmap dest: o
        split: res.splits prod.splits option.splits)
qed

lemma bind_unlock_hkeeps:
  "hrel k k2 \<Longrightarrow> hkeeps k (then_do (bind_session E k2 i u login ps) (unlock_instance i))"
  by (rule hkeeps_then_do [OF hkeeps_trans [OF _ bind_session_hkeeps]]) (simp_all add: hal_unlock)

lemma call_create_hrel: "call_create E k i en = (c, k') \<Longrightarrow> hrel k k'"
  by (auto simp: call_create_def Let_def R_refl dest: R_create split: option.splits)

lemma instantiate_hkeeps: "hkeeps k (instantiate_and_bind E k pr u login ps en a)"
proof -
  obtain a' k0 where a': "(case a of Some a \<Rightarrow> (a, k)
      | None \<Rightarrow> let (a, h) = hal_new_address_space (e_hal E) (k_hal k) in (a, k\<lparr>k_hal := h\<rparr>)) = (a', k0)"
    by fastforce
  then have k0: "hrel k k0" by (auto simp: Let_def R_refl dest: R_space split: option.splits prod.splits)
  have "hkeeps k (case lock_instance (k0\<lparr>k_instances := t\<rparr>) i of
      (Err e, k) \<Rightarrow> Ret (done_err e) (drop_instance i k)
    | (Panic, k) \<Rightarrow> Crash
    | (Ok _, k) \<Rightarrow>
        (case call_create E k i en of
           (None, k) \<Rightarrow> Trapped k
         | (Some code, k) \<Rightarrow>
             if code \<noteq> TEE_SUCCESS
             then Ret (Done (TeeResult_ta code) None ps) (drop_instance i (unlock_instance i k))
             else then_do (bind_session E k i u login ps) (unlock_instance i)))" for t i
    using k0
    by (auto simp: hal_unlock hal_drop split: option.splits prod.splits res.splits
        intro!: bind_unlock_hkeeps intro: R_trans dest!: hal_lock call_create_hrel)
  with a' k0 show ?thesis
    by (auto simp: instantiate_and_bind_def R_refl split: option.splits prod.splits)
qed

lemma open_session_hkeeps: "hkeeps k (open_session E k u login ps cid tmo)"
  by (auto simp: open_session_def open_user_ta_def open_pta_def Let_def R_refl instantiate_hkeeps
      split: option.splits prod.splits res.splits sum.splits dest!: hal_lock
      intro!: bind_unlock_hkeeps intro: R_same)

lemma call_invoke_hkeeps: "hrel k k1 \<Longrightarrow> hkeeps k (call_invoke E k1 i sid s c ps raw vas)"
  by (auto simp: call_invoke_def Let_def split: option.splits intro!: hrel_unmap
      intro: R_trans [OF _ R_invoke])

lemma invoke_hkeeps: "hkeeps k (invoke E k sid c ps cid)"
  by (auto simp: invoke_def invoke_pta_def invoke_user_ta_def Let_def R_refl hal_unlock
      split: option.splits session_kind.splits prod.splits res.splits
      dest!: hal_lock map_params_hrel intro!: hkeeps_then_do call_invoke_hkeeps intro: R_same)

lemma call_close_hrel: "call_close E k i ctx = r \<Longrightarrow> (case r of Inl k' \<Rightarrow> hrel k k' | Inr k' \<Rightarrow> hrel k k')"
  by (auto simp: call_close_def Let_def R_refl dest: R_close split: option.splits)

lemma call_destroy_hrel: "call_destroy E k i = r \<Longrightarrow> (case r of Inl k' \<Rightarrow> hrel k k' | Inr k' \<Rightarrow> hrel k k')"
  by (auto simp: call_destroy_def Let_def R_refl dest: R_destroy split: option.splits)

lemma release_hkeeps: "hkeeps k (release_instance E k i)"
  by (auto simp: release_instance_def Let_def R_refl hal_unlock hal_drop split: sum.splits
      dest!: call_destroy_hrel)

lemma close_hkeeps: "hkeeps k (close_session E k sid)"
  by (auto simp: close_session_def close_pta_def close_user_ta_def Let_def R_refl
      split: option.splits session_kind.splits prod.splits res.splits sum.splits
      dest!: hal_lock call_close_hrel intro: R_same hkeeps_trans [OF _ release_hkeeps])

lemma load_ta_hkeeps: "hkeeps k (load_ta E k u login ps b)"
proof -
  have "hkeeps k (instantiate_and_bind E (k\<lparr>k_hal := h\<rparr>) pr u login ps en a)" if "R (k_hal k) h" for h pr en a
    by (rule hkeeps_trans [OF _ instantiate_hkeeps]) (simp add: that)
  then show ?thesis
    by (auto simp: load_ta_def Let_def R_refl split: res.splits prod.splits dest: R_space)
qed

lemma rpc_complete_hkeeps: "hkeeps k (rpc_complete E k resp)"
proof (cases "k_yielding k")
  case None
  then show ?thesis by (simp add: rpc_complete_def R_refl)
next
  case (Some y)
  have "hkeeps k (load_ta E (k\<lparr>k_yielding := None\<rparr>) u login ps b)" for u login ps b
    by (rule hkeeps_trans [OF _ load_ta_hkeeps]) (simp add: R_refl)
  with Some show ?thesis
    by (cases y) (auto simp: rpc_complete_def Let_def R_refl split: rpc_response.splits)
qed

lemma handle_hkeeps: "hkeeps k (handle E k cmd)"
  by (simp add: handle_def R_refl open_session_hkeeps invoke_hkeeps close_hkeeps rpc_complete_hkeeps
      split: kernel_cmd.splits)

lemma handle_hal: "handle E k cmd = Ret out k' \<Longrightarrow> R (k_hal k) (k_hal k')"
  using handle_hkeeps [of k cmd] by simp

end

end
