(* ===== verification/Guest_Props.thy ===== *)
theory Guest_Props
  imports Guest_Main Kernel_Hal
begin

text \<open>
  Properties of the guest program: what its loop keeps between two packets, and that every command
  it takes is answered exactly once. What is assumed of the code of trusted applications is the
  locale \<open>confined_env\<close>: of the state of the HAL they change the memory of the pool only.
\<close>

section \<open>Confined applications\<close>

definition mem_only :: "virt_hal \<Rightarrow> virt_hal \<Rightarrow> bool" where
  "mem_only h h' \<longleftrightarrow> (\<exists>m. h' = h\<lparr>vh_bounce_mem := m\<rparr> \<and> length m = length (vh_bounce_mem h))"

lemma mem_only_refl [simp]: "mem_only h h"
  unfolding mem_only_def by (rule exI [of _ "vh_bounce_mem h"]) simp

lemma mem_only_trans: "mem_only h h' \<Longrightarrow> mem_only h' h'' \<Longrightarrow> mem_only h h''"
  by (auto simp: mem_only_def)

locale confined_env =
  fixes E :: "'p genv" and alloc_va :: "virt_as \<Rightarrow> bytes \<Rightarrow> u64"
  assumes on_virt: "e_hal E = virt_ops alloc_va"
    and create_mem: "ta_create E va h = Some (c, h') \<Longrightarrow> mem_only h h'"
    and destroy_mem: "ta_destroy E va h = Some h' \<Longrightarrow> mem_only h h'"
    and open_mem: "ta_open E va tys raw n h = Some (c, raw', ctx, h') \<Longrightarrow> mem_only h h'"
    and close_mem: "ta_close E va ctx h = Some h' \<Longrightarrow> mem_only h h'"
    and invoke_mem: "ta_invoke E va ctx c tys raw h = Some (c', raw', h') \<Longrightarrow> mem_only h h'"

sublocale confined_env \<subseteq> hal_frame E mem_only
proof unfold_locales
  fix h h' :: virt_hal and ck r
  show "mem_only h h'" if "hal_sync_in (e_hal E) h ck = Some (r, h')"
    using that lookup_sync_same [of shm_sync_in h ck r h'] by (simp add: on_virt virt_ops_def)
  show "mem_only h h'" if "hal_sync_out (e_hal E) h ck = Some (r, h')"
    using that lookup_sync_same [of shm_sync_out h ck r h'] by (simp add: on_virt virt_ops_def)
next
  fix h h' :: virt_hal and a
  show "mem_only h h'" if "hal_new_address_space (e_hal E) h = (a, h')"
    using that by (simp add: on_virt virt_ops_def)
qed (auto intro: mem_only_trans create_mem destroy_mem open_mem close_mem invoke_mem)

interpretation demo_confined: confined_env demo_virt_env "\<lambda>a b. 0"
  by unfold_locales (auto simp: demo_virt_env_def)

section \<open>What the handlers change\<close>

lemma write_msg_length:
  "length pool \<le> USIZE_MAX \<Longrightarrow> write_msg pool ck h ps = Ok (n, pool') \<Longrightarrow> length pool' = length pool"
  by (auto simp: write_msg_cases byte_size_eq split: if_splits)

lemma write_done_length:
  assumes "length pool \<le> USIZE_MAX" and "write_done pool ck r og s ps = Ok pool'"
  shows "length pool' = length pool"
proof (cases "decode_msg pool ck")
  case (Ok x)
  then obtain h params n where x: "decode_msg pool ck = Ok (h, params, n)" by (cases x) auto
  with assms(2) obtain qs where
    "(case write_msg pool ck (h\<lparr>msg_ret := r, msg_ret_origin := og, msg_session := s\<rparr>) qs of
        Ok (_, pool) \<Rightarrow> Ok pool | Err _ \<Rightarrow> Ok pool | Panic \<Rightarrow> Panic) = (Ok pool' :: (bytes, unit) res)"
    by (auto simp: write_done_def Let_def)
  with write_msg_length [OF assms(1)] show ?thesis by (auto split: res.splits)
qed (use assms(2) in \<open>auto simp: write_done_def\<close>)

lemma pack_load_ta_length:
  "length pool \<le> USIZE_MAX \<Longrightarrow> pack_load_ta pool u = Ok (x, pool') \<Longrightarrow> length pool' = length pool"
  by (auto simp: pack_load_ta_def Let_def dest: write_msg_length split: if_splits prod.splits)

lemma hal_ok_size: "hal_ok h \<Longrightarrow> length (vh_bounce_mem h) = BOUNCE_POOL_SIZE"
  "hal_ok h \<Longrightarrow> length (vh_bounce_mem h) \<le> USIZE_MAX"
  by (simp_all add: hal_ok_def BOUNCE_POOL_SIZE_def USIZE_MAX_def)

lemma bounce_whole: "hal_ok h \<Longrightarrow> bounce_at h 0 BOUNCE_POOL_SIZE = Some (vh_bounce_mem h)"
  using hal_ok_size [of h] by (simp add: bounce_at_def checked_add_def get_range_def)

lemma bounce_write_whole:
  "hal_ok h \<Longrightarrow> bounce_write h 0 BOUNCE_POOL_SIZE (\<lambda>_. m) = Some (h\<lparr>vh_bounce_mem := m\<rparr>)"
  using hal_ok_size [of h] by (simp add: bounce_write_def bounce_whole)

lemma mem_only_ok: "mem_only h h' \<Longrightarrow> hal_ok h \<Longrightarrow> hal_ok h'"
  by (auto simp: mem_only_def hal_ok_def)

lemma put_done_mem:
  assumes "hal_ok (k_hal k)" and "put_done k ck r og s ps = Ok k'"
  shows "mem_only (k_hal k) (k_hal k')"
  using assms write_done_length [OF hal_ok_size(2) [OF assms(1)]]
  by (auto simp: put_done_def bounce_whole bounce_write_whole mem_only_def)

text \<open>The part of the state the link to the host uses.\<close>

definition link :: "virt_hal \<Rightarrow> virt_gate \<times> vsock_conn option \<times> u64 \<times> u32" where
  "link h = (vh_gate h, vh_conn h, vh_enter_cookie h, vh_enter_bounce_len h)"

lemma mem_only_link: "mem_only h h' \<Longrightarrow> link h' = link h"
  by (auto simp: mem_only_def link_def)

lemma import_shm_link: "import_shm h off n p = (r, h') \<Longrightarrow> link h' = link h"
  by (auto simp: import_shm_def link_def split: if_splits option.splits res.splits)

lemma import_params_keeps:
  "import_params h ps = Some h' \<Longrightarrow> hal_ok h \<Longrightarrow> hal_ok h' \<and> link h' = link h"
proof (induction h ps rule: import_params.induct)
  case (2 h ck offs sz d ps)
  obtain r h1 where i: "import_shm h (ck + word_of_nat offs) (max sz 1) (dir_perms d) = (r, h1)" by fastforce
  with 2 have "import_params h1 ps = Some h'" "unat ck + offs < 2 ^ 64" "r \<noteq> Panic"
    by (auto split: if_splits res.splits)
  with 2 i import_shm_ok [OF _ i] import_shm_link [OF i] show ?case by (cases r) auto
qed auto

lemma import_memrefs_keeps:
  "import_memrefs k cmd = Some k' \<Longrightarrow> hal_ok (k_hal k) \<Longrightarrow> hal_ok (k_hal k') \<and> link (k_hal k') = link (k_hal k)"
  by (auto simp: import_memrefs_def dest: import_params_keeps split: kernel_cmd.splits)

lemma complete_stream_eq:
  assumes "hal_ok h" and "window h = (sq, ck, n)" and "unat ck + unat n \<le> BOUNCE_POOL_SIZE" and "vh_conn h = Some c"
  shows "\<exists>vh. vk_op vh = VIRTIO_VSOCK_OP_RW \<and>
    complete_stream h out =
      (Ok (vh, encode_pdu (pdu_of KIND_COMPLETE sq n) out (pool_slice h ck n)),
       h\<lparr>vh_gate := (vh_gate h)\<lparr>vg_tx := None, vg_yielding := False, vg_rx := None\<rparr>\<rparr>)"
  using assms hal_ok_size [OF assms(1)]
  by (auto simp: complete_stream_def take_tx_def gate_complete_def window_def Let_def usize_add_def
      slice_range_def pool_slice_def pdu_of_def CALL_FRAME_LEN_def wrap_rw_def)

lemma length_pool_slice:
  "hal_ok h \<Longrightarrow> unat ck + unat n \<le> BOUNCE_POOL_SIZE \<Longrightarrow> length (pool_slice h ck n) = unat n"
  using hal_ok_size [of h] by (simp add: pool_slice_def)

section \<open>Packets and commands\<close>

text \<open>The PDU header and the frame a packet to the host carries, as the host reads it.\<close>

definition pdu_in :: "bytes \<Rightarrow> (pdu_header \<times> call_frame) option" where
  "pdu_in pkt =
     (case VsockHdr_decode pkt of
        Ok vh \<Rightarrow>
          if vk_op vh = VIRTIO_VSOCK_OP_RW
          then (case (hv_PduHeader_decode (take 16 (drop 44 pkt)), decode_frame (drop 60 pkt)) of
                  (Ok h, Ok f) \<Rightarrow> Some (h, f)
                | _ \<Rightarrow> None)
          else None
      | _ \<Rightarrow> None)"

text \<open>Sequence number and frame of every completion among the packets, and of a command waiting for its image.\<close>

definition completes :: "bytes list \<Rightarrow> (u32 \<times> call_frame) list" where
  "completes tx =
     map (\<lambda>(h, f). (pdu_seq h, f)) (filter (\<lambda>(h, f). pdu_kind h = KIND_COMPLETE) (List.map_filter pdu_in tx))"

definition pending :: "'p guest \<Rightarrow> (u32 \<times> call_frame) list" where
  "pending g = (case g_waiting g of None \<Rightarrow> [] | Some f \<Rightarrow> [(vg_seq (vh_gate (k_hal (g_kernel g))), f)])"

text \<open>Sequence number and frame of the command a step takes off the stream.\<close>

definition taken_rw :: "'p guest \<Rightarrow> vsock_hdr \<Rightarrow> bytes \<Rightarrow> (u32 \<times> call_frame) list" where
  "taken_rw g hdr payload =
     (case (g_waiting g, push_host_rw (k_hal (g_kernel g)) hdr payload) of
        (None, Ok h) \<Rightarrow>
          (case (fst (read_stream h), fst (recv_enter h)) of
             (Ok (ph, f, _), Ok _) \<Rightarrow> [(pdu_seq ph, f)]
           | _ \<Rightarrow> [])
      | _ \<Rightarrow> [])"

definition taken :: "'p guest \<Rightarrow> u32 \<Rightarrow> bytes \<Rightarrow> (u32 \<times> call_frame) list" where
  "taken g len rxbuf =
     (if unat len < VIRTIO_VSOCK_HDR_LEN \<or> length rxbuf < unat len then []
      else case VsockHdr_decode (take VIRTIO_VSOCK_HDR_LEN rxbuf) of
        Ok hdr \<Rightarrow>
          if vk_op hdr = VIRTIO_VSOCK_OP_RW
          then taken_rw g hdr (take (unat len - VIRTIO_VSOCK_HDR_LEN) (drop VIRTIO_VSOCK_HDR_LEN rxbuf)) else []
      | _ \<Rightarrow> [])"

fun commands_taken :: "'p genv \<Rightarrow> 'p guest \<Rightarrow> (u32 \<times> bytes) list \<Rightarrow> (u32 \<times> call_frame) list" where
  "commands_taken E g [] = []"
| "commands_taken E g ((len, rxbuf) # rest) =
     taken g len rxbuf @ (case vsock_step E g len rxbuf of Go g' _ \<Rightarrow> commands_taken E g' rest | _ \<Rightarrow> [])"

lemma completes_append [simp]: "completes (xs @ ys) = completes xs @ completes ys"
  by (simp add: completes_def List.map_filter_def)

lemma completes_Nil [simp]: "completes [] = []"
  by (simp add: completes_def List.map_filter_def)

lemma length_VsockHdr_encode [simp]: "length (VsockHdr_encode vh) = 44"
  by (simp add: VsockHdr_encode_def)

lemma VsockHdr_decode_encode [simp]: "VsockHdr_decode (VsockHdr_encode vh @ rest) = Ok vh"
  by (simp add: VsockHdr_decode_def VsockHdr_encode_def VIRTIO_VSOCK_HDR_LEN_def read_le_Ok)

lemma VsockHdr_decode_encode' [simp]: "VsockHdr_decode (VsockHdr_encode vh) = Ok vh"
  using VsockHdr_decode_encode [of vh "[]"] by simp

lemma pdu_in_pdu:
  assumes "vk_op vh = VIRTIO_VSOCK_OP_RW" and "valid_kind (pdu_kind h)" and "wf_frame f"
  shows "pdu_in (send_rw vh (encode_pdu h f b)) = Some (h, f)"
  using assms by (simp add: pdu_in_def send_rw_def encode_pdu_def)

lemma completes_pdu:
  assumes "vk_op vh = VIRTIO_VSOCK_OP_RW" and "valid_kind k" and "wf_frame f"
  shows "completes [send_rw vh (encode_pdu (pdu_of k sq n) f b)] = (if k = KIND_COMPLETE then [(sq, f)] else [])"
  using pdu_in_pdu [of vh "pdu_of k sq n" f b] assms
  by (simp add: completes_def List.map_filter_def pdu_of_def)

lemma completes_other [simp]: "vk_op vh \<noteq> VIRTIO_VSOCK_OP_RW \<Longrightarrow> completes [VsockHdr_encode vh] = []"
  by (simp add: completes_def List.map_filter_def pdu_in_def)

lemma completes_credit [simp]: "completes (send_credit h) = []"
  by (auto simp: send_credit_def hal_credit_update_def conn_credit_update_def vsock_op_defs
      split: option.splits res.splits)

lemma read_regs_length: "read_regs b is = Ok ws \<Longrightarrow> length ws = length is"
  by (induction "is" arbitrary: ws) auto

lemma take_pdu_frame: "take_pdu c = (Ok (h, f, b), c') \<Longrightarrow> wf_frame f"
  by (auto simp: take_pdu_def Let_def decode_frame_def wf_frame_def slice_range_def
      dest: read_regs_length split: if_splits res.splits option.splits)

lemma read_stream_frame: "fst (read_stream h) = Ok (ph, f, b) \<Longrightarrow> wf_frame f"
  by (auto simp: read_stream_def read_pdu_def dest: take_pdu_frame split: option.splits prod.splits)

section \<open>The invariant of the loop\<close>

definition guest_ok :: "'p guest \<Rightarrow> bool" where
  "guest_ok g \<longleftrightarrow>
     (let h = k_hal (g_kernel g) in
      hal_ok h \<and> vg_rx (vh_gate h) = None \<and>
      (case g_waiting g of
         None \<Rightarrow> \<not> vg_yielding (vh_gate h)
       | Some f \<Rightarrow>
           vg_yielding (vh_gate h) \<and> wf_frame f \<and> vh_conn h \<noteq> None \<and> vh_enter_cookie h = cookie f \<and>
           unat (cookie f) + unat (vh_enter_bounce_len h) \<le> BOUNCE_POOL_SIZE))"

text \<open>A HAL in the middle of a command: idle gate, open connection, window inside the pool.\<close>

definition serving :: "virt_hal \<Rightarrow> u32 \<Rightarrow> call_frame \<Rightarrow> u32 \<Rightarrow> bool" where
  "serving h sq f n \<longleftrightarrow>
     hal_ok h \<and> vg_rx (vh_gate h) = None \<and> \<not> vg_yielding (vh_gate h) \<and> vh_conn h \<noteq> None \<and> wf_frame f \<and>
     window h = (sq, cookie f, n) \<and> unat (cookie f) + unat n \<le> BOUNCE_POOL_SIZE"

lemma serving_link: "serving h sq f n \<Longrightarrow> hal_ok h' \<Longrightarrow> link h' = link h \<Longrightarrow> serving h' sq f n"
  by (simp add: serving_def link_def window_def)

lemma serving_mem: "serving h sq f n \<Longrightarrow> mem_only h h' \<Longrightarrow> serving h' sq f n"
  using serving_link mem_only_ok mem_only_link unfolding serving_def by metis

lemma send_complete_serving:
  assumes "serving (k_hal k) sq f n"
  obtains vh b h where "vk_op vh = VIRTIO_VSOCK_OP_RW"
    "send_complete k f = Go (k\<lparr>k_hal := h\<rparr>) [send_rw vh (encode_pdu (pdu_of KIND_COMPLETE sq n) f b)]"
    "hal_ok h" "vg_rx (vh_gate h) = None" "\<not> vg_yielding (vh_gate h)" "length b = unat n"
proof -
  obtain c where "vh_conn (k_hal k) = Some c" using assms by (auto simp: serving_def)
  with complete_stream_eq [of "k_hal k" sq "cookie f" n c f] assms length_pool_slice [of "k_hal k" "cookie f" n]
  show ?thesis by (auto simp: serving_def send_complete_def intro: that)
qed

lemma pack_load_ta_Ok: "pack_load_ta pool u = Ok ((ck, m), pool') \<Longrightarrow> ck = RPC_COOKIE"
  by (auto simp: pack_load_ta_def Let_def split: if_splits prod.splits)

lemma wf_rpc_frame [simp]: "wf_frame (set_cookie_a1a2 \<lparr>cf_r = replicate 8 0\<rparr> ck)"
  unfolding set_cookie_a1a2_eq wf_set_cookie by (simp add: wf_frame_def)

lemma wrap_outgoing_op:
  "vh_conn h \<noteq> None \<Longrightarrow> \<exists>vh. wrap_outgoing h p = Ok vh \<and> vk_op vh = VIRTIO_VSOCK_OP_RW"
  by (auto simp: wrap_outgoing_def wrap_rw_def)

lemma valid_kinds [simp]: "valid_kind KIND_COMPLETE" "valid_kind KIND_RPC" "KIND_RPC \<noteq> KIND_COMPLETE"
  by (simp_all add: valid_kind_def proto_kind_defs)

text \<open>The HAL after the request was queued and taken: it waits, with the window of the command saved.\<close>

definition requested :: "virt_hal \<Rightarrow> virt_hal \<Rightarrow> bool" where
  "requested h h' \<longleftrightarrow>
     hal_ok h' \<and> vh_conn h' = vh_conn h \<and> vg_rx (vh_gate h') = None \<and> vg_yielding (vh_gate h') \<and>
     vg_seq (vh_gate h') = vg_seq (vh_gate h) \<and> vh_enter_cookie h' = vg_last_cookie (vh_gate h) \<and>
     vh_enter_bounce_len h' = vg_last_bounce_len (vh_gate h)"

lemma rpc_yield_requested:
  assumes "hal_ok h" and "vg_rx (vh_gate h) = None" and "length pool = length (vh_bounce_mem h)"
    and "h1 = set_rpc_window (h\<lparr>vh_bounce_mem := pool\<rparr>) ck m"
  obtains r h2 where "take_tx (h1\<lparr>vh_gate := snd (gate_rpc_yield (vh_gate h1) fr)\<rparr>) = (r, h2)" "requested h h2"
    "r = Panic \<or> (\<exists>b. r = Ok (Some (pdu_of KIND_RPC (vg_seq (vh_gate h)) m, fr, b)))"
proof -
  have ok: "hal_ok (h\<lparr>vh_bounce_mem := pool\<rparr>)" using assms(1,3) by (simp add: hal_ok_def)
  have g: "snd (gate_rpc_yield (vh_gate h1) fr) = (vh_gate h)\<lparr>vg_yielding := True, vg_last_cookie := ck,
      vg_last_bounce_len := m, vg_tx := Some (pdu_of KIND_RPC (vg_seq (vh_gate h)) m, fr)\<rparr>"
    using assms(2) by (simp add: assms(4) set_rpc_window_def gate_rpc_yield_def Let_def pdu_of_def CALL_FRAME_LEN_def)
  let ?h = "h1\<lparr>vh_gate := snd (gate_rpc_yield (vh_gate h1) fr)\<rparr>"
  let ?h2 = "?h\<lparr>vh_gate := (vh_gate ?h)\<lparr>vg_tx := None\<rparr>\<rparr>"
  have "requested h ?h2"
    using ok assms(2) unfolding requested_def g by (simp add: assms(4) set_rpc_window_def)
  moreover have "\<exists>r. take_tx ?h = (r, ?h2) \<and>
      (r = Panic \<or> (\<exists>b. r = Ok (Some (pdu_of KIND_RPC (vg_seq (vh_gate h)) m, fr, b))))"
    unfolding g by (auto simp: take_tx_def Let_def usize_add_def slice_range_def pdu_of_def)
  ultimately show ?thesis using that by blast
qed

lemma send_load_ta_effect:
  assumes "hal_ok (k_hal k)" and "vg_rx (vh_gate (k_hal k)) = None" and "vh_conn (k_hal k) \<noteq> None"
    and "send_load_ta k u = Go k' tx"
  obtains vh m fr b h where "vk_op vh = VIRTIO_VSOCK_OP_RW" "wf_frame fr" "requested (k_hal k) h"
    "k' = k\<lparr>k_hal := h\<rparr>" "tx = [send_rw vh (encode_pdu (pdu_of KIND_RPC (vg_seq (vh_gate (k_hal k))) m) fr b)]"
proof -
  let ?h = "k_hal k"
  obtain ck m pool where p: "pack_load_ta (vh_bounce_mem ?h) u = Ok ((ck, m), pool)"
    using assms(1,4) by (auto simp: send_load_ta_def bounce_whole split: res.splits)
  have len: "length pool = length (vh_bounce_mem ?h)"
    by (rule pack_load_ta_length [OF hal_ok_size(2) [OF assms(1)] p])
  define h1 where "h1 = set_rpc_window (?h\<lparr>vh_bounce_mem := pool\<rparr>) ck m"
  define fr where "fr = set_cookie_a1a2 \<lparr>cf_r = replicate 8 0\<rparr> ck"
  obtain r h2 where r: "take_tx (h1\<lparr>vh_gate := snd (gate_rpc_yield (vh_gate h1) fr)\<rparr>) = (r, h2)" "requested ?h h2"
    "r = Panic \<or> (\<exists>b. r = Ok (Some (pdu_of KIND_RPC (vg_seq (vh_gate ?h)) m, fr, b)))"
    using rpc_yield_requested [OF assms(1,2) len h1_def] .
  have step: "send_load_ta k u =
      (case (r, h2) of
         (Ok None, h) \<Rightarrow> Halt ''rpc tx''
       | (Ok (Some (hdr, fr, bounce)), h) \<Rightarrow>
           let pdu = encode_pdu hdr fr bounce in
           (case wrap_outgoing h pdu of
              Ok vh \<Rightarrow> Go (k\<lparr>k_hal := h\<rparr>) [send_rw vh pdu]
            | _ \<Rightarrow> Go (k\<lparr>k_hal := h\<rparr>) [])
       | (Err _, h) \<Rightarrow> Hang
       | (Panic, h) \<Rightarrow> Hang)"
    using p r(1) assms(1)
    by (simp add: send_load_ta_def bounce_whole bounce_write_whole fr_def h1_def Let_def)
  then obtain b where b: "r = Ok (Some (pdu_of KIND_RPC (vg_seq (vh_gate ?h)) m, fr, b))"
    using r(3) assms(4) by auto
  have "vh_conn h2 \<noteq> None" using r(2) assms(3) by (simp add: requested_def)
  from wrap_outgoing_op [OF this] obtain vh where vh: "wrap_outgoing h2 (encode_pdu (pdu_of KIND_RPC
      (vg_seq (vh_gate ?h)) m) fr b) = Ok vh" "vk_op vh = VIRTIO_VSOCK_OP_RW" by blast
  show ?thesis
  proof (rule that [OF vh(2) _ r(2)])
    show "wf_frame fr" by (simp add: fr_def)
  qed (use assms(4) step b vh(1) in \<open>auto simp: Let_def\<close>)
qed

lemma send_load_ta_serving:
  assumes s: "serving (k_hal k) sq f n" and "send_load_ta k u = Go k' tx"
  shows "completes tx = [] \<and> guest_ok \<lparr>g_kernel = k', g_waiting = Some f\<rparr> \<and>
    pending \<lparr>g_kernel = k', g_waiting = Some f\<rparr> = [(sq, f)]"
proof -
  have h: "hal_ok (k_hal k)" "vg_rx (vh_gate (k_hal k)) = None" "vh_conn (k_hal k) \<noteq> None"
    using s by (auto simp: serving_def)
  obtain vh m fr b h where e: "vk_op vh = VIRTIO_VSOCK_OP_RW" "wf_frame fr" "requested (k_hal k) h"
    "k' = k\<lparr>k_hal := h\<rparr>" "tx = [send_rw vh (encode_pdu (pdu_of KIND_RPC (vg_seq (vh_gate (k_hal k))) m) fr b)]"
    using send_load_ta_effect [OF h assms(2)] .
  have "completes tx = []" using completes_pdu [OF e(1) _ e(2), of KIND_RPC] e(5) by simp
  with s e(3) show ?thesis
    by (simp add: e(4) guest_ok_def pending_def requested_def serving_def window_def)
qed

lemma done_serving:
  assumes "serving (k_hal k) sq f n" and "put_done k ck r og s ps = Ok k1"
    and "send_complete k1 f = Go k' tx"
  shows "guest_ok \<lparr>g_kernel = k', g_waiting = None\<rparr> \<and> completes tx = [(sq, f)]"
proof -
  have "serving (k_hal k1) sq f n"
    using assms(1) put_done_mem [OF _ assms(2)] serving_mem unfolding serving_def by metis
  from send_complete_serving [OF this] obtain vh b h where c: "vk_op vh = VIRTIO_VSOCK_OP_RW"
    "send_complete k1 f = Go (k1\<lparr>k_hal := h\<rparr>) [send_rw vh (encode_pdu (pdu_of KIND_COMPLETE sq n) f b)]"
    "hal_ok h" "vg_rx (vh_gate h) = None" "\<not> vg_yielding (vh_gate h)" .
  moreover have "wf_frame f" using assms(1) by (simp add: serving_def)
  ultimately show ?thesis
    using assms(3) completes_pdu [OF c(1), of KIND_COMPLETE f sq n b] by (auto simp: guest_ok_def)
qed

lemma dispatch_serving:
  assumes "serving (k_hal k) sq f n" and "dispatch_out k f out None = Go g' tx"
  shows "guest_ok g' \<and> completes tx @ pending g' = [(sq, f)]"
proof (cases out)
  case (Done res sid ps)
  with assms(2) obtain k1 k' where "put_done k (cookie_a1a2 f) (res_code res) (as_gp (res_origin res))
      (case sid of Some s \<Rightarrow> s | None \<Rightarrow> 0) ps = Ok k1" "send_complete k1 f = Go k' tx"
      "g' = \<lparr>g_kernel = k', g_waiting = None\<rparr>"
    by (auto simp: dispatch_out_def split: res.splits guest_res.splits)
  with done_serving [OF assms(1)] show ?thesis by (simp add: pending_def)
next
  case (Rpc r)
  with assms(2) obtain u k' where "send_load_ta k u = Go k' tx" "g' = \<lparr>g_kernel = k', g_waiting = Some f\<rparr>"
    by (auto simp: dispatch_out_def split: hal_rpc.splits guest_res.splits)
  with send_load_ta_serving [OF assms(1)] show ?thesis by simp
qed

lemma recv_enter_serving:
  assumes "hal_ok h" and "vg_rx (vh_gate h) = None" and "\<not> vg_yielding (vh_gate h)"
    and "recv_enter h = (Ok f, h1)"
  obtains ph b where "fst (read_stream h) = Ok (ph, f, b)" "serving h1 (pdu_seq ph) f (pdu_bounce_len ph)"
proof -
  obtain ph b c where e: "fst (read_stream h) = Ok (ph, f, b)"
    "window h1 = (pdu_seq ph, cookie f, pdu_bounce_len ph)"
    "unat (cookie f) + unat (pdu_bounce_len ph) \<le> length (vh_bounce_mem h1)" "vh_conn h1 = Some c"
    using recv_enter_Ok [OF assms(4)] .
  have ok: "hal_ok h1" using recv_enter_ok [OF assms(1,4)] .
  have "vg_rx (vh_gate h1) = None \<and> \<not> vg_yielding (vh_gate h1)"
    using assms(3,4)
    by (auto simp: recv_enter_def gate_recv_def Let_def split: prod.splits res.splits if_splits option.splits
        dest!: read_stream_eq feed_pdu_Ok)
  then have "serving h1 (pdu_seq ph) f (pdu_bounce_len ph)"
    using e ok hal_ok_size(1) [OF ok] read_stream_frame [OF e(1)] by (simp add: serving_def)
  with e(1) that show ?thesis by blast
qed

lemma recv_enter_error:
  assumes "hal_ok h" and "vg_rx (vh_gate h) = None" and "\<not> vg_yielding (vh_gate h)"
    and "recv_enter h = (Err e, h1)"
  shows "hal_ok h1 \<and> vg_rx (vh_gate h1) = None \<and> \<not> vg_yielding (vh_gate h1)"
proof -
  obtain q h0 where q: "read_stream h = (q, h0)" by fastforce
  have h0: "vh_gate h0 = vh_gate h" using read_stream_eq [OF q] by (metis virt_hal.select_convs(1)
      virt_hal.surjective virt_hal.update_convs(9))
  have "vg_rx (vh_gate h1) = None \<and> \<not> vg_yielding (vh_gate h1)"
    using assms(2-4) q h0
    by (auto simp: recv_enter_def gate_recv_def Let_def split: prod.splits res.splits if_splits option.splits
        dest!: feed_pdu_Ok)
  with recv_enter_ok [OF assms(1,4)] show ?thesis by blast
qed

lemma read_stream_link:
  assumes "read_stream h = (q, h0)"
  shows "vh_gate h0 = vh_gate h \<and> vh_enter_cookie h0 = vh_enter_cookie h \<and>
    vh_enter_bounce_len h0 = vh_enter_bounce_len h \<and> (vh_conn h0 = None \<longleftrightarrow> vh_conn h = None)"
  using assms by (auto simp: read_stream_def split: option.splits prod.splits)

lemma recv_rpc_reply_serving:
  assumes "hal_ok h" and "vh_conn h \<noteq> None" and "wf_frame f" and "vh_enter_cookie h = cookie f"
    and "unat (cookie f) + unat (vh_enter_bounce_len h) \<le> BOUNCE_POOL_SIZE"
    and "recv_rpc_reply h = (Ok r, h1)"
  shows "serving h1 (vg_seq (vh_gate h)) f (vh_enter_bounce_len h)"
proof -
  obtain q h0 where q: "read_stream h = (q, h0)" by fastforce
  with assms(6) obtain hdr f' b h2 where fd: "feed_pdu h0 hdr f' b = Ok h2" and
    h1: "h1 = h2\<lparr>vh_gate := (vh_gate h2)\<lparr>vg_rx := None, vg_yielding := False,
      vg_last_cookie := vh_enter_cookie h2, vg_last_bounce_len := vh_enter_bounce_len h2\<rparr>\<rparr>"
    by (auto simp: recv_rpc_reply_def split: res.splits prod.splits if_splits)
  have "hal_ok h1" by (rule recv_rpc_reply_ok [OF assms(1,6)])
  with feed_pdu_Ok [OF fd] read_stream_link [OF q] assms(2-5) show ?thesis
    by (simp add: serving_def h1 window_def)
qed

lemma recv_rpc_reply_NotFound:
  assumes "recv_rpc_reply h = (Err NotFound, h1)"
  shows "vh_gate h1 = vh_gate h \<and> vh_enter_cookie h1 = vh_enter_cookie h \<and>
    vh_enter_bounce_len h1 = vh_enter_bounce_len h \<and> (vh_conn h1 = None \<longleftrightarrow> vh_conn h = None)"
proof -
  obtain q h0 where q: "read_stream h = (q, h0)" by fastforce
  then have "h1 = h0"
    using assms by (auto simp: recv_rpc_reply_def feed_pdu_def copy_bounce_in_def Let_def
        split: res.splits prod.splits if_splits option.splits)
  with read_stream_link [OF q] show ?thesis by simp
qed

lemma push_host_rw_link:
  assumes "push_host_rw h hdr p = Ok h1"
  shows "vh_gate h1 = vh_gate h \<and> vh_enter_cookie h1 = vh_enter_cookie h \<and>
    vh_enter_bounce_len h1 = vh_enter_bounce_len h \<and> vh_conn h1 \<noteq> None"
  using assms by (auto simp: push_host_rw_def split: option.splits)

context confined_env
begin

lemma run_cmd_serving:
  assumes "serving (k_hal k) sq f n" and "run_cmd E k f cmd None = Go g' tx"
  shows "guest_ok g' \<and> completes tx @ pending g' = [(sq, f)]"
proof -
  obtain out k1 where h: "handle E k cmd = Ret out k1" "dispatch_out k1 f out None = Go g' tx"
    using assms(2) by (auto simp: run_cmd_def split: outcome.splits)
  have "serving (k_hal k1) sq f n" using assms(1) handle_hal [OF h(1)] by (rule serving_mem)
  from dispatch_serving [OF this h(2)] show ?thesis .
qed

lemma handle_enter_serving:
  assumes "serving (k_hal k) sq f n" and "handle_enter E k f None = Go g' tx"
  shows "guest_ok g' \<and> completes tx @ pending g' = [(sq, f)]"
proof -
  have ok: "hal_ok (k_hal k)" using assms(1) by (simp add: serving_def)
  show ?thesis
  proof (cases "decode_cmd (vh_bounce_mem (k_hal k)) (cookie_a1a2 f)")
    case (Ok cmd)
    with assms(2) ok obtain k1 where k1: "import_memrefs k cmd = Some k1" "run_cmd E k1 f cmd None = Go g' tx"
      by (auto simp: handle_enter_def Let_def bounce_whole split: option.splits)
    with import_memrefs_keeps [OF k1(1) ok] serving_link [OF assms(1)] run_cmd_serving show ?thesis by blast
  next
    case (Err e)
    with assms(2) ok obtain k1 k' where "put_done k (cookie_a1a2 f) 0xFFFF0006 4 0 no_params = Ok k1"
      "send_complete k1 f = Go k' tx" "g' = \<lparr>g_kernel = k', g_waiting = None\<rparr>"
      by (auto simp: handle_enter_def Let_def bounce_whole split: res.splits guest_res.splits)
    with done_serving [OF assms(1)] show ?thesis by (simp add: pending_def)
  next
    case Panic
    with assms(2) ok show ?thesis by (simp add: handle_enter_def Let_def bounce_whole)
  qed
qed

lemma handle_rpc_reply_serving:
  assumes "serving (k_hal k) sq f n" and "handle_rpc_reply E k f None = Go g' tx"
  shows "guest_ok g' \<and> completes tx @ pending g' = [(sq, f)]"
  using assms(2) run_cmd_serving [OF assms(1)]
  by (auto simp: handle_rpc_reply_def split: option.splits res.splits)

lemma on_rw_idle:
  assumes "g_waiting g = None" and p: "push_host_rw (k_hal (g_kernel g)) hdr payload = Ok h" and ok: "hal_ok h"
    and idle: "vg_rx (vh_gate h) = None" "\<not> vg_yielding (vh_gate h)" and go: "on_rw E g hdr payload = Go g' tx"
  shows "guest_ok g' \<and> completes tx @ pending g' = taken_rw g hdr payload"
proof -
  let ?k = "g_kernel g"
  obtain r h1 where e: "recv_enter h = (r, h1)" by fastforce
  show ?thesis
  proof (cases r)
    case (Ok f)
    obtain ph b where s: "fst (read_stream h) = Ok (ph, f, b)" "serving h1 (pdu_seq ph) f (pdu_bounce_len ph)"
      using recv_enter_serving [OF ok idle e [unfolded Ok]] .
    obtain tx1 where t: "handle_enter E (?k\<lparr>k_hal := h1\<rparr>) f None = Go g' tx1"
      "tx = tx1 @ send_credit (k_hal (g_kernel g'))"
      using go assms(1) p e Ok
      by (cases "handle_enter E (?k\<lparr>k_hal := h1\<rparr>) f None") (auto simp: on_rw_def Let_def)
    from handle_enter_serving [OF _ t(1)] s(2) show ?thesis
      using t(2) assms(1) p e Ok s(1) by (simp add: taken_rw_def)
  next
    case (Err er)
    with go assms(1) p e recv_enter_error [OF ok idle e [unfolded Err]] show ?thesis
      by (auto simp: on_rw_def Let_def guest_ok_def pending_def taken_rw_def split: res.splits prod.splits)
  next
    case Panic
    with go assms(1) p e show ?thesis by (simp add: on_rw_def Let_def)
  qed
qed

lemma on_rw_waiting:
  assumes "g_waiting g = Some f" and p: "push_host_rw (k_hal (g_kernel g)) hdr payload = Ok h" and ok: "hal_ok h"
    and w: "vh_conn h \<noteq> None" "wf_frame f" "vh_enter_cookie h = cookie f"
      "unat (cookie f) + unat (vh_enter_bounce_len h) \<le> BOUNCE_POOL_SIZE"
      "vg_yielding (vh_gate h)" "vg_rx (vh_gate h) = None"
    and go: "on_rw E g hdr payload = Go g' tx"
  shows "guest_ok g' \<and> completes tx @ pending g' = [(vg_seq (vh_gate h), f)]"
proof -
  let ?k = "g_kernel g"
  obtain r h1 where e: "recv_rpc_reply h = (r, h1)" by fastforce
  show ?thesis
  proof (cases r)
    case (Ok f')
    obtain tx1 where t: "handle_rpc_reply E (?k\<lparr>k_hal := h1\<rparr>) f None = Go g' tx1"
      "tx = tx1 @ send_credit (k_hal (g_kernel g'))"
      using go assms(1) p e Ok
      by (cases "handle_rpc_reply E (?k\<lparr>k_hal := h1\<rparr>) f None") (auto simp: on_rw_def Let_def)
    have "serving h1 (vg_seq (vh_gate h)) f (vh_enter_bounce_len h)"
      using recv_rpc_reply_serving [OF ok w(1-4)] e Ok by simp
    from handle_rpc_reply_serving [OF _ t(1)] this t(2) show ?thesis by simp
  next
    case (Err er)
    with go assms(1) p e have "er = NotFound" by (cases er) (auto simp: on_rw_def Let_def)
    with go assms(1) p e Err w recv_rpc_reply_NotFound [of h h1] recv_rpc_reply_ok [OF ok, of r h1] show ?thesis
      by (auto simp: on_rw_def Let_def guest_ok_def pending_def)
  next
    case Panic
    with go assms(1) p e show ?thesis by (simp add: on_rw_def Let_def)
  qed
qed

lemma on_rw_ok:
  assumes g: "guest_ok g" and go: "on_rw E g hdr payload = Go g' tx"
  shows "guest_ok g' \<and> completes tx @ pending g' = pending g @ taken_rw g hdr payload"
proof (cases "push_host_rw (k_hal (g_kernel g)) hdr payload")
  case (Ok h)
  have ok: "hal_ok h" using g push_host_rw_ok [OF _ Ok] by (simp add: guest_ok_def Let_def)
  show ?thesis
  proof (cases "g_waiting g")
    case None
    with on_rw_idle [OF None Ok ok _ _ go] g push_host_rw_link [OF Ok] show ?thesis
      by (simp add: guest_ok_def [of g] Let_def pending_def [of g])
  next
    case (Some f)
    with on_rw_waiting [OF Some Ok ok _ _ _ _ _ _ go] g push_host_rw_link [OF Ok] show ?thesis
      by (simp add: guest_ok_def [of g] Let_def pending_def [of g] taken_rw_def)
  qed
next
  case (Err e)
  with g go show ?thesis by (auto simp: on_rw_def Let_def taken_rw_def split: option.splits)
next
  case Panic
  with go show ?thesis by (simp add: on_rw_def Let_def)
qed

lemma vsock_step_ok:
  assumes g: "guest_ok g" and "vsock_step E g len rxbuf = Go g' tx"
  shows "guest_ok g' \<and> completes tx @ pending g' = pending g @ taken g len rxbuf"
proof (cases "unat len < VIRTIO_VSOCK_HDR_LEN")
  case False
  have req: "guest_ok g' \<and> completes tx @ pending g' = pending g" if "on_request g hdr = Go g' tx" for hdr
  proof -
    obtain resp h where a: "accept_connect (k_hal (g_kernel g)) hdr = (Ok resp, h)"
      "g' = g\<lparr>g_kernel := (g_kernel g)\<lparr>k_hal := h\<rparr>\<rparr>" "tx = VsockHdr_encode resp # send_credit h"
      using \<open>on_request g hdr = Go g' tx\<close> by (auto simp: on_request_def Let_def split: prod.splits res.splits)
    then have "vk_op resp = VIRTIO_VSOCK_OP_RESPONSE" "hal_ok (k_hal (g_kernel g)) \<Longrightarrow> hal_ok h"
      "vh_gate h = vh_gate (k_hal (g_kernel g))" "vh_enter_cookie h = vh_enter_cookie (k_hal (g_kernel g))"
      "vh_enter_bounce_len h = vh_enter_bounce_len (k_hal (g_kernel g))" "vh_conn h \<noteq> None"
      by (auto simp: accept_connect_def vl_accept_def split: if_splits)
    then show ?thesis
      using g a(2,3) completes_append [of "[VsockHdr_encode resp]" "send_credit h"]
      by (auto simp: guest_ok_def Let_def pending_def vsock_op_defs split: option.splits)
  qed
  show ?thesis
    using assms(2) False g req on_rw_ok [OF g]
    by (auto simp: vsock_step_def taken_def slice_range_def vsock_op_defs split: res.splits if_splits)
qed (use assms in \<open>auto simp: vsock_step_def taken_def\<close>)

lemma pending_taken: "length (pending g @ taken g len rxbuf) \<le> 1"
  by (auto simp: pending_def taken_def taken_rw_def split: option.splits res.splits if_splits)

lemma vsock_loop_ok:
  "guest_ok g \<Longrightarrow> vsock_loop E g inputs = (tx, r) \<Longrightarrow>
   \<exists>rest. pending g @ commands_taken E g inputs = completes tx @ rest \<and> length rest \<le> 1 \<and>
     (\<forall>g' t. r = Go g' t \<longrightarrow> rest = pending g')"
proof (induction inputs arbitrary: g tx)
  case Nil
  then show ?case by (auto simp: pending_def split: option.splits)
next
  case (Cons i inputs)
  obtain len rxbuf where i: "i = (len, rxbuf)" by fastforce
  show ?case
  proof (cases "vsock_step E g len rxbuf")
    case (Go g1 tx1)
    obtain tx2 where t: "vsock_loop E g1 inputs = (tx2, r)" "tx = tx1 @ tx2"
      using Cons.prems(2) Go i by (auto split: prod.splits)
    have s: "guest_ok g1" "completes tx1 @ pending g1 = pending g @ taken g len rxbuf"
      using vsock_step_ok [OF Cons.prems(1) Go] by auto
    from Cons.IH [OF s(1) t(1)] obtain rest where
      "pending g1 @ commands_taken E g1 inputs = completes tx2 @ rest" "length rest \<le> 1"
      "\<forall>g' t. r = Go g' t \<longrightarrow> rest = pending g'" by blast
    moreover from this(1) have "pending g @ commands_taken E g (i # inputs) = completes tx @ rest"
      using Go t(2) i s(2) by simp (metis append_assoc)
    ultimately show ?thesis by blast
  next
    case (Halt m)
    with Cons.prems(2) i have "tx = []" "r = Halt m" by auto
    with Halt i pending_taken [of g len rxbuf] show ?thesis by simp
  next
    case Hang
    with Cons.prems(2) i have "tx = []" "r = Hang" by auto
    with Hang i pending_taken [of g len rxbuf] show ?thesis by simp
  qed
qed

end

lemma emit_hal: "emit_ree_notices wl out n k = (ok, out', k') \<Longrightarrow> k_hal k' = k_hal k"
  by (auto simp: emit_ree_notices_def Let_def split: if_splits prod.splits)

lemma guest_boot_Go:
  assumes "vsock_bound h = Some (VSOCK_GUEST_CID, VSOCK_PORT)"
  shows "\<exists>g. guest_boot E h = Go g [] \<and> k_hal (g_kernel g) = h"
proof -
  obtain ok out k where e: "emit_ree_notices (\<lambda>s w. (w @ [s], True)) [] (Some boot_notices) (kernel_new E h) = (ok, out, k)"
    by (metis prod_cases3)
  with emit_hal [OF e] assms show ?thesis by (simp add: guest_boot_def kernel_new_def Let_def)
qed

lemma guest_boot_ok:
  assumes "virt_new va = Ok h" and "guest_boot E (feed_rng h seed) = Go g tx"
  shows "guest_ok g \<and> pending g = []"
proof -
  have "hal_ok (feed_rng h seed)" using hal_ok_new [OF assms(1)] by (simp add: feed_rng_def)
  moreover have "vg_rx (vh_gate h) = None" "\<not> vg_yielding (vh_gate h)"
    using assms(1) by (auto simp: virt_new_def virt_init_def split: res.splits if_splits)
  ultimately show ?thesis
    using assms(2)
    by (auto simp: guest_boot_def kernel_new_def Let_def emit_ree_notices_def guest_ok_def pending_def
        feed_rng_def split: if_splits prod.splits)
qed

section \<open>Properties of the guest\<close>

text \<open>C26. Every command is answered once, in order: run the guest from boot on any sequence of received
  buffers; the \<open>COMPLETE\<close> PDUs among the packets it sends carry, one for one and in the same order, the
  sequence numbers and frames of the commands it took off the stream. At most the last command is
  still unanswered, and then, unless the guest stopped, it is the one waiting for its image.\<close>

theorem commands_answered:
  assumes "confined_env E alloc_va" and "virt_new va = Ok h"
    and "guest_boot E (feed_rng h seed) = Go g []" and "vsock_loop E g inputs = (tx, r)"
  shows "\<exists>rest. commands_taken E g inputs = completes tx @ rest \<and> length rest \<le> 1 \<and>
    (\<forall>g' t. r = Go g' t \<longrightarrow> rest = pending g')"
  using confined_env.vsock_loop_ok [OF assms(1) _ assms(4)] guest_boot_ok [OF assms(2,3)] by simp

definition demo_inputs :: "(u32 \<times> bytes) list" where
  "demo_inputs =
     [(44, VsockHdr_encode demo_request),
      (126, VsockHdr_encode (demo_rw 82) @ encode_pdu demo_pdu CallFrame_default [5, 6])]"

lemma demo_connected:
  assumes "vh_listener (k_hal (g_kernel g)) = vl_listen VsockListener_default"
  shows "\<exists>tx. vsock_step E g 44 (VsockHdr_encode demo_request) =
    Go (g\<lparr>g_kernel := (g_kernel g)\<lparr>k_hal := (k_hal (g_kernel g))\<lparr>vh_conn := Some demo_conn\<rparr>\<rparr>\<rparr>) tx"
  by (simp add: vsock_step_def VIRTIO_VSOCK_HDR_LEN_def slice_range_def on_request_def accept_connect_def
      vl_accept_def assms vl_listen_def VsockListener_default_def demo_request_def vsock_op_defs
      conn_from_accept_def VSOCK_GUEST_CID_def VSOCK_PORT_def demo_conn_def Let_def)

lemma demo_taken:
  assumes "hal_ok (k_hal (g_kernel g))" and "vh_conn (k_hal (g_kernel g)) = Some demo_conn"
    and "\<not> vg_yielding (vh_gate (k_hal (g_kernel g)))" and "g_waiting g = None"
  shows "taken g 126 (VsockHdr_encode (demo_rw 82) @ encode_pdu demo_pdu CallFrame_default [5, 6]) =
    [(9, CallFrame_default)]"
proof -
  let ?h = "k_hal (g_kernel g)" and ?p = "encode_pdu demo_pdu CallFrame_default [5, 6]"
  have wf: "wf_pdu demo_pdu CallFrame_default [5, 6]"
    by (simp add: wf_pdu_def demo_pdu_def valid_kind_def KIND_ENTER_def)
  have len: "length ?p = 82" using length_encode_pdu [OF wf] by (simp add: demo_pdu_def)
  let ?c = "demo_conn\<lparr>vc_rx := ?p, vc_fwd_cnt := 82\<rparr>"
  have p: "push_host_rw ?h (demo_rw 82) ?p = Ok (?h\<lparr>vh_conn := Some ?c\<rparr>)"
    using assms(2) len by (simp add: push_host_rw_def push_rw_def demo_conn_def demo_rw_def VIRTIO_VSOCK_OP_RW_def)
  have rs: "read_stream (?h\<lparr>vh_conn := Some ?c\<rparr>) = (Ok (demo_pdu, CallFrame_default, [5, 6]),
      ?h\<lparr>vh_conn := Some (?c\<lparr>vc_rx := []\<rparr>)\<rparr>)"
    using take_pdu_whole [OF wf, of _ "[]"] by (simp add: read_stream_def read_pdu_def)
  have "length (vh_bounce_mem ?h) = 16777216" "vh_bounce_len ?h = 16777216"
    using assms(1) by (simp_all add: hal_ok_def BOUNCE_POOL_SIZE_def)
  then have "\<exists>h2. recv_enter (?h\<lparr>vh_conn := Some ?c\<rparr>) = (Ok CallFrame_default, h2)"
    using assms(3) unfolding recv_enter_def rs
    by (simp add: feed_pdu_def copy_bounce_in_def Let_def demo_pdu_def CALL_FRAME_LEN_def
        cookie_a1a2_def CallFrame_default_def replicate_unroll checked_add_def USIZE_MAX_def put_range_def
        gate_recv_def KIND_ENTER_def)
  then have "taken_rw g (demo_rw 82) ?p = [(9, CallFrame_default)]"
    using p rs assms(4) by (auto simp: taken_rw_def demo_pdu_def)
  then show ?thesis
    using len by (simp add: taken_def VIRTIO_VSOCK_HDR_LEN_def demo_rw_def VIRTIO_VSOCK_OP_RW_def)
qed

theorem commands_answered_witness:
  "\<exists>h g tx r rest. virt_new 0 = Ok h \<and> guest_boot demo_virt_env (feed_rng h [1, 2]) = Go g [] \<and>
     vsock_loop demo_virt_env g demo_inputs = (tx, r) \<and>
     completes tx @ rest = [(9, CallFrame_default)]"
proof -
  obtain h where h: "virt_new 0 = Ok h" "vh_listener h = vl_listen VsockListener_default"
    by (simp add: virt_new_def virt_init_def)
  obtain g where g: "guest_boot demo_virt_env (feed_rng h [1, 2]) = Go g []" "k_hal (g_kernel g) = feed_rng h [1, 2]"
    using guest_boot_Go [of "feed_rng h [1, 2]" demo_virt_env] h(2)
    by (auto simp: vsock_bound_def feed_rng_def vl_listen_def VsockListener_default_def)
  have ok: "guest_ok g" "pending g = []" using guest_boot_ok [OF h(1) g(1)] by auto
  let ?g = "g\<lparr>g_kernel := (g_kernel g)\<lparr>k_hal := (k_hal (g_kernel g))\<lparr>vh_conn := Some demo_conn\<rparr>\<rparr>\<rparr>"
  obtain tx1 where s: "vsock_step demo_virt_env g 44 (VsockHdr_encode demo_request) = Go ?g tx1"
    using demo_connected [of g demo_virt_env] g(2) h(2) by (auto simp: feed_rng_def)
  have w: "g_waiting g = None" using ok(2) by (auto simp: pending_def split: option.splits)
  have "taken g 44 (VsockHdr_encode demo_request) = []"
    by (simp add: taken_def VIRTIO_VSOCK_HDR_LEN_def demo_request_def vsock_op_defs)
  moreover have "taken ?g 126 (VsockHdr_encode (demo_rw 82) @ encode_pdu demo_pdu CallFrame_default [5, 6]) =
      [(9, CallFrame_default)]"
    using ok(1) w by (intro demo_taken) (auto simp: guest_ok_def Let_def)
  ultimately have c: "commands_taken demo_virt_env g demo_inputs = [(9, CallFrame_default)]"
    using s by (simp add: demo_inputs_def split: guest_res.splits)
  obtain tx r where r: "vsock_loop demo_virt_env g demo_inputs = (tx, r)" by fastforce
  from commands_answered [OF demo_confined.confined_env_axioms h(1) g(1) r] h(1) g(1) r c show ?thesis by metis
qed

end
