(* ===== verification/Gp_Client.thy ===== *)
theory Gp_Client
  imports Guest_Cmd
begin

text \<open>
  The client library of the rich world, \<open>crates/gp-client/src/lib.rs\<close> and \<open>wire.rs\<close>: identifiers as
  two words, PDUs over a byte stream, one outstanding call with remote calls in between, and the
  operations of a context, which place messages in their own copy of the bounce pool.

  A socket is the bytes the peer will send, the bytes written so far and the number of bytes the
  connection still takes before it fails. The hook \<open>on_rpc\<close> is a function on a state \<open>'g\<close>. A context
  is generic in its transport, as in the source: the operations take the \<open>enter\<close> of the transport as
  an argument. Establishing the socket and the C entry points are not modelled.
\<close>

section \<open>Constants and identifiers\<close>

definition TEEC_CONFIG_SHAREDMEM_MAX_SIZE :: u32 where "TEEC_CONFIG_SHAREDMEM_MAX_SIZE = 0x80000"
definition TEEC_SUCCESS :: u32 where "TEEC_SUCCESS = 0"
definition TEEC_ERROR_BAD_PARAMETERS :: u32 where "TEEC_ERROR_BAD_PARAMETERS = 0xFFFF0006"
definition TEEC_ERROR_COMMUNICATION :: u32 where "TEEC_ERROR_COMMUNICATION = 0xFFFF000E"
definition TEEC_ERROR_OUT_OF_MEMORY :: u32 where "TEEC_ERROR_OUT_OF_MEMORY = 0xFFFF000C"
definition TEEC_ERROR_BUSY :: u32 where "TEEC_ERROR_BUSY = 0xFFFF000D"
definition TEEC_ORIGIN_TEE :: u32 where "TEEC_ORIGIN_TEE = 3"

definition param_attr :: "u32 \<Rightarrow> u64" where
  "param_attr t =
     (if t = 0 then ATTR_TYPE_NONE
      else if t = 1 then ATTR_TYPE_VALUE_INPUT
      else if t = 2 then ATTR_TYPE_VALUE_OUTPUT
      else if t = 3 then ATTR_TYPE_VALUE_INOUT
      else if t = 5 then ATTR_TYPE_TMEM_INPUT
      else if t = 6 then ATTR_TYPE_TMEM_OUTPUT
      else if t = 7 then ATTR_TYPE_TMEM_INOUT
      else ATTR_TYPE_NONE)"

text \<open>\<open>clock_seq_and_node\<close> is an array of eight bytes.\<close>

record teec_uuid =
  time_low :: u32
  time_mid :: u16
  time_hi_and_version :: u16
  clock_seq_and_node :: bytes

definition words_lo :: "bytes \<Rightarrow> u64" where
  "words_lo bs = fold (\<lambda>(i, b) lo. lo OR push_bit (56 - i * 8) (ucast b)) (enumerate 0 bs) 0"

definition words :: "teec_uuid \<Rightarrow> u64 \<times> u64" where
  "words u =
     (push_bit 32 (ucast (time_low u)) OR push_bit 16 (ucast (time_mid u)) OR ucast (time_hi_and_version u),
      words_lo (clock_seq_and_node u))"

definition teec_from_bytes :: "bytes \<Rightarrow> teec_uuid" where
  "teec_from_bytes b =
     \<lparr>time_low = from_be_bytes (take 4 b), time_mid = from_be_bytes (take 2 (drop 4 b)),
      time_hi_and_version = from_be_bytes (take 2 (drop 6 b)),
      clock_seq_and_node = take 8 (drop 8 b)\<rparr>"

section \<open>PDUs over a stream\<close>

record stream =
  st_in :: bytes
  st_out :: bytes
  st_room :: usize

definition write_all :: "stream \<Rightarrow> bytes \<Rightarrow> (unit, u32) res \<times> stream" where
  "write_all st buf =
     (if length buf \<le> st_room st
      then (Ok (), st\<lparr>st_out := st_out st @ buf, st_room := st_room st - length buf\<rparr>)
      else (Err TEEC_ERROR_COMMUNICATION,
            st\<lparr>st_out := st_out st @ take (st_room st) buf, st_room := 0\<rparr>))"

text \<open>\<open>read_exact\<close> into a buffer of \<open>n\<close> bytes; when the peer closes early the buffer has what came.\<close>

definition read_exact :: "stream \<Rightarrow> usize \<Rightarrow> (unit, u32) res \<times> bytes \<times> stream" where
  "read_exact st n =
     (if n \<le> length (st_in st) then (Ok (), take n (st_in st), st\<lparr>st_in := drop n (st_in st)\<rparr>)
      else (Err TEEC_ERROR_COMMUNICATION, st_in st, st\<lparr>st_in := []\<rparr>))"

text \<open>The window of the pool a frame points to, when it lies inside the pool.\<close>

definition window_of :: "bytes \<Rightarrow> call_frame \<Rightarrow> u32 \<Rightarrow> (usize \<times> usize) option" where
  "window_of bounce frame bounce_len =
     (case checked_add (unat (cookie frame)) (unat bounce_len) of
        None \<Rightarrow> None
      | Some e \<Rightarrow> if e > length bounce then None else Some (unat (cookie frame), unat bounce_len))"

definition write_pdu ::
  "stream \<Rightarrow> u32 \<Rightarrow> u32 \<Rightarrow> call_frame \<Rightarrow> bytes \<Rightarrow> u32 \<Rightarrow> (unit, u32) res \<times> stream" where
  "write_pdu st kind seq frame bounce bounce_len =
     (let hdr = PduHeader_yielding kind seq bounce_len in
      case write_all st (PduHeader_encode hdr) of
        (Ok _, st) \<Rightarrow>
          (case write_all st (CallFrame_encode frame) of
             (Ok _, st) \<Rightarrow>
               (case window_of bounce frame bounce_len of
                  None \<Rightarrow> (Err TEEC_ERROR_COMMUNICATION, st)
                | Some (c, n) \<Rightarrow> write_all st (take n (drop c bounce)))
           | (r, st) \<Rightarrow> (r, st))
      | (r, st) \<Rightarrow> (r, st))"

definition wire_read_pdu ::
  "stream \<Rightarrow> bytes \<Rightarrow> (pdu_header \<times> call_frame, u32) res \<times> stream \<times> bytes" where
  "wire_read_pdu st bounce =
     (case read_exact st PDU_HDR_LEN of
        (Ok _, hb, st) \<Rightarrow>
          (case PduHeader_decode hb of
             Ok hdr \<Rightarrow>
               (case read_exact st CALL_FRAME_LEN of
                  (Ok _, fb, st) \<Rightarrow>
                    (case CallFrame_decode fb of
                       Ok frame \<Rightarrow>
                         (case window_of bounce frame (pdu_bounce_len hdr) of
                            None \<Rightarrow> (Err TEEC_ERROR_COMMUNICATION, st, bounce)
                          | Some (c, n) \<Rightarrow>
                              if n > 0
                              then (case read_exact st n of
                                      (r, bs, st) \<Rightarrow>
                                        (res_bind r (\<lambda>_. Ok (hdr, frame)), st,
                                         take c bounce @ bs @ drop (c + length bs) bounce))
                              else (Ok (hdr, frame), st, bounce))
                     | Err _ \<Rightarrow> (Err TEEC_ERROR_COMMUNICATION, st, bounce)
                     | Panic \<Rightarrow> (Panic, st, bounce))
                | (Err e, _, st) \<Rightarrow> (Err e, st, bounce)
                | (Panic, _, st) \<Rightarrow> (Panic, st, bounce))
           | Err _ \<Rightarrow> (Err TEEC_ERROR_COMMUNICATION, st, bounce)
           | Panic \<Rightarrow> (Panic, st, bounce))
      | (Err e, _, st) \<Rightarrow> (Err e, st, bounce)
      | (Panic, _, st) \<Rightarrow> (Panic, st, bounce))"

section \<open>The stream transport\<close>

record 'g transport =
  tr_sock :: stream
  tr_seq :: u32
  tr_yielding :: bool
  tr_on_rpc :: "('g \<Rightarrow> bytes \<Rightarrow> u64 \<Rightarrow> (u32, u32) res \<times> 'g \<times> bytes) option"
  tr_rpc_state :: 'g

definition transport_new :: "stream \<Rightarrow> 'g \<Rightarrow> 'g transport" where
  "transport_new sock g =
     \<lparr>tr_sock = sock, tr_seq = 1, tr_yielding = False, tr_on_rpc = None, tr_rpc_state = g\<rparr>"

definition stamp_rpc_ret :: "bytes \<Rightarrow> u64 \<Rightarrow> u32 \<Rightarrow> (bytes, u32) res" where
  "stamp_rpc_ret bounce ck ret =
     (let ret = (if ret = 0 then TEEC_ERROR_COMMUNICATION else ret) in
      case decode_msg bounce ck of
        Ok (hdr, params, _) \<Rightarrow>
          let hdr = hdr\<lparr>msg_ret := ret\<rparr> in
          res_bind (slice_range params 0 (unat (msg_num_params hdr))) (\<lambda>ps.
            (case write_msg bounce ck hdr ps of
               Ok (_, bounce) \<Rightarrow> Ok bounce
             | Err _ \<Rightarrow> Ok bounce
             | Panic \<Rightarrow> Panic))
      | Err _ \<Rightarrow> Ok bounce
      | Panic \<Rightarrow> Panic)"

text \<open>The call of the hook: the length of the reply, the new hook state and the pool.\<close>

definition call_hook ::
  "'g transport \<Rightarrow> bytes \<Rightarrow> u64 \<Rightarrow> u32 \<Rightarrow> (u32, u32) res \<times> 'g transport \<times> bytes" where
  "call_hook t bounce ck len =
     (case tr_on_rpc t of
        None \<Rightarrow> (Ok len, t, bounce)
      | Some h \<Rightarrow>
          let (r, g, bounce) = h (tr_rpc_state t) bounce ck;
              t = t\<lparr>tr_rpc_state := g\<rparr> in
          (case r of
             Ok n \<Rightarrow> (Ok (if n > 0 then n else len), t, bounce)
           | Err code \<Rightarrow>
               (case stamp_rpc_ret bounce ck code of
                  Ok bounce \<Rightarrow> (Ok len, t, bounce)
                | Err e \<Rightarrow> (Err e, t, bounce)
                | Panic \<Rightarrow> (Panic, t, bounce))
           | Panic \<Rightarrow> (Panic, t, bounce)))"

lemma read_exact_shorter:
  "read_exact st n = (Ok u, bs, st') \<Longrightarrow> 0 < n \<Longrightarrow> length (st_in st') < length (st_in st)"
  by (auto simp: read_exact_def split: if_splits)

lemma read_exact_le: "read_exact st n = (r, bs, st') \<Longrightarrow> length (st_in st') \<le> length (st_in st)"
  by (auto simp: read_exact_def split: if_splits)

lemma wire_read_pdu_shorter:
  assumes "wire_read_pdu st bounce = (Ok x, st', bounce')"
  shows "length (st_in st') < length (st_in st)"
proof -
  obtain hb st1 where 1: "read_exact st PDU_HDR_LEN = (Ok (), hb, st1)"
    using assms by (auto simp: wire_read_pdu_def split: prod.splits res.splits)
  then have "length (st_in st1) < length (st_in st)"
    by (rule read_exact_shorter) (simp add: PDU_HDR_LEN_def)
  with assms 1 show ?thesis
    by (auto simp: wire_read_pdu_def split: prod.splits res.splits option.splits if_splits
        dest!: read_exact_le)
qed

lemma write_all_in [simp]: "st_in (snd (write_all st buf)) = st_in st"
  by (simp add: write_all_def)

lemma write_all_inD: "write_all st buf = (r, st') \<Longrightarrow> st_in st' = st_in st"
  using write_all_in [of st buf] by simp

lemma write_pdu_inD: "write_pdu st k s f b n = (r, st') \<Longrightarrow> st_in st' = st_in st"
  by (auto simp: write_pdu_def Let_def dest!: write_all_inD split: prod.splits res.splits option.splits)

lemma call_hook_sock: "call_hook t b ck n = (r, t', b') \<Longrightarrow> tr_sock t' = tr_sock t"
  by (auto simp: call_hook_def Let_def split: option.splits prod.splits res.splits)

function enter_loop :: "'g transport \<Rightarrow> bytes \<Rightarrow> (call_frame, u32) res \<times> 'g transport \<times> bytes" where
  "enter_loop t bounce =
     (case wire_read_pdu (tr_sock t) bounce of
        (Err e, st, bounce) \<Rightarrow> (Err e, t\<lparr>tr_sock := st\<rparr>, bounce)
      | (Panic, st, bounce) \<Rightarrow> (Panic, t\<lparr>tr_sock := st\<rparr>, bounce)
      | (Ok (hdr, out), st, bounce) \<Rightarrow>
          let t1 = t\<lparr>tr_sock := st\<rparr> in
          if pdu_kind hdr = KIND_COMPLETE then (Ok out, t1\<lparr>tr_yielding := False\<rparr>, bounce)
          else if pdu_kind hdr = KIND_RPC then
            (case call_hook t1 bounce (cookie out) (pdu_bounce_len hdr) of
               (Err e, t2, bounce) \<Rightarrow> (Err e, t2, bounce)
             | (Panic, t2, bounce) \<Rightarrow> (Panic, t2, bounce)
             | (Ok reply_len, t2, bounce) \<Rightarrow>
                 (case write_pdu (tr_sock t2) KIND_RPC_REPLY (pdu_seq hdr)
                         (return_from_rpc (cookie out)) bounce reply_len of
                    (Ok _, st) \<Rightarrow> enter_loop (t2\<lparr>tr_sock := st\<rparr>) bounce
                  | (Err e, st) \<Rightarrow> (Err e, t2\<lparr>tr_sock := st\<rparr>, bounce)
                  | (Panic, st) \<Rightarrow> (Panic, t2\<lparr>tr_sock := st\<rparr>, bounce)))
          else (Err TEEC_ERROR_COMMUNICATION, t1\<lparr>tr_yielding := False\<rparr>, bounce))"
  by pat_completeness auto
termination
  by (relation "measure (\<lambda>(t, _). length (st_in (tr_sock t)))")
    (auto dest!: write_pdu_inD [OF sym] call_hook_sock [OF sym] wire_read_pdu_shorter [OF sym])

definition stream_enter ::
  "'g transport \<Rightarrow> call_frame \<Rightarrow> bytes \<Rightarrow> u32 \<Rightarrow> (call_frame, u32) res \<times> 'g transport \<times> bytes" where
  "stream_enter t frame bounce bounce_len =
     (if tr_yielding t then (Err TEEC_ERROR_BUSY, t, bounce)
      else
        let seq = tr_seq t;
            t = t\<lparr>tr_yielding := True, tr_seq := tr_seq t + 1\<rparr> in
        (case write_pdu (tr_sock t) KIND_ENTER seq frame bounce bounce_len of
           (Ok _, st) \<Rightarrow> enter_loop (t\<lparr>tr_sock := st\<rparr>) bounce
         | (Err e, st) \<Rightarrow> (Err e, t\<lparr>tr_sock := st\<rparr>, bounce)
         | (Panic, st) \<Rightarrow> (Panic, t\<lparr>tr_sock := st\<rparr>, bounce)))"

section \<open>The loopback transport\<close>

record loopback =
  lb_last_kind :: u32
  lb_last_cookie :: u64

definition Loopback_default :: loopback where
  "Loopback_default = \<lparr>lb_last_kind = 0, lb_last_cookie = 0\<rparr>"

text \<open>The copy of the input buffer to the output buffer of an invocation, when both are in the pool.\<close>

definition loop_copy :: "msg_arg_hdr \<Rightarrow> msg_param list \<Rightarrow> bytes \<Rightarrow> msg_param list \<times> bytes" where
  "loop_copy hdr ps bounce =
     (if msg_cmd hdr = MSG_CMD_INVOKE_COMMAND \<and> unat (msg_num_params hdr) \<ge> 2 \<and>
         ty (ps ! 0) = ATTR_TYPE_TMEM_INPUT \<and> ty (ps ! 1) = ATTR_TYPE_TMEM_OUTPUT
      then
        let in_off = unat (mp_a (ps ! 0)); in_sz = unat (mp_b (ps ! 0));
            out_off = unat (mp_a (ps ! 1)); out_cap = unat (mp_b (ps ! 1));
            copy = min in_sz out_cap in
        if (case checked_add in_off copy of Some e \<Rightarrow> e \<le> length bounce | None \<Rightarrow> False) \<and>
           (case checked_add out_off copy of Some e \<Rightarrow> e \<le> length bounce | None \<Rightarrow> False)
        then (ps[1 := (ps ! 1)\<lparr>mp_b := word_of_nat copy\<rparr>],
              take out_off bounce @ take copy (drop in_off bounce) @ drop (out_off + copy) bounce)
        else (ps, bounce)
      else (ps, bounce))"

definition loopback_enter ::
  "loopback \<Rightarrow> call_frame \<Rightarrow> bytes \<Rightarrow> u32 \<Rightarrow> (call_frame, u32) res \<times> loopback \<times> bytes" where
  "loopback_enter l frame bounce bounce_len =
     (let l = l\<lparr>lb_last_kind := KIND_ENTER, lb_last_cookie := cookie frame\<rparr> in
      if ucast (cf_r frame ! 0) \<noteq> SMC_CALL_WITH_ARG then (Err TEEC_ERROR_COMMUNICATION, l, bounce)
      else
        (case decode_msg bounce (cookie frame) of
           Err _ \<Rightarrow> (Err TEEC_ERROR_COMMUNICATION, l, bounce)
         | Panic \<Rightarrow> (Panic, l, bounce)
         | Ok (hdr, params, _) \<Rightarrow>
             let hdr = hdr\<lparr>msg_ret := TEEC_SUCCESS, msg_ret_origin := TEEC_ORIGIN_TEE\<rparr>;
                 hdr = (if msg_cmd hdr = MSG_CMD_OPEN_SESSION then hdr\<lparr>msg_session := 1\<rparr> else hdr);
                 n = unat (msg_num_params hdr);
                 (pbuf, bounce) = loop_copy hdr (take n params @ replicate (6 - n) MsgParam_default) bounce in
             (case write_msg bounce (cookie frame) hdr (take n pbuf) of
                Ok (_, bounce) \<Rightarrow> (Ok frame, l, bounce)
              | Err _ \<Rightarrow> (Err TEEC_ERROR_COMMUNICATION, l, bounce)
              | Panic \<Rightarrow> (Panic, l, bounce))))"

section \<open>Contexts\<close>

record 't teec_context =
  cx_transport :: 't
  cx_bounce :: bytes
  cx_seq :: u32
  cx_bump :: usize

type_synonym 't enter_fn =
  "'t \<Rightarrow> call_frame \<Rightarrow> bytes \<Rightarrow> u32 \<Rightarrow> (call_frame, u32) res \<times> 't \<times> bytes"

definition context_new :: "'t \<Rightarrow> 't teec_context" where
  "context_new t =
     \<lparr>cx_transport = t, cx_bounce = replicate BOUNCE_POOL_SIZE 0, cx_seq = 1, cx_bump = PAGE_SIZE\<rparr>"

definition context_initialize :: "(unit, u32) res" where
  "context_initialize =
     res_bind (ok_or (answer_fast_smccc SMC_CALLS_UID 0) TEEC_ERROR_COMMUNICATION) (\<lambda>uid.
       if uid \<noteq> CALLS_UID_WORDS then Err TEEC_ERROR_COMMUNICATION
       else res_bind (ok_or (answer_fast_smccc SMC_EXCHANGE_CAPABILITIES 0) TEEC_ERROR_COMMUNICATION) (\<lambda>caps.
         if caps ! 1 \<noteq> V0_SEC_CAPS then Err TEEC_ERROR_COMMUNICATION else Ok ()))"

definition cx_alloc :: "'t teec_context \<Rightarrow> usize \<Rightarrow> usize \<Rightarrow> (u64, u32) res \<times> 't teec_context" where
  "cx_alloc c len align =
     (case usize_mul ((cx_bump c + align - 1) div align) align of
        Err e \<Rightarrow> (Err e, c)
      | Panic \<Rightarrow> (Panic, c)
      | Ok a \<Rightarrow>
          (case checked_add a len of
             None \<Rightarrow> (Err TEEC_ERROR_OUT_OF_MEMORY, c)
           | Some e \<Rightarrow>
               if e > length (cx_bounce c) then (Err TEEC_ERROR_OUT_OF_MEMORY, c)
               else (Ok (word_of_nat a), c\<lparr>cx_bump := e\<rparr>)))"

text \<open>
  \<open>write_msg\<close> at the cookie, then \<open>enter\<close> with \<open>blen n\<close> bytes, where \<open>n\<close> is the size of the message: the
  steps all operations share.
\<close>

definition cx_call ::
  "'t enter_fn \<Rightarrow> 't teec_context \<Rightarrow> u64 \<Rightarrow> msg_arg_hdr \<Rightarrow> msg_param list \<Rightarrow> (usize \<Rightarrow> usize) \<Rightarrow>
   (unit, u32) res \<times> 't teec_context" where
  "cx_call enter c ck hdr params blen =
     (case write_msg (cx_bounce c) ck hdr params of
        Err _ \<Rightarrow> (Err TEEC_ERROR_BAD_PARAMETERS, c)
      | Panic \<Rightarrow> (Panic, c)
      | Ok (n, bounce) \<Rightarrow>
          (case enter (cx_transport c) (yielding_enter ck) bounce (word_of_nat (blen n)) of
             (r, t, bounce) \<Rightarrow> (res_bind r (\<lambda>_. Ok ()), c\<lparr>cx_transport := t, cx_bounce := bounce\<rparr>)))"

definition cx_open_session :: "'t enter_fn \<Rightarrow> 't teec_context \<Rightarrow> teec_uuid \<Rightarrow> u32 \<Rightarrow> (u32, u32) res \<times> 't teec_context" where
  "cx_open_session enter c dest login =
     (case cx_alloc c (MSG_ARG_ALIGN * 8) MSG_ARG_ALIGN of
        (Err e, c) \<Rightarrow> (Err e, c)
      | (Panic, c) \<Rightarrow> (Panic, c)
      | (Ok ck, c) \<Rightarrow>
          let (hi, lo) = words dest;
              hdr = MsgArgHdr_default\<lparr>msg_cmd := MSG_CMD_OPEN_SESSION, msg_num_params := 2\<rparr>;
              params = [MsgParam_value (ATTR_TYPE_VALUE_INPUT OR ATTR_META) hi lo 0,
                        MsgParam_value (ATTR_TYPE_VALUE_INPUT OR ATTR_META) 0 0 (ucast login)] in
          (case cx_call enter c ck hdr params (\<lambda>n. n) of
             (Err e, c) \<Rightarrow> (Err e, c)
           | (Panic, c) \<Rightarrow> (Panic, c)
           | (Ok _, c) \<Rightarrow>
               (res_bind (map_err (\<lambda>_. TEEC_ERROR_COMMUNICATION) (decode_msg (cx_bounce c) ck)) (\<lambda>(out, _, _).
                  if msg_ret out \<noteq> TEEC_SUCCESS then Err (msg_ret out) else Ok (msg_session out)), c)))"

definition cx_invoke :: "'t enter_fn \<Rightarrow> 't teec_context \<Rightarrow> u32 \<Rightarrow> u32 \<Rightarrow> (unit, u32) res \<times> 't teec_context" where
  "cx_invoke enter c session cmd =
     (case cx_alloc c (MSG_ARG_ALIGN * 4) MSG_ARG_ALIGN of
        (Err e, c) \<Rightarrow> (Err e, c)
      | (Panic, c) \<Rightarrow> (Panic, c)
      | (Ok ck, c) \<Rightarrow>
          let hdr = MsgArgHdr_default\<lparr>msg_cmd := MSG_CMD_INVOKE_COMMAND, msg_func := cmd,
                      msg_session := session, msg_num_params := 0\<rparr> in
          cx_call enter c ck hdr [] (\<lambda>n. n))"

text \<open>Returns the bytes written to \<open>dst\<close>; \<open>cap\<close> is the length of \<open>dst\<close>.\<close>

definition cx_invoke_shm ::
  "'t enter_fn \<Rightarrow> 't teec_context \<Rightarrow> u32 \<Rightarrow> u32 \<Rightarrow> bytes \<Rightarrow> usize \<Rightarrow> (bytes, u32) res \<times> 't teec_context" where
  "cx_invoke_shm enter c session cmd src cap =
     (if length src > unat TEEC_CONFIG_SHAREDMEM_MAX_SIZE \<or> cap > unat TEEC_CONFIG_SHAREDMEM_MAX_SIZE
      then (Err TEEC_ERROR_BAD_PARAMETERS, c)
      else
        (case cx_alloc c (MSG_ARG_HDR_SIZE + MSG_PARAM_SIZE * 2) MSG_ARG_ALIGN of
           (Err e, c) \<Rightarrow> (Err e, c)
         | (Panic, c) \<Rightarrow> (Panic, c)
         | (Ok ck, c) \<Rightarrow>
             (case cx_alloc c (max (length src) 1) MSG_ARG_ALIGN of
                (Err e, c) \<Rightarrow> (Err e, c)
              | (Panic, c) \<Rightarrow> (Panic, c)
              | (Ok in_off, c) \<Rightarrow>
                  (case cx_alloc c (max cap 1) MSG_ARG_ALIGN of
                     (Err e, c) \<Rightarrow> (Err e, c)
                   | (Panic, c) \<Rightarrow> (Panic, c)
                   | (Ok out_off, c) \<Rightarrow>
                       (case (put_range (cx_bounce c) (unat in_off) src :: (bytes, u32) res) of
                          Err e \<Rightarrow> (Err e, c)
                        | Panic \<Rightarrow> (Panic, c)
                        | Ok bounce \<Rightarrow>
                            let c = c\<lparr>cx_bounce := bounce\<rparr>;
                                hdr = MsgArgHdr_default\<lparr>msg_cmd := MSG_CMD_INVOKE_COMMAND, msg_func := cmd,
                                        msg_session := session, msg_num_params := 2\<rparr>;
                                params = [MsgParam_tmem ATTR_TYPE_TMEM_INPUT in_off (word_of_nat (length src)) in_off,
                                          MsgParam_tmem ATTR_TYPE_TMEM_OUTPUT out_off (word_of_nat cap) out_off] in
                            (case cx_call enter c ck hdr params
                                    (\<lambda>n. max (unat out_off + cap) (unat ck + n) - unat ck) of
                               (Err e, c) \<Rightarrow> (Err e, c)
                             | (Panic, c) \<Rightarrow> (Panic, c)
                             | (Ok _, c) \<Rightarrow>
                                 (res_bind (map_err (\<lambda>_. TEEC_ERROR_COMMUNICATION) (decode_msg (cx_bounce c) ck))
                                    (\<lambda>(out, params, _).
                                      if msg_ret out \<noteq> TEEC_SUCCESS then Err (msg_ret out)
                                      else res_bind (index params 1) (\<lambda>p.
                                        let ncpy = min (unat (mp_b p)) cap in
                                        slice_range (cx_bounce c) (unat out_off) (unat out_off + ncpy))), c)))))))"

definition cx_close_session :: "'t enter_fn \<Rightarrow> 't teec_context \<Rightarrow> u32 \<Rightarrow> (unit, u32) res \<times> 't teec_context" where
  "cx_close_session enter c session =
     (case cx_alloc c (MSG_ARG_ALIGN * 4) MSG_ARG_ALIGN of
        (Err e, c) \<Rightarrow> (Err e, c)
      | (Panic, c) \<Rightarrow> (Panic, c)
      | (Ok ck, c) \<Rightarrow>
          let hdr = MsgArgHdr_default\<lparr>msg_cmd := MSG_CMD_CLOSE_SESSION, msg_session := session,
                      msg_num_params := 0\<rparr> in
          cx_call enter c ck hdr [] (\<lambda>n. n))"

definition cx_register_shm :: "'t enter_fn \<Rightarrow> 't teec_context \<Rightarrow> usize \<Rightarrow> (u64, u32) res \<times> 't teec_context" where
  "cx_register_shm enter c sz =
     (if sz > unat TEEC_CONFIG_SHAREDMEM_MAX_SIZE then (Err TEEC_ERROR_BAD_PARAMETERS, c)
      else
        (case cx_alloc c (max sz PAGE_SIZE) PAGE_SIZE of
           (Err e, c) \<Rightarrow> (Err e, c)
         | (Panic, c) \<Rightarrow> (Panic, c)
         | (Ok ck, c) \<Rightarrow>
             let hdr = MsgArgHdr_default\<lparr>msg_cmd := MSG_CMD_REGISTER_SHM, msg_num_params := 1\<rparr> in
             (case cx_call enter c 32 hdr [MsgParam_tmem ATTR_TYPE_TMEM_INPUT ck (word_of_nat sz) ck] (\<lambda>_. 32) of
                (r, c) \<Rightarrow> (res_bind r (\<lambda>_. Ok ck), c))))"

definition cx_unregister_shm :: "'t enter_fn \<Rightarrow> 't teec_context \<Rightarrow> u64 \<Rightarrow> (unit, u32) res \<times> 't teec_context" where
  "cx_unregister_shm enter c ck =
     (let hdr = MsgArgHdr_default\<lparr>msg_cmd := MSG_CMD_UNREGISTER_SHM, msg_num_params := 1\<rparr> in
      cx_call enter c 32 hdr [MsgParam_rmem ATTR_TYPE_RMEM_INPUT 0 0 ck] (\<lambda>_. 32))"

end
