(* ===== verification/Client_Wire.thy ===== *)
theory Client_Wire
  imports Virt_Props Gp_Client
begin

text \<open>
  The two ends of the wire. The host library (\<open>crates/gp-client/src/wire.rs\<close>, with the codecs of
  \<open>crates/rustee-proto\<close>) and the virtual HAL (\<open>crates/rustee-hal-virt\<close>, with codecs of its own) each
  read and write PDUs; here both readers are shown to accept exactly the encodings of well-formed PDUs,
  and one round of the client's loop is computed on such an encoding.
\<close>

section \<open>One format, two codecs\<close>

lemma hv_encode_eq: "hv_PduHeader_encode = PduHeader_encode"
  by (simp add: hv_PduHeader_encode_def PduHeader_encode_def fun_eq_iff)

lemma length_PduHeader_encode [simp]: "length (PduHeader_encode h) = 16"
  by (simp add: PduHeader_encode_def)

lemma encode_frame_eq: "encode_frame = CallFrame_encode"
  by (simp add: encode_frame_def CallFrame_encode_def fun_eq_iff)

lemma hv_decode_iff:
  "16 \<le> length b \<Longrightarrow> hv_PduHeader_decode b = Ok h \<and> pdu_arg_len h = 64 \<longleftrightarrow> PduHeader_decode b = Ok h"
  by (auto simp: hv_PduHeader_decode_def PduHeader_decode_def PDU_HDR_LEN_def CALL_FRAME_LEN_def read_le_Ok)

lemma concat_regs:
  "8 * n \<le> length b \<Longrightarrow>
   concat (map (\<lambda>i. to_le_bytes (from_le_bytes (take 8 (drop (i * 8) b)) :: u64)) [0..<n]) = take (8 * n) b"
proof (induction n)
  case (Suc n)
  have "to_le_bytes (from_le_bytes (take 8 (drop (n * 8) b)) :: u64) = take 8 (drop (n * 8) b)"
    using Suc.prems by (intro to_le_from_le) simp_all
  with Suc take_take_drop [of "8 * n" b 8] show ?case by (simp add: ac_simps)
qed simp

lemma CallFrame_decode_iff:
  "CallFrame_decode b = Ok f \<longleftrightarrow> 64 \<le> length b \<and> take 64 b = encode_frame f \<and> wf_frame f"
proof
  assume "CallFrame_decode b = Ok f"
  then show "64 \<le> length b \<and> take 64 b = encode_frame f \<and> wf_frame f"
    using concat_regs [of 8 b]
    by (auto simp: CallFrame_decode_eq encode_frame_def wf_frame_def comp_def split: if_splits)
next
  assume "64 \<le> length b \<and> take 64 b = encode_frame f \<and> wf_frame f"
  then show "CallFrame_decode b = Ok f"
    using CallFrame_decode_encode [of f "drop 64 b"] append_take_drop_id [of 64 b]
    by (simp add: encode_frame_eq)
qed

lemma decode_frame_iff: "64 \<le> length b \<Longrightarrow> decode_frame b = Ok f \<longleftrightarrow> CallFrame_decode b = Ok f"
  by (simp add: decode_frame_eq CallFrame_decode_eq)

lemma decode_parts:
  "PduHeader_decode (take 16 bs) = Ok h \<and> CallFrame_decode (take 64 (drop 16 bs)) = Ok f \<and>
   unat (pdu_bounce_len h) \<le> length (drop 80 bs) \<and> b = take (unat (pdu_bounce_len h)) (drop 80 bs) \<and>
   rest = drop (80 + unat (pdu_bounce_len h)) bs \<longleftrightarrow>
   wf_pdu h f b \<and> bs = encode_pdu h f b @ rest" (is "?l \<longleftrightarrow> ?r")
proof
  assume l: ?l
  then have "take 16 bs = hv_PduHeader_encode h" "take 64 (drop 16 bs) = encode_frame f"
    by (auto simp: PduHeader_decode_iff CallFrame_decode_iff hv_encode_eq min_def split: if_splits)
  moreover have "bs = take 16 bs @ take 64 (drop 16 bs) @ take (unat (pdu_bounce_len h)) (drop 80 bs) @
      drop (80 + unat (pdu_bounce_len h)) bs"
    using drop_split [of 0 bs 16] drop_split [of 16 bs 64] drop_split [of 80 bs "unat (pdu_bounce_len h)"] by simp
  ultimately show ?r
    using l by (auto simp: wf_pdu_def encode_pdu_def PduHeader_decode_iff CallFrame_decode_iff)
next
  assume ?r
  then show ?l
    by (auto simp: wf_pdu_def encode_pdu_def PduHeader_decode_iff CallFrame_decode_iff hv_encode_eq)
qed

lemma take_pdu_iff:
  "take_pdu c = (Ok (h, f, b), c') \<longleftrightarrow>
   (\<exists>rest. wf_pdu h f b \<and> vc_rx c = encode_pdu h f b @ rest \<and> c' = c\<lparr>vc_rx := rest\<rparr>)"
proof
  assume t: "take_pdu c = (Ok (h, f, b), c')"
  let ?n = "unat (pdu_bounce_len h)"
  have t1: "16 \<le> length (vc_rx c)" "hv_PduHeader_decode (take 16 (vc_rx c)) = Ok h" "pdu_arg_len h = 64"
    using t by (auto simp: take_pdu_def PDU_HDR_LEN_def CALL_FRAME_LEN_def Let_def
        split: if_splits res.splits option.splits)
  moreover have t2: "80 + ?n \<le> length (vc_rx c)" "decode_frame (take 64 (drop 16 (vc_rx c))) = Ok f"
    "b = take ?n (drop 80 (vc_rx c))" "c' = c\<lparr>vc_rx := drop (80 + ?n) (vc_rx c)\<rparr>"
    using t t1
    by (auto simp: take_pdu_def PDU_HDR_LEN_def CALL_FRAME_LEN_def Let_def total_len slice_range_def
        slice_from_def drop_take min_def split: if_splits)
  ultimately have "wf_pdu h f b \<and> vc_rx c = encode_pdu h f b @ drop (80 + ?n) (vc_rx c)"
    by (intro iffD1 [OF decode_parts] conjI) (simp_all add: decode_frame_iff flip: hv_decode_iff)
  with t2 show "\<exists>rest. wf_pdu h f b \<and> vc_rx c = encode_pdu h f b @ rest \<and> c' = c\<lparr>vc_rx := rest\<rparr>" by blast
next
  assume "\<exists>rest. wf_pdu h f b \<and> vc_rx c = encode_pdu h f b @ rest \<and> c' = c\<lparr>vc_rx := rest\<rparr>"
  then show "take_pdu c = (Ok (h, f, b), c')" using take_pdu_whole by blast
qed

section \<open>The client's reader and writer\<close>

lemma window_of_Some:
  "window_of bounce f n = Some (c, m) \<longleftrightarrow>
   c = unat (cookie f) \<and> m = unat n \<and> unat (cookie f) + unat n \<le> USIZE_MAX \<and>
   unat (cookie f) + unat n \<le> length bounce"
  by (auto simp: window_of_def checked_add_def)

lemma wire_read_pdu_iff:
  assumes "length bounce \<le> USIZE_MAX"
  shows "wire_read_pdu st bounce = (Ok (h, f), st', bounce') \<longleftrightarrow>
    (\<exists>b rest. wf_pdu h f b \<and> st_in st = encode_pdu h f b @ rest \<and> st' = st\<lparr>st_in := rest\<rparr> \<and>
       unat (cookie f) + length b \<le> length bounce \<and>
       bounce' = take (unat (cookie f)) bounce @ b @ drop (unat (cookie f) + length b) bounce)" (is "?l \<longleftrightarrow> ?r")
proof
  let ?n = "unat (pdu_bounce_len h)" and ?c = "unat (cookie f)"
  assume l: ?l
  have l1: "16 \<le> length (st_in st)" "PduHeader_decode (take 16 (st_in st)) = Ok h"
    using l by (auto simp: wire_read_pdu_def read_exact_def PDU_HDR_LEN_def
        split: if_splits res.splits prod.splits option.splits)
  then have l2: "80 \<le> length (st_in st)" "CallFrame_decode (take 64 (drop 16 (st_in st))) = Ok f"
    using l by (auto simp: wire_read_pdu_def read_exact_def PDU_HDR_LEN_def CALL_FRAME_LEN_def
        split: if_splits res.splits prod.splits option.splits)
  then have l3: "?c + ?n \<le> length bounce" "?n \<le> length (drop 80 (st_in st))"
    "st' = st\<lparr>st_in := drop (80 + ?n) (st_in st)\<rparr>"
    "bounce' = take ?c bounce @ take ?n (drop 80 (st_in st)) @ drop (?c + ?n) bounce"
    using l l1
    by (auto simp: wire_read_pdu_def read_exact_def PDU_HDR_LEN_def CALL_FRAME_LEN_def window_of_Some add.commute
        split: if_splits option.splits)
  have "wf_pdu h f (take ?n (drop 80 (st_in st))) \<and>
      st_in st = encode_pdu h f (take ?n (drop 80 (st_in st))) @ drop (80 + ?n) (st_in st)"
    using l1 l2 l3 by (intro iffD1 [OF decode_parts] conjI) simp_all
  with l3 show ?r by (intro exI [of _ "take ?n (drop 80 (st_in st))"] exI [of _ "drop (80 + ?n) (st_in st)"]) auto
next
  assume ?r
  then obtain b rest where r: "wf_pdu h f b" "st_in st = encode_pdu h f b @ rest" "st' = st\<lparr>st_in := rest\<rparr>"
    "unat (cookie f) + length b \<le> length bounce"
    "bounce' = take (unat (cookie f)) bounce @ b @ drop (unat (cookie f) + length b) bounce" by blast
  have d: "PduHeader_decode (take 16 (st_in st)) = Ok h" "CallFrame_decode (take 64 (drop 16 (st_in st))) = Ok f"
    "unat (pdu_bounce_len h) \<le> length (drop 80 (st_in st))" "b = take (unat (pdu_bounce_len h)) (drop 80 (st_in st))"
    "rest = drop (80 + unat (pdu_bounce_len h)) (st_in st)"
    using iffD2 [OF decode_parts, of h f b "st_in st" rest] r(1,2) by auto
  have len: "80 + unat (pdu_bounce_len h) \<le> length (st_in st)" "length b = unat (pdu_bounce_len h)"
    using r(1,2) by (simp_all add: length_encode_pdu wf_pdu_def)
  have w: "window_of bounce f (pdu_bounce_len h) = Some (unat (cookie f), unat (pdu_bounce_len h))"
    using r(4) assms len(2) by (simp add: window_of_Some)
  show ?l
    using d(1,2) w len(1) r(3,5) unfolding d(4,5)
    by (auto simp: wire_read_pdu_def read_exact_def PDU_HDR_LEN_def CALL_FRAME_LEN_def add.commute)
qed

lemma write_pdu_encode:
  assumes "wf_frame f" and "unat (cookie f) + unat n \<le> length bounce" and "length bounce \<le> USIZE_MAX"
    and "80 + unat n \<le> st_room st"
  shows "write_pdu st kind sq f bounce n =
    (Ok (), st\<lparr>st_out := st_out st @ encode_pdu (pdu_of kind sq n) f (take (unat n) (drop (unat (cookie f)) bounce)),
             st_room := st_room st - (80 + unat n)\<rparr>)"
proof -
  have "window_of bounce f n = Some (unat (cookie f), unat n)"
    using assms by (simp add: window_of_Some)
  moreover have "length (CallFrame_encode f) = 64" using assms(1) by (simp flip: encode_frame_eq)
  moreover have "PduHeader_yielding kind sq n = pdu_of kind sq n"
    by (simp add: PduHeader_yielding_def pdu_of_def CALL_FRAME_LEN_def)
  moreover have "64 \<le> st_room st - 16" "unat n \<le> st_room st - 16 - 64" "16 \<le> st_room st" using assms(4) by simp_all
  ultimately show ?thesis using assms(2)
    by (simp add: write_pdu_def Let_def write_all_def encode_pdu_def hv_encode_eq encode_frame_eq)
qed

text \<open>C33. The host library and the virtual HAL implement the same wire format although each has codecs of
  its own. On every byte stream, the client's \<open>read_pdu\<close> delivers a header and a frame exactly when the
  HAL's \<open>take_pdu\<close> does on the same bytes and the data fits into the client's pool at the cookie; it then
  consumes the same bytes and stores the same data. What the client's \<open>write_pdu\<close> sends is the HAL's
  \<open>encode_pdu\<close> of the window.\<close>

theorem wire_codecs_agree:
  assumes "length bounce \<le> USIZE_MAX" and "vc_rx c = st_in st"
  shows "(wire_read_pdu st bounce = (Ok (h, f), st', bounce') \<longleftrightarrow>
      (\<exists>b c'. take_pdu c = (Ok (h, f, b), c') \<and> st' = st\<lparr>st_in := vc_rx c'\<rparr> \<and>
         unat (cookie_a1a2 f) + length b \<le> length bounce \<and>
         bounce' = take (unat (cookie_a1a2 f)) bounce @ b @ drop (unat (cookie_a1a2 f) + length b) bounce)) \<and>
    (wf_frame f \<and> unat (cookie f) + unat n \<le> length bounce \<and> 80 + unat n \<le> st_room st \<longrightarrow>
      write_pdu st kind sq f bounce n =
        (Ok (), st\<lparr>st_out := st_out st @ encode_pdu (pdu_of kind sq n) f
                                        (take (unat n) (drop (unat (cookie f)) bounce)),
                 st_room := st_room st - (80 + unat n)\<rparr>))"
  unfolding wire_read_pdu_iff [OF assms(1)] take_pdu_iff cookie_a1a2_eq assms(2)
  using write_pdu_encode [OF _ _ assms(1)] by auto

theorem wire_codecs_agree_witness:
  "\<exists>st' bounce'. wire_read_pdu \<lparr>st_in = encode_pdu demo_pdu CallFrame_default [5, 6] @ [7], st_out = [], st_room = 100\<rparr>
      [1, 2, 3] = (Ok (demo_pdu, CallFrame_default), st', bounce') \<and> bounce' = [5, 6, 3] \<and> st_in st' = [7] \<and>
    fst (write_pdu \<lparr>st_in = [], st_out = [], st_room = 100\<rparr> KIND_COMPLETE 1 CallFrame_default [1, 2, 3] 2) = Ok ()"
proof -
  let ?st = "\<lparr>st_in = encode_pdu demo_pdu CallFrame_default [5, 6] @ [7], st_out = [], st_room = 100\<rparr>"
  let ?c = "demo_conn\<lparr>vc_rx := st_in ?st\<rparr>"
  have "take_pdu ?c = (Ok (demo_pdu, CallFrame_default, [5, 6]), ?c\<lparr>vc_rx := [7]\<rparr>)"
    by (rule take_pdu_whole) (simp_all add: wf_pdu_def demo_pdu_def valid_kind_def proto_kind_defs)
  then have "wire_read_pdu ?st [1, 2, 3] = (Ok (demo_pdu, CallFrame_default), ?st\<lparr>st_in := [7]\<rparr>, [5, 6, 3])"
    using wire_codecs_agree [of "[1, 2, 3]" ?c ?st demo_pdu CallFrame_default "?st\<lparr>st_in := [7]\<rparr>" "[5, 6, 3]"]
    by (simp add: USIZE_MAX_def cookie_a1a2_eq cookie_def CallFrame_default_def)
  moreover have "fst (write_pdu \<lparr>st_in = [], st_out = [], st_room = 100\<rparr> KIND_COMPLETE 1 CallFrame_default [1, 2, 3] 2) = Ok ()"
    using wire_codecs_agree [of "[1, 2, 3]" "demo_conn\<lparr>vc_rx := []\<rparr>" "\<lparr>st_in = [], st_out = [], st_room = 100\<rparr>"
        demo_pdu CallFrame_default _ _ 2]
    by (simp add: USIZE_MAX_def cookie_def CallFrame_default_def wf_frame_def)
  ultimately show ?thesis by simp
qed

section \<open>One round of the client's loop\<close>

declare enter_loop.simps [simp del]

lemma enter_loop_complete:
  assumes "wf_pdu h f b" and "st_in (tr_sock t) = encode_pdu h f b @ rst" and "pdu_kind h = KIND_COMPLETE"
    and "unat (cookie f) + length b \<le> length bounce" and "length bounce \<le> USIZE_MAX"
  shows "enter_loop t bounce =
    (Ok f, t\<lparr>tr_sock := (tr_sock t)\<lparr>st_in := rst\<rparr>, tr_yielding := False\<rparr>,
     take (unat (cookie f)) bounce @ b @ drop (unat (cookie f) + length b) bounce)"
proof -
  have "wire_read_pdu (tr_sock t) bounce = (Ok (h, f), (tr_sock t)\<lparr>st_in := rst\<rparr>,
      take (unat (cookie f)) bounce @ b @ drop (unat (cookie f) + length b) bounce)"
    using assms by (auto simp: wire_read_pdu_iff)
  with assms(3) show ?thesis by (subst enter_loop.simps) simp
qed

lemma return_from_rpc_frame [simp]: "wf_frame (return_from_rpc ck)" "cookie (return_from_rpc ck) = ck"
proof -
  have "wf_frame (CallFrame_default\<lparr>cf_r := (cf_r CallFrame_default)[0 := ucast SMC_RETURN_FROM_RPC]\<rparr>)"
    by (simp add: wf_frame_def CallFrame_default_def)
  then show "wf_frame (return_from_rpc ck)" "cookie (return_from_rpc ck) = ck"
    by (simp_all add: return_from_rpc_def Let_def cookie_set_cookie)
qed

lemma enter_loop_rpc:
  assumes "wf_pdu h f b" and "st_in (tr_sock t) = encode_pdu h f b @ rst" and "pdu_kind h = KIND_RPC"
    and "unat (cookie f) + length b \<le> length bounce" and "length bounce \<le> USIZE_MAX"
    and "call_hook (t\<lparr>tr_sock := (tr_sock t)\<lparr>st_in := rst\<rparr>\<rparr>)
           (take (unat (cookie f)) bounce @ b @ drop (unat (cookie f) + length b) bounce) (cookie f) (pdu_bounce_len h) =
         (Ok n, t2, bounce2)"
    and "length bounce2 = length bounce" and "unat (cookie f) + unat n \<le> length bounce2"
    and "80 + unat n \<le> st_room (tr_sock t2)"
  shows "enter_loop t bounce =
    enter_loop (t2\<lparr>tr_sock := (tr_sock t2)\<lparr>
      st_out := st_out (tr_sock t2) @ encode_pdu (pdu_of KIND_RPC_REPLY (pdu_seq h) n)
                  (return_from_rpc (cookie f)) (take (unat n) (drop (unat (cookie f)) bounce2)),
      st_room := st_room (tr_sock t2) - (80 + unat n)\<rparr>\<rparr>) bounce2"
proof -
  have "wire_read_pdu (tr_sock t) bounce = (Ok (h, f), (tr_sock t)\<lparr>st_in := rst\<rparr>,
      take (unat (cookie f)) bounce @ b @ drop (unat (cookie f) + length b) bounce)"
    using assms(1,2,4,5) by (auto simp: wire_read_pdu_iff)
  moreover have "KIND_RPC \<noteq> KIND_COMPLETE" by (simp add: proto_kind_defs)
  ultimately show ?thesis
    using assms(3,5-) write_pdu_encode [of "return_from_rpc (cookie f)" n bounce2 "tr_sock t2"]
    by (subst enter_loop.simps) simp
qed

end
