(* ===== verification/Supplicant.thy ===== *)
theory Supplicant
  imports Guest_Cmd
begin

text \<open>
  The host daemon that answers the remote calls of the kernel,
  \<open>host/rustee-supplicant/src/lib.rs\<close>. The operating system under \<open>std::fs\<close> is a parameter: a
  record of the calls the daemon makes, over a state \<open>'w\<close> of the file system, open files \<open>'f\<close> and
  open directories \<open>'d\<close>. Names and paths are byte strings, and joining paths follows
  \<open>PathBuf::push\<close>. The \<open>HashMap\<close>s of open files are maps.
\<close>

section \<open>The operating system\<close>

text \<open>
  \<open>os_open w p c\<close> opens for reading and writing, and creates when \<open>c\<close>; \<open>os_create_parents\<close> is
  \<open>create_dir_all\<close> of the parent of the path; \<open>os_read_at w f off n\<close> is \<open>seek\<close> followed by \<open>read\<close> into
  a buffer of \<open>n\<close> bytes and \<open>os_write_at\<close> is \<open>seek\<close> followed by \<open>write_all\<close>. \<open>None\<close> and \<open>False\<close> are
  an I/O error; for \<open>os_next_entry\<close>, \<open>None\<close> is also the end of the directory.
\<close>

record ('w, 'f, 'd) os_ops =
  os_now :: "'w \<Rightarrow> u32 \<times> u32"
  os_read_file :: "'w \<Rightarrow> bytes \<Rightarrow> bytes option"
  os_create_parents :: "'w \<Rightarrow> bytes \<Rightarrow> bool \<times> 'w"
  os_open :: "'w \<Rightarrow> bytes \<Rightarrow> bool \<Rightarrow> 'f option \<times> 'w"
  os_read_at :: "'w \<Rightarrow> 'f \<Rightarrow> u64 \<Rightarrow> usize \<Rightarrow> bytes option \<times> 'f \<times> 'w"
  os_write_at :: "'w \<Rightarrow> 'f \<Rightarrow> u64 \<Rightarrow> bytes \<Rightarrow> bool \<times> 'f \<times> 'w"
  os_set_len :: "'w \<Rightarrow> 'f \<Rightarrow> u64 \<Rightarrow> bool \<times> 'w"
  os_remove_file :: "'w \<Rightarrow> bytes \<Rightarrow> 'w"
  os_read_dir :: "'w \<Rightarrow> bytes \<Rightarrow> 'd option"
  os_next_entry :: "'w \<Rightarrow> 'd \<Rightarrow> bytes option \<times> 'd"

section \<open>Names\<close>

definition path_join :: "bytes \<Rightarrow> bytes \<Rightarrow> bytes" where
  "path_join r n =
     (if n \<noteq> [] \<and> hd n = 0x2F then n
      else if r = [] \<or> last r = 0x2F then r @ n
      else r @ [0x2F] @ n)"

fun contains_dotdot :: "bytes \<Rightarrow> bool" where
  "contains_dotdot (a # b # bs) = (a = 0x2E \<and> b = 0x2E \<or> contains_dotdot (b # bs))"
| "contains_dotdot bs = False"

text \<open>
  \<open>String::from_utf8_lossy\<close>: \<open>utf8_chunk\<close> is the number of bytes of the next chunk and whether it is a
  well-formed character; an ill-formed chunk (a maximal prefix of a character) becomes U+FFFD.
\<close>

definition nth_ok :: "(u8 \<Rightarrow> bool) \<Rightarrow> bytes \<Rightarrow> nat \<Rightarrow> bool" where
  "nth_ok P bs i \<longleftrightarrow> i < length bs \<and> P (bs ! i)"

definition utf8_second :: "u8 \<Rightarrow> u8 \<Rightarrow> bool" where
  "utf8_second a b =
     (if a = 0xE0 then 0xA0 \<le> b \<and> b \<le> 0xBF
      else if a = 0xED then 0x80 \<le> b \<and> b \<le> 0x9F
      else if a = 0xF0 then 0x90 \<le> b \<and> b \<le> 0xBF
      else if a = 0xF4 then 0x80 \<le> b \<and> b \<le> 0x8F
      else utf8_cont b)"

definition utf8_chunk :: "u8 \<Rightarrow> bytes \<Rightarrow> bool \<times> nat" where
  "utf8_chunk a r =
     (if a < 0x80 then (True, 1)
      else if 0xC2 \<le> a \<and> a \<le> 0xDF then
        if nth_ok utf8_cont r 0 then (True, 2) else (False, 1)
      else if 0xE0 \<le> a \<and> a \<le> 0xEF then
        if \<not> nth_ok (utf8_second a) r 0 then (False, 1)
        else if \<not> nth_ok utf8_cont r 1 then (False, 2) else (True, 3)
      else if 0xF0 \<le> a \<and> a \<le> 0xF4 then
        if \<not> nth_ok (utf8_second a) r 0 then (False, 1)
        else if \<not> nth_ok utf8_cont r 1 then (False, 2)
        else if \<not> nth_ok utf8_cont r 2 then (False, 3) else (True, 4)
      else (False, 1))"

lemma utf8_chunk_pos: "0 < snd (utf8_chunk a r)"
  by (simp add: utf8_chunk_def)

function (sequential) from_utf8_lossy :: "bytes \<Rightarrow> bytes" where
  "from_utf8_lossy [] = []"
| "from_utf8_lossy (a # r) =
     (let (ok, n) = utf8_chunk a r in
      (if ok then take n (a # r) else [0xEF, 0xBF, 0xBD]) @ from_utf8_lossy (drop n (a # r)))"
  by pat_completeness auto
termination
proof (relation "measure length")
  fix a r x ok n
  assume "x = utf8_chunk a r" "(ok, n) = x"
  then have "0 < n" using utf8_chunk_pos [of a r] by (metis snd_conv)
  then show "(drop n (a # r), a # r) \<in> measure length" by simp
qed simp

section \<open>State\<close>

datatype supp_error = Supp_BadCmd | Supp_Io | Supp_NotFound

record ('f, 'd) supplicant =
  su_root :: bytes
  su_files :: "u32 \<rightharpoonup> 'f"
  su_dirs :: "u32 \<rightharpoonup> 'd"
  su_next_fd :: u32

definition supp_new :: "bytes \<Rightarrow> ('f, 'd) supplicant" where
  "supp_new root = \<lparr>su_root = root, su_files = Map.empty, su_dirs = Map.empty, su_next_fd = 1\<rparr>"

definition hex016 :: "u64 \<Rightarrow> bytes" where
  "hex016 w = ascii (concat (map hex2 (to_be_bytes w)))"

definition ta_path :: "bytes \<Rightarrow> bytes \<Rightarrow> bytes" where
  "ta_path root uuid_hex = path_join (path_join root (ascii ''ta'')) (uuid_hex @ ascii ''.ta'')"

definition supp_load_ta ::
  "('w, 'f, 'd) os_ops \<Rightarrow> ('f, 'd) supplicant \<Rightarrow> 'w \<Rightarrow> bytes \<Rightarrow> (bytes, supp_error) res" where
  "supp_load_ta os s w uuid_hex = ok_or (os_read_file os w (ta_path (su_root s) uuid_hex)) Supp_NotFound"

text \<open>\<open>next_fd += 1\<close> panics at the last identifier.\<close>

definition supp_fd :: "('f, 'd) supplicant \<Rightarrow> (u32 \<times> ('f, 'd) supplicant, supp_error) res" where
  "supp_fd s = (if su_next_fd s = - 1 then Panic else Ok (su_next_fd s, s\<lparr>su_next_fd := su_next_fd s + 1\<rparr>))"

definition safe_path :: "bytes \<Rightarrow> bytes \<Rightarrow> (bytes, supp_error) res" where
  "safe_path root name =
     (if contains_dotdot name \<or> name \<noteq> [] \<and> hd name = 0x2F then Err Supp_BadCmd
      else Ok (path_join root name))"

section \<open>File operations\<close>

text \<open>The branches of \<open>fs\<close>; each returns its result, the daemon and the operating system.\<close>

type_synonym ('w, 'f, 'd) fs_result =
  "(u32 \<times> bytes, supp_error) res \<times> ('f, 'd) supplicant \<times> 'w"

definition fs_open ::
  "('w, 'f, 'd) os_ops \<Rightarrow> ('f, 'd) supplicant \<Rightarrow> 'w \<Rightarrow> bool \<Rightarrow> bytes \<Rightarrow> ('w, 'f, 'd) fs_result" where
  "fs_open os s w create name =
     (case safe_path (su_root s) name of
        Err e \<Rightarrow> (Err e, s, w)
      | Panic \<Rightarrow> (Panic, s, w)
      | Ok p \<Rightarrow>
          (case (if create then os_create_parents os w p else (True, w)) of
             (False, w) \<Rightarrow> (Err Supp_Io, s, w)
           | (True, w) \<Rightarrow>
               (case os_open os w p create of
                  (None, w) \<Rightarrow> (Err Supp_Io, s, w)
                | (Some f, w) \<Rightarrow>
                    (case supp_fd s of
                       Err e \<Rightarrow> (Err e, s, w)
                     | Panic \<Rightarrow> (Panic, s, w)
                     | Ok (fd, s) \<Rightarrow> (Ok (fd, []), s\<lparr>su_files := (su_files s)(fd \<mapsto> f)\<rparr>, w)))))"

definition fs_read ::
  "('w, 'f, 'd) os_ops \<Rightarrow> ('f, 'd) supplicant \<Rightarrow> 'w \<Rightarrow> u32 \<Rightarrow> u32 \<Rightarrow> bytes \<Rightarrow> ('w, 'f, 'd) fs_result" where
  "fs_read os s w fd off data =
     (case su_files s fd of
        None \<Rightarrow> (Err Supp_NotFound, s, w)
      | Some f \<Rightarrow>
          let (r, f, w) = os_read_at os w f (ucast off) (max (length data) 1);
              s = s\<lparr>su_files := (su_files s)(fd \<mapsto> f)\<rparr> in
          (case r of
             None \<Rightarrow> (Err Supp_Io, s, w)
           | Some buf \<Rightarrow> (Ok (word_of_nat (length buf), buf), s, w)))"

definition fs_write ::
  "('w, 'f, 'd) os_ops \<Rightarrow> ('f, 'd) supplicant \<Rightarrow> 'w \<Rightarrow> u32 \<Rightarrow> u32 \<Rightarrow> bytes \<Rightarrow> ('w, 'f, 'd) fs_result" where
  "fs_write os s w fd off data =
     (case su_files s fd of
        None \<Rightarrow> (Err Supp_NotFound, s, w)
      | Some f \<Rightarrow>
          let (ok, f, w) = os_write_at os w f (ucast off) data;
              s = s\<lparr>su_files := (su_files s)(fd \<mapsto> f)\<rparr> in
          if ok then (Ok (word_of_nat (length data), []), s, w) else (Err Supp_Io, s, w))"

definition fs_truncate ::
  "('w, 'f, 'd) os_ops \<Rightarrow> ('f, 'd) supplicant \<Rightarrow> 'w \<Rightarrow> u32 \<Rightarrow> u32 \<Rightarrow> ('w, 'f, 'd) fs_result" where
  "fs_truncate os s w fd off =
     (case su_files s fd of
        None \<Rightarrow> (Err Supp_NotFound, s, w)
      | Some f \<Rightarrow>
          let (ok, w) = os_set_len os w f (ucast off) in
          if ok then (Ok (0, []), s, w) else (Err Supp_Io, s, w))"

definition fs_remove ::
  "('w, 'f, 'd) os_ops \<Rightarrow> ('f, 'd) supplicant \<Rightarrow> 'w \<Rightarrow> bytes \<Rightarrow> ('w, 'f, 'd) fs_result" where
  "fs_remove os s w name =
     (case safe_path (su_root s) name of
        Err e \<Rightarrow> (Err e, s, w)
      | Panic \<Rightarrow> (Panic, s, w)
      | Ok p \<Rightarrow> (Ok (0, []), s, os_remove_file os w p))"

definition fs_opendir ::
  "('w, 'f, 'd) os_ops \<Rightarrow> ('f, 'd) supplicant \<Rightarrow> 'w \<Rightarrow> bytes \<Rightarrow> ('w, 'f, 'd) fs_result" where
  "fs_opendir os s w name =
     (case safe_path (su_root s) name of
        Err e \<Rightarrow> (Err e, s, w)
      | Panic \<Rightarrow> (Panic, s, w)
      | Ok p \<Rightarrow>
          (case os_read_dir os w p of
             None \<Rightarrow> (Err Supp_Io, s, w)
           | Some d \<Rightarrow>
               (case supp_fd s of
                  Err e \<Rightarrow> (Err e, s, w)
                | Panic \<Rightarrow> (Panic, s, w)
                | Ok (fd, s) \<Rightarrow> (Ok (fd, []), s\<lparr>su_dirs := (su_dirs s)(fd \<mapsto> d)\<rparr>, w))))"

definition fs_readdir ::
  "('w, 'f, 'd) os_ops \<Rightarrow> ('f, 'd) supplicant \<Rightarrow> 'w \<Rightarrow> u32 \<Rightarrow> ('w, 'f, 'd) fs_result" where
  "fs_readdir os s w fd =
     (case su_dirs s fd of
        None \<Rightarrow> (Err Supp_NotFound, s, w)
      | Some d \<Rightarrow>
          let (e, d) = os_next_entry os w d;
              s = s\<lparr>su_dirs := (su_dirs s)(fd \<mapsto> d)\<rparr> in
          (Ok (0, case e of Some name \<Rightarrow> from_utf8_lossy name | None \<Rightarrow> []), s, w))"

definition supp_fs ::
  "('w, 'f, 'd) os_ops \<Rightarrow> ('f, 'd) supplicant \<Rightarrow> 'w \<Rightarrow> u32 \<Rightarrow> bytes \<Rightarrow> u32 \<Rightarrow> u32 \<Rightarrow> bytes \<Rightarrow>
   ('w, 'f, 'd) fs_result" where
  "supp_fs os s w op name fd off data =
     (if op = RPC_FS_OPEN \<or> op = RPC_FS_CREATE then fs_open os s w (op = RPC_FS_CREATE) name
      else if op = RPC_FS_CLOSE then (Ok (0, []), s\<lparr>su_files := (su_files s)(fd := None)\<rparr>, w)
      else if op = RPC_FS_READ then fs_read os s w fd off data
      else if op = RPC_FS_WRITE then fs_write os s w fd off data
      else if op = RPC_FS_TRUNCATE then fs_truncate os s w fd off
      else if op = RPC_FS_REMOVE then fs_remove os s w name
      else if op = RPC_FS_RENAME then (Err Supp_BadCmd, s, w)
      else if op = RPC_FS_OPENDIR then fs_opendir os s w name
      else if op = RPC_FS_CLOSEDIR then (Ok (0, []), s\<lparr>su_dirs := (su_dirs s)(fd := None)\<rparr>, w)
      else if op = RPC_FS_READDIR then fs_readdir os s w fd
      else (Err Supp_BadCmd, s, w))"

section \<open>Remote calls\<close>

definition is_tmem :: "u64 \<Rightarrow> bool" where
  "is_tmem attr \<longleftrightarrow>
     attr AND ATTR_TYPE_MASK \<in> {ATTR_TYPE_TMEM_INPUT, ATTR_TYPE_TMEM_OUTPUT, ATTR_TYPE_TMEM_INOUT}"

definition name_from_tmem :: "bytes \<Rightarrow> msg_param list \<Rightarrow> usize \<Rightarrow> (bytes, supp_error) res" where
  "name_from_tmem bounce params n =
     (if n < 2 then Ok []
      else res_bind (index params 1) (\<lambda>p.
        if \<not> is_tmem (mp_attr p) then Ok []
        else let off = unat (mp_a p); sz = unat (mp_b p) in
          case checked_add off sz of
            None \<Rightarrow> Ok []
          | Some e \<Rightarrow>
              if e > length bounce then Ok []
              else res_bind (slice_range bounce off e) (\<lambda>bytes.
                Ok (from_utf8_lossy
                  (take (case position_zero bytes of Some i \<Rightarrow> i | None \<Rightarrow> length bytes) bytes)))))"

text \<open>The \<open>LOAD_TA\<close> branch, from the bytes of the image on; returns the window and the pool.\<close>

definition put_ta ::
  "bytes \<Rightarrow> u64 \<Rightarrow> msg_arg_hdr \<Rightarrow> msg_param list \<Rightarrow> usize \<Rightarrow> bytes \<Rightarrow> (u32, supp_error) res \<times> bytes" where
  "put_ta bounce ck hdr params msg_sz bytes =
     (let n = unat (msg_num_params hdr);
          after = (unat ck + msg_sz + 7) div 8 * 8;
          tmem = (n \<ge> 2 \<and> is_tmem (mp_attr (params ! 1)) \<and> unat (mp_a (params ! 1)) \<ge> after) in
      if tmem \<and> unat (mp_b (params ! 1)) < length bytes then (Err Supp_Io, bounce)
      else
        let dest = (if tmem then unat (mp_a (params ! 1)) else after) in
        case checked_add dest (length bytes) of
          None \<Rightarrow> (Err Supp_Io, bounce)
        | Some e \<Rightarrow>
            if e > length bounce then (Err Supp_Io, bounce)
            else
              (case (put_range bounce dest bytes :: (bytes, supp_error) res) of
                 Ok bounce \<Rightarrow>
                   let out_n = max n 2;
                       params = params[1 := MsgParam_tmem ATTR_TYPE_TMEM_OUTPUT (word_of_nat dest)
                                              (word_of_nat (length bytes)) (word_of_nat dest)];
                       hdr = hdr\<lparr>msg_num_params := word_of_nat out_n, msg_ret := 0\<rparr> in
                   (case write_msg bounce ck hdr (take out_n params) of
                      Ok (_, bounce) \<Rightarrow> (Ok (word_of_nat (e - unat ck)), bounce)
                    | Err _ \<Rightarrow> (Err Supp_Io, bounce)
                    | Panic \<Rightarrow> (Panic, bounce))
               | _ \<Rightarrow> (Panic, bounce)))"

definition put_reply ::
  "bytes \<Rightarrow> u64 \<Rightarrow> msg_arg_hdr \<Rightarrow> msg_param list \<Rightarrow> usize \<Rightarrow> (u32, supp_error) res \<times> bytes" where
  "put_reply bounce ck hdr params msg_sz =
     (case write_msg bounce ck hdr (take (unat (msg_num_params hdr)) params) of
        Ok (_, bounce) \<Rightarrow> (Ok (word_of_nat msg_sz), bounce)
      | Err _ \<Rightarrow> (Err Supp_Io, bounce)
      | Panic \<Rightarrow> (Panic, bounce))"

text \<open>\<open>handle_msg\<close>; every branch returns the result, the daemon, the operating system and the pool.\<close>

definition handle_msg ::
  "('w, 'f, 'd) os_ops \<Rightarrow> ('f, 'd) supplicant \<Rightarrow> 'w \<Rightarrow> bytes \<Rightarrow> u64 \<Rightarrow>
   (u32, supp_error) res \<times> ('f, 'd) supplicant \<times> 'w \<times> bytes" where
  "handle_msg os s w bounce ck =
     (case decode_msg bounce ck of
        Err _ \<Rightarrow> (Err Supp_BadCmd, s, w, bounce)
      | Panic \<Rightarrow> (Panic, s, w, bounce)
      | Ok (hdr, params, msg_sz) \<Rightarrow>
          let n = unat (msg_num_params hdr) in
          if msg_cmd hdr = RPC_CMD_GET_TIME then
            if n < 1 then (Err Supp_BadCmd, s, w, bounce)
            else
              let (sec, ns) = os_now os w;
                  (r, bounce) = put_reply bounce ck hdr
                    (params[0 := (params ! 0)\<lparr>mp_a := ucast sec, mp_b := ucast ns\<rparr>]) msg_sz in
              (r, s, w, bounce)
          else if msg_cmd hdr = RPC_CMD_LOAD_TA then
            if n < 1 then (Err Supp_BadCmd, s, w, bounce)
            else
              (case supp_load_ta os s w (hex016 (mp_a (params ! 0)) @ hex016 (mp_b (params ! 0))) of
                 Err e \<Rightarrow> (Err e, s, w, bounce)
               | Panic \<Rightarrow> (Panic, s, w, bounce)
               | Ok bytes \<Rightarrow> let (r, bounce) = put_ta bounce ck hdr params msg_sz bytes in (r, s, w, bounce))
          else if msg_cmd hdr = RPC_CMD_FS then
            if n < 1 then (Err Supp_BadCmd, s, w, bounce)
            else
              let op = ucast (mp_a (params ! 0)) in
              (case name_from_tmem bounce params n of
                 Err e \<Rightarrow> (Err e, s, w, bounce)
               | Panic \<Rightarrow> (Panic, s, w, bounce)
               | Ok name \<Rightarrow>
                   (case supp_fs os s w op name (ucast (mp_b (params ! 0))) (ucast (mp_c (params ! 0))) [] of
                      (Err e, s, w) \<Rightarrow> (Err e, s, w, bounce)
                    | (Panic, s, w) \<Rightarrow> (Panic, s, w, bounce)
                    | (Ok (out_fd, _), s, w) \<Rightarrow>
                        let params = (if op = RPC_FS_CREATE \<or> op = RPC_FS_OPEN
                                      then params[0 := (params ! 0)\<lparr>mp_b := ucast out_fd\<rparr>] else params);
                            (r, bounce) = put_reply bounce ck hdr params msg_sz in
                        (r, s, w, bounce)))
          else (Err Supp_BadCmd, s, w, bounce))"

definition rpc_cmd :: "u32 \<Rightarrow> (unit, supp_error) res" where
  "rpc_cmd c = (if c \<in> {RPC_CMD_LOAD_TA, RPC_CMD_GET_TIME, RPC_CMD_FS} then Ok () else Err Supp_BadCmd)"

text \<open>The process-wide hook; \<open>None\<close> when no daemon was installed. A poisoned lock is not modelled: it
  needs an earlier panic.\<close>

definition rpc_hook ::
  "('w, 'f, 'd) os_ops \<Rightarrow> ('f, 'd) supplicant option \<Rightarrow> 'w \<Rightarrow> bytes \<Rightarrow> u64 \<Rightarrow>
   (u32, u32) res \<times> ('f, 'd) supplicant option \<times> 'w \<times> bytes" where
  "rpc_hook os g w bounce ck =
     (case g of
        None \<Rightarrow> (Err 0xFFFF000E, g, w, bounce)
      | Some s \<Rightarrow>
          let (r, s, w, bounce) = handle_msg os s w bounce ck in
          (map_err (\<lambda>_. 0xFFFF000E) r, Some s, w, bounce))"

end
