(* ===== verification/Load_Path.thy ===== *)
theory Load_Path
  imports Client_Wire Supplicant
begin

text \<open>
  Loading an application across the components: the kernel's request, packed by the guest, answered by
  the daemon through the hook of the client library, and the image taken from the reply.
\<close>

section \<open>The name of the image\<close>

lemma le_bytes_append: "le_bytes (a + b) n = le_bytes a n @ le_bytes b (n div 256 ^ a)"
  by (induction a arbitrary: n) (simp_all add: div_mult2_eq)

lemma le_bytes_mod: "256 ^ k dvd m \<Longrightarrow> le_bytes k (n mod m) = le_bytes k n"
proof (induction k arbitrary: n m)
  case (Suc k)
  obtain q where m: "m = 256 * q" "256 ^ k dvd q"
    using Suc.prems by (auto elim!: dvdE simp: mult.assoc)
  have "(256 :: nat) dvd m" using m by simp
  then have "word_of_nat (n mod m) = (word_of_nat n :: u8)"
    by (simp add: word_of_nat_eq_iff take_bit_eq_mod mod_mod_cancel)
  moreover have "n mod m div 256 = n div 256 mod q"
    by (simp add: m(1) mod_mult2_eq)
  ultimately show ?case using Suc.IH [OF m(2)] by simp
qed simp

lemma to_be_words:
  "to_be_bytes (hi :: u64) =
     to_be_bytes (ucast (drop_bit 32 hi) :: u32) @ to_be_bytes (ucast (drop_bit 16 hi) :: u16) @
     to_be_bytes (ucast hi :: u16)"
proof -
  have "le_bytes 8 (unat hi) = le_bytes 2 (unat hi) @ le_bytes 2 (unat hi div 2 ^ 16) @ le_bytes 4 (unat hi div 2 ^ 32)"
    using le_bytes_append [of 2 6 "unat hi"] le_bytes_append [of 2 4 "unat hi div 2 ^ 16"]
    by (simp add: div_mult2_eq [symmetric] del: le_bytes_numeral)
  moreover have "le_bytes 4 (unat (ucast (drop_bit 32 hi) :: u32)) = le_bytes 4 (unat hi div 2 ^ 32)"
    "le_bytes 2 (unat (ucast (drop_bit 16 hi) :: u16)) = le_bytes 2 (unat hi div 2 ^ 16)"
    "le_bytes 2 (unat (ucast hi :: u16)) = le_bytes 2 (unat hi)"
    using le_bytes_mod [of 4 "2 ^ 32"] le_bytes_mod [of 2 "2 ^ 16"]
    by (simp_all add: unsigned_ucast_eq unat_drop_bit_eq take_bit_eq_mod drop_bit_eq_div unat_div
        del: le_bytes_numeral)
  ultimately show ?thesis by (simp add: to_be_bytes_def to_le_bytes_def del: le_bytes_numeral)
qed

definition uuid_hex :: "uuid \<Rightarrow> bytes" where
  "uuid_hex u = ascii (concat (map hex2 u))"

lemma hex_of_words:
  assumes "length u = 16" and "uuid_to_words u = (hi, lo)"
  shows "hex016 hi @ hex016 lo = uuid_hex u"
proof -
  have "to_be_bytes hi @ to_be_bytes lo = uuid_from_words hi lo"
    using to_be_words [of hi] by (simp add: uuid_from_words_def Let_def)
  also have "\<dots> = u" using assms by (rule uuid_from_to_words)
  finally have "concat (map hex2 (to_be_bytes hi)) @ concat (map hex2 (to_be_bytes lo)) = concat (map hex2 u)"
    by (simp flip: concat_append map_append)
  then show ?thesis unfolding hex016_def uuid_hex_def ascii_def by (simp flip: map_append)
qed

section \<open>The request and the reply\<close>

definition load_hdr :: msg_arg_hdr where
  "load_hdr = MsgArgHdr_default\<lparr>msg_cmd := RPC_CMD_LOAD_TA, msg_num_params := 2\<rparr>"

definition name_param :: "uuid \<Rightarrow> msg_param" where
  "name_param u = MsgParam_value ATTR_TYPE_VALUE_INPUT (fst (uuid_to_words u)) (snd (uuid_to_words u)) 0"

definition load_dest :: u64 where "load_dest = RPC_COOKIE + 96"

definition load_req :: "uuid \<Rightarrow> msg_param list" where
  "load_req u = [name_param u, MsgParam_tmem ATTR_TYPE_TMEM_OUTPUT load_dest LOAD_TA_CAP 0]"

definition load_reply :: "uuid \<Rightarrow> bytes \<Rightarrow> msg_param list" where
  "load_reply u img =
     [name_param u, MsgParam_tmem ATTR_TYPE_TMEM_OUTPUT load_dest (word_of_nat (length img)) load_dest]"

lemma load_sizes:
  "unat RPC_COOKIE mod 8 = 0" "unat load_dest = unat RPC_COOKIE + 96" "unat LOAD_TA_CAP = 2097152"
  "unat RPC_COOKIE + 96 + 2097152 \<le> BOUNCE_POOL_SIZE" "BOUNCE_POOL_SIZE \<le> ISIZE_MAX" "ISIZE_MAX \<le> USIZE_MAX"
  by (simp_all add: RPC_COOKIE_def load_dest_def LOAD_TA_CAP_def BOUNCE_POOL_SIZE_def ISIZE_MAX_def USIZE_MAX_def)

lemma length_load [simp]: "length (load_req u) = 2" "length (load_reply u img) = 2"
  by (simp_all add: load_req_def load_reply_def)

lemma load_hdr_simps [simp]:
  "msg_cmd load_hdr = RPC_CMD_LOAD_TA" "msg_num_params load_hdr = 2" "msg_ret load_hdr = 0" "byte_size load_hdr = 96"
  "byte_size (load_hdr\<lparr>msg_ret := e\<rparr>) = 96"
  by (simp_all add: load_hdr_def MsgArgHdr_default_def byte_size_eq)

lemma load_hdr_same [simp]: "load_hdr\<lparr>msg_num_params := 2, msg_ret := 0\<rparr> = load_hdr"
  by (simp add: load_hdr_def MsgArgHdr_default_def)

lemma pack_load_ta_eq:
  assumes "length pool = BOUNCE_POOL_SIZE"
  shows "pack_load_ta pool u = Ok ((RPC_COOKIE, 96),
    take (unat RPC_COOKIE) pool @ msg_bytes load_hdr (load_req u) @ drop (unat RPC_COOKIE + 96) pool)"
proof -
  have "RPC_COOKIE + word_of_nat (MSG_ARG_HDR_SIZE + 2 * MSG_PARAM_SIZE) = load_dest"
    by (simp add: load_dest_def MSG_ARG_HDR_SIZE_def MSG_PARAM_SIZE_def)
  moreover have "load_dest mod 8 = 0" "\<not> load_dest < RPC_COOKIE"
    by (simp_all add: load_dest_def RPC_COOKIE_def)
  moreover have "write_msg pool RPC_COOKIE load_hdr (load_req u) =
      Ok (96, take (unat RPC_COOKIE) pool @ msg_bytes load_hdr (load_req u) @ drop (unat RPC_COOKIE + 96) pool)"
    using write_msg_eq [of RPC_COOKIE "load_req u" load_hdr pool] assms load_sizes by simp
  ultimately show ?thesis
    unfolding pack_load_ta_def load_hdr_def [symmetric]
    by (cases "uuid_to_words u") (simp add: load_req_def name_param_def)
qed

lemma is_tmem_output [simp]: "is_tmem ATTR_TYPE_TMEM_OUTPUT"
  by (simp add: is_tmem_def attr_defs)

text \<open>The daemon's reply, in a pool that has the request at the cookie.\<close>

lemma put_ta_reply:
  assumes "length pre = unat RPC_COOKIE" and "96 \<le> length post" and "length img \<le> length post - 96"
    and "length pre + length post \<le> ISIZE_MAX" and "length img \<le> 2097152"
  shows "put_ta (pre @ post) RPC_COOKIE load_hdr (pad_params (load_req u)) 96 img =
    (Ok (word_of_nat (96 + length img)),
     pre @ msg_bytes load_hdr (load_reply u img) @ img @ drop (96 + length img) post)"
proof -
  let ?c = "unat RPC_COOKIE"
  let ?b = "pre @ take 96 post @ img @ drop (96 + length img) post"
  have after: "(?c + 96 + 7) div 8 * 8 = ?c + 96"
    using load_sizes(1) by presburger
  have p1: "pad_params (load_req u) ! Suc 0 = MsgParam_tmem ATTR_TYPE_TMEM_OUTPUT load_dest LOAD_TA_CAP 0"
    "take 2 ((pad_params (load_req u))[Suc 0 := q]) = [name_param u, q]" for q
    by (simp_all add: pad_params_def load_req_def)
  have put: "put_range (pre @ post) (?c + 96) img = (Ok ?b :: (bytes, supp_error) res)"
    using assms by (simp add: put_range_def ac_simps)
  have ck: "checked_add (?c + 96) (length img) = Some (?c + 96 + length img)"
    using assms load_sizes by (simp add: checked_add_def)
  have w: "write_msg ?b RPC_COOKIE load_hdr (load_reply u img) =
      Ok (96, pre @ msg_bytes load_hdr (load_reply u img) @ img @ drop (96 + length img) post)"
    using write_msg_eq [of RPC_COOKIE "load_reply u img" load_hdr ?b] assms load_sizes by simp
  have "96 + length img \<le> length post" using assms(2,3) by simp
  then show ?thesis
    using assms(1,4,5) load_sizes(2,3) w
    unfolding put_ta_def Let_def load_hdr_simps after
    by (simp add: MsgParam_tmem_def ck put p1 load_reply_def flip: load_dest_def)
qed

lemma take_load_ta_reply:
  assumes "length pre = unat RPC_COOKIE" and "length img \<le> 2097152"
    and "length (pre @ msg_bytes load_hdr (load_reply u img) @ img @ post) \<le> ISIZE_MAX"
  shows "take_load_ta (pre @ msg_bytes load_hdr (load_reply u img) @ img @ post) = Ok img"
proof -
  let ?pool = "pre @ msg_bytes load_hdr (load_reply u img) @ img @ post"
  have d: "decode_msg ?pool RPC_COOKIE = Ok (load_hdr, pad_params (load_reply u img), 96)"
    using decode_msg_bytes [of RPC_COOKIE pre "load_reply u img" load_hdr "img @ post"] assms load_sizes(1) by simp
  have i: "index (pad_params (load_reply u img)) (Suc 0) =
      Ok (MsgParam_tmem ATTR_TYPE_TMEM_OUTPUT load_dest (word_of_nat (length img)) load_dest)"
    by (simp add: index_def pad_params_def load_reply_def)
  have n: "unat (word_of_nat (length img) :: u64) = length img"
    using assms(2) by (simp add: unat_of_nat)
  have ck: "checked_add (unat RPC_COOKIE + 96) (length img) = Some (unat RPC_COOKIE + 96 + length img)"
    using assms load_sizes by (simp add: checked_add_def)
  show ?thesis
    using assms load_sizes(2) unfolding take_load_ta_def d
    by (simp add: i MsgParam_tmem_def n ck slice_range_def Let_def)
qed

lemma take_load_ta_error:
  assumes "length pre = unat RPC_COOKIE" and "e \<noteq> 0"
    and "length (pre @ msg_bytes (load_hdr\<lparr>msg_ret := e\<rparr>) (load_req u) @ post) \<le> ISIZE_MAX"
  shows "take_load_ta (pre @ msg_bytes (load_hdr\<lparr>msg_ret := e\<rparr>) (load_req u) @ post) = Err e"
  using decode_msg_bytes [of RPC_COOKIE pre "load_req u" "load_hdr\<lparr>msg_ret := e\<rparr>" post] assms load_sizes(1)
  by (simp add: take_load_ta_def)

lemma put_ta_too_big:
  "2097152 < length img \<Longrightarrow>
   put_ta bounce RPC_COOKIE load_hdr (pad_params (load_req u)) 96 img = (Err Supp_Io, bounce)"
proof -
  assume big: "2097152 < length img"
  have after: "(unat RPC_COOKIE + 96 + 7) div 8 * 8 = unat RPC_COOKIE + 96"
    using load_sizes(1) by presburger
  have p1: "pad_params (load_req u) ! Suc 0 = MsgParam_tmem ATTR_TYPE_TMEM_OUTPUT load_dest LOAD_TA_CAP 0"
    by (simp add: pad_params_def load_req_def)
  show ?thesis
    using big load_sizes(2,3) unfolding put_ta_def Let_def load_hdr_simps after
    by (simp add: p1 MsgParam_tmem_def)
qed

section \<open>The daemon behind the hook\<close>

definition supp_hook ::
  "('w, 'f, 'd) os_ops \<Rightarrow> ('f, 'd) supplicant option \<times> 'w \<Rightarrow> bytes \<Rightarrow> u64 \<Rightarrow>
   (u32, u32) res \<times> (('f, 'd) supplicant option \<times> 'w) \<times> bytes" where
  "supp_hook os gw bounce ck =
     (let (r, g, w, bounce) = rpc_hook os (fst gw) (snd gw) bounce ck in (r, (g, w), bounce))"

text \<open>What the guest gets to see of the file the daemon finds.\<close>

definition image_file :: "('w, 'f, 'd) os_ops \<Rightarrow> ('f, 'd) supplicant \<Rightarrow> 'w \<Rightarrow> uuid \<Rightarrow> (bytes, u32) res" where
  "image_file os s w u =
     (case os_read_file os w (ta_path (su_root s) (uuid_hex u)) of
        Some img \<Rightarrow> if length img \<le> 2097152 then Ok img else Err 0xFFFF000E
      | None \<Rightarrow> Err 0xFFFF000E)"

lemma handle_load:
  assumes "length u = 16" and "length pre = unat RPC_COOKIE" and "2097152 \<le> length post"
    and "length (pre @ msg_bytes load_hdr (load_req u) @ post) \<le> ISIZE_MAX"
  shows "handle_msg os s w (pre @ msg_bytes load_hdr (load_req u) @ post) RPC_COOKIE =
    (case os_read_file os w (ta_path (su_root s) (uuid_hex u)) of
       None \<Rightarrow> (Err Supp_NotFound, s, w, pre @ msg_bytes load_hdr (load_req u) @ post)
     | Some img \<Rightarrow>
         if length img \<le> 2097152
         then (Ok (word_of_nat (96 + length img)), s, w,
               pre @ msg_bytes load_hdr (load_reply u img) @ img @ drop (length img) post)
         else (Err Supp_Io, s, w, pre @ msg_bytes load_hdr (load_req u) @ post))"
proof -
  have d: "decode_msg (pre @ msg_bytes load_hdr (load_req u) @ post) RPC_COOKIE =
      Ok (load_hdr, pad_params (load_req u), 96)"
    using decode_msg_bytes [of RPC_COOKIE pre "load_req u" load_hdr post] assms(2,4) load_sizes(1) by simp
  have p0: "pad_params (load_req u) ! 0 = name_param u" by (simp add: pad_params_def load_req_def)
  have hex: "hex016 (mp_a (name_param u)) @ hex016 (mp_b (name_param u)) = uuid_hex u"
    using hex_of_words [OF assms(1), of "fst (uuid_to_words u)" "snd (uuid_to_words u)"]
    by (simp add: name_param_def MsgParam_value_def)
  have put: "put_ta (pre @ msg_bytes load_hdr (load_req u) @ post) RPC_COOKIE load_hdr (pad_params (load_req u)) 96 img =
      (if length img \<le> 2097152
       then (Ok (word_of_nat (96 + length img)),
             pre @ msg_bytes load_hdr (load_reply u img) @ img @ drop (length img) post)
       else (Err Supp_Io, pre @ msg_bytes load_hdr (load_req u) @ post))" for img
    using put_ta_reply [of pre "msg_bytes load_hdr (load_req u) @ post" img u] put_ta_too_big assms(2-4)
    by simp
  have "RPC_CMD_LOAD_TA \<noteq> RPC_CMD_GET_TIME" by (simp add: rpc_cmd_defs)
  then show ?thesis
    unfolding handle_msg_def d
    by (simp add: p0 hex supp_load_ta_def put split: option.splits)
qed

lemma hook_load:
  assumes "length u = 16" and "length pre = unat RPC_COOKIE" and "2097152 \<le> length post"
    and "length (pre @ msg_bytes load_hdr (load_req u) @ post) \<le> ISIZE_MAX"
    and "tr_on_rpc t = Some (supp_hook os)" and "tr_rpc_state t = (Some s, w)"
  obtains n bounce where
    "call_hook t (pre @ msg_bytes load_hdr (load_req u) @ post) RPC_COOKIE 96 = (Ok n, t, bounce)"
    "length bounce = length (pre @ msg_bytes load_hdr (load_req u) @ post)" "unat n \<le> 96 + 2097152"
    "\<And>pre' post'. length pre' = unat RPC_COOKIE \<Longrightarrow>
       length (pre' @ take (unat n) (drop (unat RPC_COOKIE) bounce) @ post') \<le> ISIZE_MAX \<Longrightarrow>
       take_load_ta (pre' @ take (unat n) (drop (unat RPC_COOKIE) bounce) @ post') = image_file os s w u"
proof -
  let ?pool = "pre @ msg_bytes load_hdr (load_req u) @ post"
  have hook: "supp_hook os (Some s, w) ?pool RPC_COOKIE =
      (let (r, s, w, b) = handle_msg os s w ?pool RPC_COOKIE in (map_err (\<lambda>_. 0xFFFF000E) r, (Some s, w), b))"
    by (simp add: supp_hook_def rpc_hook_def Let_def split: prod.splits)
  show ?thesis
  proof (cases "\<exists>img. image_file os s w u = Ok img")
    case True
    then obtain img where img: "os_read_file os w (ta_path (su_root s) (uuid_hex u)) = Some img"
      "length img \<le> 2097152" "image_file os s w u = Ok img"
      by (auto simp: image_file_def split: option.splits if_splits)
    have n: "unat (word_of_nat (96 + length img) :: u32) = 96 + length img"
      using img(2) unfolding unat_of_nat by simp
    have "call_hook t ?pool RPC_COOKIE 96 =
        (Ok (word_of_nat (96 + length img)), t, pre @ msg_bytes load_hdr (load_reply u img) @ img @ drop (length img) post)"
      using assms img(1,2) hook handle_load [OF assms(1-4), of os s w] n
      by (simp add: call_hook_def Let_def word_gt_0 unat_eq_0 [symmetric] flip: assms(6))
    then show ?thesis
      by (rule that)
        (use assms(2,3) img(2,3) n take_load_ta_reply [OF _ img(2)] in auto)
  next
    case False
    then have err: "image_file os s w u = Err 0xFFFF000E"
      by (auto simp: image_file_def split: option.splits if_splits)
    obtain e where h: "handle_msg os s w ?pool RPC_COOKIE = (Err e, s, w, ?pool)"
      using handle_load [OF assms(1-4), of os s w] False
      by (auto simp: image_file_def split: option.splits if_splits)
    have d: "decode_msg ?pool RPC_COOKIE = Ok (load_hdr, pad_params (load_req u), 96)"
      using decode_msg_bytes [of RPC_COOKIE pre "load_req u" load_hdr post] assms(2,4) load_sizes(1) by simp
    have "write_msg ?pool RPC_COOKIE (load_hdr\<lparr>msg_ret := 0xFFFF000E\<rparr>) (load_req u) =
        Ok (96, pre @ msg_bytes (load_hdr\<lparr>msg_ret := 0xFFFF000E\<rparr>) (load_req u) @ post)"
      using write_msg_eq [of RPC_COOKIE "load_req u" "load_hdr\<lparr>msg_ret := 0xFFFF000E\<rparr>" ?pool] assms(2,4) load_sizes
      by simp
    then have "stamp_rpc_ret ?pool RPC_COOKIE 0xFFFF000E =
        Ok (pre @ msg_bytes (load_hdr\<lparr>msg_ret := 0xFFFF000E\<rparr>) (load_req u) @ post)"
      by (simp add: stamp_rpc_ret_def d slice_range_def pad_params_def Let_def)
    then have "call_hook t ?pool RPC_COOKIE 96 =
        (Ok 96, t, pre @ msg_bytes (load_hdr\<lparr>msg_ret := 0xFFFF000E\<rparr>) (load_req u) @ post)"
      using assms(5,6) hook h by (simp add: call_hook_def Let_def flip: assms(6))
    then show ?thesis
      by (rule that) (use assms(2) take_load_ta_error err in auto)
  qed
qed

section \<open>End to end\<close>

lemma recv_rpc_reply_eq:
  assumes "hal_ok h" and "vh_conn h = Some c" and "vc_rx c = encode_pdu (pdu_of KIND_RPC_REPLY sq n) f body @ rest"
    and "wf_frame f" and "length body = unat n" and "unat (cookie f) + unat n \<le> BOUNCE_POOL_SIZE"
  obtains h' where "recv_rpc_reply h = (Ok f, h')"
    "vh_bounce_mem h' = take (unat (cookie f)) (vh_bounce_mem h) @ body @ drop (unat (cookie f) + unat n) (vh_bounce_mem h)"
proof -
  have "wf_pdu (pdu_of KIND_RPC_REPLY sq n) f body"
    using assms(4,5) by (simp add: wf_pdu_def pdu_of_def valid_kind_def)
  then have "take_pdu c = (Ok (pdu_of KIND_RPC_REPLY sq n, f, body), c\<lparr>vc_rx := rest\<rparr>)"
    using assms(3) by (rule take_pdu_whole)
  then have r: "read_stream h = (Ok (pdu_of KIND_RPC_REPLY sq n, f, body), h\<lparr>vh_conn := Some (c\<lparr>vc_rx := rest\<rparr>)\<rparr>)"
    using assms(2) by (simp add: read_stream_def read_pdu_def)
  have "BOUNCE_POOL_SIZE \<le> USIZE_MAX" by (simp add: BOUNCE_POOL_SIZE_def USIZE_MAX_def)
  then have ck: "checked_add (unat (cookie f)) (unat n) = Some (unat (cookie f) + unat n)"
    using assms(6) by (simp add: checked_add_def)
  have "length (vh_bounce_mem h) = BOUNCE_POOL_SIZE" "vh_bounce_len h = BOUNCE_POOL_SIZE"
    using assms(1) by (simp_all add: hal_ok_def)
  then obtain h' where "recv_rpc_reply h = (Ok f, h')"
    "vh_bounce_mem h' = take (unat (cookie f)) (vh_bounce_mem h) @ body @ drop (unat (cookie f) + unat n) (vh_bounce_mem h)"
    using assms(5,6)
    by (simp add: recv_rpc_reply_def r feed_pdu_def copy_bounce_in_def Let_def ck put_range_Ok cookie_a1a2_eq
        pdu_of_def CALL_FRAME_LEN_def)
  then show ?thesis by (rule that)
qed

text \<open>C34. Loading an image, from the guest's request to the bytes the guest gets. The guest packs the
  \<open>LOAD_TA\<close> request for a UUID into its pool and sends the window as an RPC PDU. When the client library
  reads that PDU in its loop with the daemon as its hook, it sends exactly one reply PDU and goes on
  reading the stream behind the request. When the guest receives the reply, \<open>take_load_ta\<close> yields exactly
  the contents of the file \<open>ta/<uuid in hex>.ta\<close> under the daemon's root directory if there is one of at
  most 2 MiB, and otherwise the error \<open>TEEC_ERROR_COMMUNICATION\<close>; never other bytes, and never no answer.\<close>

theorem load_ta_end_to_end:
  assumes "virt_reach h" and "length u = 16" and "pack_load_ta (vh_bounce_mem h) u = Ok ((ck, n), pool)"
    and "tr_on_rpc t = Some (supp_hook os)" and "tr_rpc_state t = (Some s, w)"
    and "st_in (tr_sock t) = encode_pdu (pdu_of KIND_RPC sq n) (set_cookie_a1a2 CallFrame_default ck)
           (take (unat n) (drop (unat ck) pool)) @ rst"
    and "length bounce = BOUNCE_POOL_SIZE" and "80 + 96 + 2097152 \<le> st_room (tr_sock t)"
  shows "\<exists>t' bounce' reply. enter_loop t bounce = enter_loop t' bounce' \<and>
    st_in (tr_sock t') = rst \<and> st_out (tr_sock t') = st_out (tr_sock t) @ reply \<and>
    tr_rpc_state t' = (Some s, w) \<and>
    (\<forall>c. vc_rx c = reply \<longrightarrow>
      (\<exists>f h'. recv_rpc_reply (h\<lparr>vh_bounce_mem := pool, vh_conn := Some c\<rparr>) = (Ok f, h') \<and>
         take_load_ta (vh_bounce_mem h') = image_file os s w u))"
proof -
  let ?c = "unat RPC_COOKIE"
  have h: "hal_ok h" "length (vh_bounce_mem h) = BOUNCE_POOL_SIZE"
    using virt_reach_ok [OF assms(1)] by (simp_all add: hal_ok_def)
  have p: "ck = RPC_COOKIE" "n = 96"
    "pool = take ?c (vh_bounce_mem h) @ msg_bytes load_hdr (load_req u) @ drop (?c + 96) (vh_bounce_mem h)"
    using assms(3) pack_load_ta_eq [OF h(2), of u] by auto
  have req: "take 96 (drop ?c pool) = msg_bytes load_hdr (load_req u)"
    using h(2) load_sizes(4) by (simp add: p(3))
  define fr where "fr = set_cookie_a1a2 CallFrame_default ck"
  have fr: "wf_frame fr" "cookie fr = RPC_COOKIE" by (simp_all add: fr_def set_cookie_a1a2_eq cookie_set_cookie p(1))
  let ?b1 = "take ?c bounce @ msg_bytes load_hdr (load_req u) @ drop (?c + 96) bounce"
  let ?t1 = "t\<lparr>tr_sock := (tr_sock t)\<lparr>st_in := rst\<rparr>\<rparr>"
  have len: "length ?b1 = BOUNCE_POOL_SIZE" "length (take ?c bounce) = ?c" "2097152 \<le> length (drop (?c + 96) bounce)"
    using assms(7) load_sizes(4) by simp_all
  have on: "tr_on_rpc ?t1 = Some (supp_hook os)" "tr_rpc_state ?t1 = (Some s, w)" using assms(4,5) by simp_all
  obtain m bounce2 where m: "call_hook ?t1 ?b1 RPC_COOKIE 96 = (Ok m, ?t1, bounce2)" "length bounce2 = length ?b1"
    "unat m \<le> 96 + 2097152" and m4: "\<And>pre' post'. length pre' = ?c \<Longrightarrow>
       length (pre' @ take (unat m) (drop ?c bounce2) @ post') \<le> ISIZE_MAX \<Longrightarrow>
       take_load_ta (pre' @ take (unat m) (drop ?c bounce2) @ post') = image_file os s w u"
    using hook_load [OF assms(2) len(2,3) _ on] len(1) load_sizes(5) by (metis (no_types, lifting))
  define reply where "reply = encode_pdu (pdu_of KIND_RPC_REPLY sq m) (return_from_rpc RPC_COOKIE)
    (take (unat m) (drop ?c bounce2))"
  let ?t2 = "?t1\<lparr>tr_sock := (tr_sock ?t1)\<lparr>st_out := st_out (tr_sock ?t1) @ reply,
      st_room := st_room (tr_sock ?t1) - (80 + unat m)\<rparr>\<rparr>"
  have wf: "wf_pdu (pdu_of KIND_RPC sq n) fr (msg_bytes load_hdr (load_req u))"
    using fr by (simp add: wf_pdu_def pdu_of_def valid_kind_def p(2))
  have m_fits: "?c + unat m \<le> BOUNCE_POOL_SIZE" using m(3) load_sizes(4) by simp
  have sti: "st_in (tr_sock t) = encode_pdu (pdu_of KIND_RPC sq n) fr (msg_bytes load_hdr (load_req u)) @ rst"
    using assms(6) req by (simp add: fr_def p(1,2))
  have "enter_loop t bounce = enter_loop ?t2 bounce2"
    unfolding reply_def
    using enter_loop_rpc [OF wf sti, of bounce m ?t1 bounce2] assms(7,8) m(1-3) m_fits len(1) load_sizes
    by (simp add: fr p(2) pdu_of_def)
  moreover have "\<exists>f h'. recv_rpc_reply (h\<lparr>vh_bounce_mem := pool, vh_conn := Some c\<rparr>) = (Ok f, h') \<and>
      take_load_ta (vh_bounce_mem h') = image_file os s w u" if c: "vc_rx c = reply" for c
  proof -
    let ?h = "h\<lparr>vh_bounce_mem := pool, vh_conn := Some c\<rparr>"
    have lp: "length pool = BOUNCE_POOL_SIZE" using h(2) load_sizes(4) by (simp add: p(3))
    have ok: "hal_ok ?h" using h(1) lp by (simp add: hal_ok_def)
    have body: "length (take (unat m) (drop ?c bounce2)) = unat m" using m(2) len(1) m_fits by simp
    obtain h' where h': "recv_rpc_reply ?h = (Ok (return_from_rpc RPC_COOKIE), h')"
      "vh_bounce_mem h' = take ?c pool @ take (unat m) (drop ?c bounce2) @ drop (?c + unat m) pool"
      using recv_rpc_reply_eq [OF ok _ _ return_from_rpc_frame(1) body, where c = c and sq = sq and rest = "[]"
          and ck1 = RPC_COOKIE] c m_fits
      by (auto simp: reply_def)
    moreover have "take_load_ta (vh_bounce_mem h') = image_file os s w u"
      unfolding h'(2) using lp m_fits body load_sizes(5) by (intro m4) simp_all
    ultimately show ?thesis by blast
  qed
  ultimately show ?thesis
    using assms(5) by (intro exI [of _ ?t2] exI [of _ bounce2] exI [of _ reply]) simp
qed

definition demo_os :: "(unit, unit, unit) os_ops" where
  "demo_os = \<lparr>os_now = \<lambda>_. (0, 0), os_read_file = \<lambda>_ _. Some [1, 2, 3], os_create_parents = \<lambda>w _. (True, w),
     os_open = \<lambda>w _ _. (None, w), os_read_at = \<lambda>w f _ _. (None, f, w), os_write_at = \<lambda>w f _ _. (False, f, w),
     os_set_len = \<lambda>w _ _. (False, w), os_remove_file = \<lambda>w _. w, os_read_dir = \<lambda>_ _. None,
     os_next_entry = \<lambda>_ d. (None, d)\<rparr>"

theorem load_ta_end_to_end_witness:
  "\<exists>h pool (t :: ((unit, unit) supplicant option \<times> unit) transport) t' bounce' c f h'.
     virt_reach h \<and> pack_load_ta (vh_bounce_mem h) (replicate 16 7) = Ok ((RPC_COOKIE, 96), pool) \<and>
     enter_loop t (replicate BOUNCE_POOL_SIZE 0) = enter_loop t' bounce' \<and>
     st_out (tr_sock t') = vc_rx c \<and>
     recv_rpc_reply (h\<lparr>vh_bounce_mem := pool, vh_conn := Some c\<rparr>) = (Ok f, h') \<and>
     take_load_ta (vh_bounce_mem h') = Ok [1, 2, 3]"
proof -
  obtain h where h: "virt_reach h" using demo_virt by blast
  then have "length (vh_bounce_mem h) = BOUNCE_POOL_SIZE" using virt_reach_ok by (simp add: hal_ok_def)
  from pack_load_ta_eq [OF this] obtain pool where
    p: "pack_load_ta (vh_bounce_mem h) (replicate 16 7) = Ok ((RPC_COOKIE, 96), pool)" by blast
  let ?t = "\<lparr>tr_sock = \<lparr>st_in = encode_pdu (pdu_of KIND_RPC 1 96) (set_cookie_a1a2 CallFrame_default RPC_COOKIE)
        (take (unat (96 :: u32)) (drop (unat RPC_COOKIE) pool)) @ [], st_out = [], st_room = 3000000\<rparr>,
      tr_seq = 2, tr_yielding = True, tr_on_rpc = Some (supp_hook demo_os),
      tr_rpc_state = (Some (supp_new (ascii ''root'')), ())\<rparr>"
  have img: "image_file demo_os (supp_new (ascii ''root'')) () (replicate 16 7) = Ok [1, 2, 3]"
    by (simp add: image_file_def demo_os_def)
  from load_ta_end_to_end [OF h _ p, of ?t demo_os "supp_new (ascii ''root'')" "()" 1 "[]" "replicate BOUNCE_POOL_SIZE 0"]
  obtain t' bounce' reply where r: "enter_loop ?t (replicate BOUNCE_POOL_SIZE 0) = enter_loop t' bounce'"
    "st_out (tr_sock t') = reply" and
    c: "\<And>c. vc_rx c = reply \<Longrightarrow> \<exists>f h'. recv_rpc_reply (h\<lparr>vh_bounce_mem := pool, vh_conn := Some c\<rparr>) = (Ok f, h') \<and>
         take_load_ta (vh_bounce_mem h') = Ok [1, 2, 3]"
    unfolding img by auto
  from c [of "demo_conn\<lparr>vc_rx := reply\<rparr>"] obtain f h' where
    "recv_rpc_reply (h\<lparr>vh_bounce_mem := pool, vh_conn := Some (demo_conn\<lparr>vc_rx := reply\<rparr>)\<rparr>) = (Ok f, h')"
    "take_load_ta (vh_bounce_mem h') = Ok [1, 2, 3]" by auto
  with h p r show ?thesis
    by (intro exI [of _ h] exI [of _ pool] exI [of _ ?t] exI [of _ t'] exI [of _ bounce']
        exI [of _ "demo_conn\<lparr>vc_rx := reply\<rparr>"] exI [of _ f] exI [of _ h']) simp
qed

end
