(* ===== verification/Big_Model.thy ===== *)
theory Big_Model
  imports Rust_Prelude
begin

text \<open>
  The big integers of \<open>crates/rustee-crypto/src/arith.rs\<close>: a number is a slice of 32-bit words with the
  sign flag, the number of limbs, and the limbs in little-endian order.

  A function that fills \<open>&mut [u32]\<close> takes the old contents and returns the new ones in a result; \<open>Panic\<close>
  is an index out of range or an overflow. The \<open>u64\<close> intermediates of addition and multiplication are
  natural numbers with the overflow check written out. The loop of the extended Euclidean algorithm
  need not end on arbitrary slices and is a \<open>partial_function\<close>: \<open>None\<close> is a loop that does not return.
\<close>

section \<open>Loops\<close>

text \<open>\<open>for i in 0..n\<close> and \<open>for i in (0..n).rev()\<close>.\<close>

primrec for_upto :: "(nat \<Rightarrow> 's \<Rightarrow> ('s, 'e) res) \<Rightarrow> nat \<Rightarrow> 's \<Rightarrow> ('s, 'e) res" where
  "for_upto f 0 s = Ok s"
| "for_upto f (Suc n) s = res_bind (for_upto f n s) (f n)"

primrec for_down :: "(nat \<Rightarrow> 's \<Rightarrow> ('s, 'e) res) \<Rightarrow> nat \<Rightarrow> 's \<Rightarrow> ('s, 'e) res" where
  "for_down f 0 s = Ok s"
| "for_down f (Suc n) s = res_bind (f n s) (for_down f n)"

definition set_at :: "'a list \<Rightarrow> usize \<Rightarrow> 'a \<Rightarrow> ('a list, 'e) res" where
  "set_at xs i v = (if i < length xs then Ok (xs[i := v]) else Panic)"

definition U64_MAX :: nat where "U64_MAX = 2 ^ 64 - 1"

definition u64_checked :: "nat \<Rightarrow> (nat, 'e) res" where
  "u64_checked n = (if n \<le> U64_MAX then Ok n else Panic)"

section \<open>Layout\<close>

datatype arith_error = BadSize | ShortBuffer

type_synonym big = "u32 list"
type_synonym 'a ares = "('a, arith_error) res"

definition MAX_BIGINT_BITS :: u32 where "MAX_BIGINT_BITS = 4096"
definition FLAG_NEG :: u32 where "FLAG_NEG = 1"

definition bigint_size_in_u32 :: "u32 \<Rightarrow> usize" where
  "bigint_size_in_u32 nbits = (unat nbits + 31) div 32 + 2"

definition fmm_context_size_in_u32 :: "usize \<Rightarrow> usize" where
  "fmm_context_size_in_u32 modulus_bits = bigint_size_in_u32 (word_of_nat modulus_bits) + 4"

definition fmm_size_in_u32 :: "usize \<Rightarrow> usize" where
  "fmm_size_in_u32 modulus_bits = bigint_size_in_u32 (word_of_nat modulus_bits)"

definition cap :: "big \<Rightarrow> usize ares" where
  "cap op = (if length op < 2 then Err BadSize else Ok (length op - 2))"

definition nlimbs :: "big \<Rightarrow> usize ares" where
  "nlimbs op =
     res_bind (cap op) (\<lambda>_.
     res_bind (index op 1) (\<lambda>w.
       let n = unat w in if 2 + n > length op then Err BadSize else Ok n))"

definition limbs :: "big \<Rightarrow> big ares" where
  "limbs op = res_bind (nlimbs op) (\<lambda>n. slice_range op 2 (2 + n))"

text \<open>\<open>unwrap_or(0)\<close>, \<open>unwrap_or(&[])\<close> and \<open>first().copied().unwrap_or(0)\<close>.\<close>

definition nlimbs_or_0 :: "big \<Rightarrow> usize" where
  "nlimbs_or_0 op = (case nlimbs op of Ok n \<Rightarrow> n | _ \<Rightarrow> 0)"

definition limbs_or_nil :: "big \<Rightarrow> big" where
  "limbs_or_nil op = (case limbs op of Ok ls \<Rightarrow> ls | _ \<Rightarrow> [])"

definition first_or_0 :: "big \<Rightarrow> u32" where
  "first_or_0 op = (case op of [] \<Rightarrow> 0 | w # _ \<Rightarrow> w)"

primrec trim_count :: "big \<Rightarrow> nat \<Rightarrow> usize ares" where
  "trim_count op 0 = Ok 0"
| "trim_count op (Suc n) =
     res_bind (index op (1 + Suc n)) (\<lambda>w. if w = 0 then trim_count op n else Ok (Suc n))"

definition trim :: "big \<Rightarrow> big ares" where
  "trim op =
     res_bind (index op 1) (\<lambda>w.
     res_bind (trim_count op (unat w)) (\<lambda>n.
     res_bind (set_at op 1 (word_of_nat n)) (\<lambda>op.
       if n = 0 then set_at op 0 0 else Ok op)))"

definition init_big :: "big \<Rightarrow> big" where
  "init_big op = map (\<lambda>_. 0) op"

definition init_fmm_context1 :: "big \<Rightarrow> big \<Rightarrow> big ares" where
  "init_fmm_context1 ctx modulus =
     (let ctx = map (\<lambda>_. 0) ctx; n = min (length modulus) (length ctx) in
      put_range ctx 0 (take n modulus))"

definition init_fmm :: "big \<Rightarrow> big" where
  "init_fmm op = init_big op"

section \<open>Conversions\<close>

text \<open>An \<open>i32\<close> is a word read with \<^const>\<open>sint\<close>.\<close>

definition from_s32 :: "big \<Rightarrow> u32 \<Rightarrow> big ares" where
  "from_s32 op v =
     (let op = init_big op in
      if v = 0 then Ok op
      else if sint v < 0 then
        res_bind (set_at op 0 FLAG_NEG) (\<lambda>op. res_bind (set_at op 1 1) (\<lambda>op. set_at op 2 (- v)))
      else res_bind (set_at op 1 1) (\<lambda>op. set_at op 2 v))"

definition to_s32 :: "big \<Rightarrow> int ares" where
  "to_s32 op =
     res_bind (nlimbs op) (\<lambda>n.
       if n = 0 then Ok 0
       else res_bind (index op 2) (\<lambda>l.
         if n > 1 \<or> n = 1 \<and> l > 0x7FFFFFFF then Err BadSize
         else res_bind (index op 0) (\<lambda>f.
           let mag = sint l in Ok (if f AND FLAG_NEG \<noteq> 0 then - mag else mag))))"

definition pad4 :: "bytes \<Rightarrow> bytes" where
  "pad4 bs = bs @ replicate ((4 - length bs mod 4) mod 4) 0"

definition from_octet_string :: "big \<Rightarrow> bytes \<Rightarrow> u32 \<Rightarrow> unit ares \<times> big" where
  "from_octet_string op buf sign =
     (if length buf * 8 > USIZE_MAX then (Panic, op)
      else
        let op = init_big op in
        if buf = [] then (Ok (), op)
        else
          let bytes = pad4 (rev buf); n = length bytes div 4 in
          case cap op of
            Ok c \<Rightarrow>
              if n > c then (Err BadSize, op)
              else
                (case res_bind (for_upto (\<lambda>i op.
                         res_bind (slice_range bytes (i * 4) (i * 4 + 4)) (\<lambda>b. set_at op (2 + i) (from_le_bytes b)))
                         n op) (\<lambda>op.
                       res_bind (set_at op 1 (word_of_nat n)) (\<lambda>op.
                       res_bind (if sint sign < 0 then set_at op 0 FLAG_NEG else Ok op) trim)) of
                   Ok op \<Rightarrow> (Ok (), op)
                 | Err e \<Rightarrow> (Err e, op)
                 | Panic \<Rightarrow> (Panic, op))
          | Err e \<Rightarrow> (Err e, op)
          | Panic \<Rightarrow> (Panic, op))"

text \<open>\<open>while bytes.last() == Some(&0) && bytes.len() > 1 { bytes.pop(); }\<close>, on the reversed list.\<close>

fun pop_zeros :: "bytes \<Rightarrow> bytes" where
  "pop_zeros (b # c # bs) = (if b = 0 then pop_zeros (c # bs) else b # c # bs)"
| "pop_zeros bs = bs"

definition to_octet_string :: "big \<Rightarrow> bytes \<Rightarrow> (usize \<times> bytes) ares" where
  "to_octet_string op buf =
     res_bind (limbs op) (\<lambda>ls.
       if ls = [] then Ok (0, buf)
       else
         let bytes = pop_zeros (rev (concat (map to_le_bytes ls))) in
         if length buf < length bytes then Err ShortBuffer
         else res_bind (put_range buf 0 bytes) (\<lambda>buf. Ok (length bytes, buf)))"

section \<open>Comparison\<close>

primrec cmp_loop :: "big \<Rightarrow> big \<Rightarrow> nat \<Rightarrow> int" where
  "cmp_loop a b 0 = 0"
| "cmp_loop a b (Suc i) =
     (let x = a ! (2 + i); y = b ! (2 + i) in
      if x > y then 1 else if x < y then - 1 else cmp_loop a b i)"

text \<open>The indices are in range: \<open>nlimbs\<close> answers 0 for a count beyond the slice.\<close>

definition cmp_mag :: "big \<Rightarrow> big \<Rightarrow> int" where
  "cmp_mag a b =
     (let la = nlimbs_or_0 a; lb = nlimbs_or_0 b in
      if la > lb then 1 else if la < lb then - 1 else cmp_loop a b la)"

definition cmp_big :: "big \<Rightarrow> big \<Rightarrow> int" where
  "cmp_big a b =
     (let sa = first_or_0 a AND FLAG_NEG; sb = first_or_0 b AND FLAG_NEG in
      if sa \<noteq> 0 \<and> sb = 0 then - 1
      else if sa = 0 \<and> sb \<noteq> 0 then 1
      else let mag = cmp_mag a b in if sa \<noteq> 0 then - mag else mag)"

definition cmp_s32 :: "big \<Rightarrow> u32 \<Rightarrow> int ares" where
  "cmp_s32 a b = res_bind (from_s32 (replicate 4 0) b) (\<lambda>tmp. Ok (cmp_big a tmp))"

section \<open>Copies, signs, bits\<close>

definition assign :: "big \<Rightarrow> big \<Rightarrow> big" where
  "assign dest src =
     (let n = min (length dest) (length src) in take n src @ replicate (length dest - n) 0)"

definition abs_big :: "big \<Rightarrow> big \<Rightarrow> big ares" where
  "abs_big dest src =
     (let dest = assign dest src in
      res_bind (index dest 0) (\<lambda>f. set_at dest 0 (f AND NOT FLAG_NEG)))"

definition neg_big :: "big \<Rightarrow> big \<Rightarrow> big ares" where
  "neg_big dest op =
     (let dest = assign dest op in
      if nlimbs_or_0 dest = 0 then set_at dest 0 0
      else res_bind (index dest 0) (\<lambda>f. set_at dest 0 (f XOR FLAG_NEG)))"

definition get_bit :: "big \<Rightarrow> u32 \<Rightarrow> bool" where
  "get_bit src k =
     (let i = unat k div 32; n = nlimbs_or_0 src in
      if i \<ge> n then False
      else drop_bit (unat k mod 32) (src ! (2 + i)) AND 1 = 1)"

text \<open>\<open>32 - leading_zeros\<close> is the number of bits of the word.\<close>

primrec bit_width :: "nat \<Rightarrow> u32 \<Rightarrow> nat" where
  "bit_width 0 w = 0"
| "bit_width (Suc n) w = (if bit w n then Suc n else bit_width n w)"

definition get_bit_count :: "big \<Rightarrow> usize" where
  "get_bit_count src =
     (let ls = limbs_or_nil src in
      if ls = [] then 0 else (length ls - 1) * 32 + bit_width 32 (last ls))"

definition set_bit_big :: "big \<Rightarrow> u32 \<Rightarrow> bool \<Rightarrow> big ares" where
  "set_bit_big op k val =
     (let i = unat k div 32 in
      if 2 + i \<ge> length op then Ok op
      else if val then
        res_bind (index op (2 + i)) (\<lambda>l.
        res_bind (set_at op (2 + i) (l OR push_bit (unat k mod 32) 1)) (\<lambda>op.
        res_bind (index op 1) (\<lambda>n.
          if word_of_nat i + 1 > n then set_at op 1 (word_of_nat i + 1) else Ok op)))
      else if i < nlimbs_or_0 op then
        res_bind (index op (2 + i)) (\<lambda>l.
        res_bind (set_at op (2 + i) (l AND NOT (push_bit (unat k mod 32) 1))) trim)
      else Ok op)"

text \<open>The shift of a window of limbs to the right by \<open>rem\<close> bits, from the top limb down.\<close>

definition shift_right :: "big \<Rightarrow> big \<Rightarrow> usize \<Rightarrow> big ares" where
  "shift_right dest src bits =
     (let dest = assign dest src in
      if bits = 0 then Ok dest
      else
        let words = bits div 32; rem = bits mod 32; n = nlimbs_or_0 dest in
        if words \<ge> n then Ok (init_big dest)
        else
          res_bind (slice_range dest (2 + words) (2 + n)) (\<lambda>w.
          res_bind (put_range dest 2 w) (\<lambda>dest.
          let new_n = n - words in
          res_bind (set_at dest 1 (word_of_nat new_n)) (\<lambda>dest.
          res_bind
            (if rem > 0
             then res_bind (for_down (\<lambda>i (dest, carry).
                    res_bind (index dest (2 + i)) (\<lambda>cur.
                    res_bind (set_at dest (2 + i) (drop_bit rem cur OR carry)) (\<lambda>dest.
                      Ok (dest, push_bit (32 - rem) cur)))) new_n (dest, 0)) (\<lambda>(dest, _). Ok dest)
             else Ok dest) (\<lambda>dest.
          trim (take (2 + new_n) dest @ replicate (length dest - (2 + new_n)) 0))))))"

section \<open>Addition, subtraction, multiplication\<close>

text \<open>\<open>if i < la { a[2 + i] } else { 0 }\<close>.\<close>

definition limb_or_0 :: "big \<Rightarrow> nat \<Rightarrow> nat \<Rightarrow> nat ares" where
  "limb_or_0 a la i = (if i < la then res_bind (index a (2 + i)) (\<lambda>w. Ok (unat w)) else Ok 0)"

definition add_step :: "big \<Rightarrow> big \<Rightarrow> nat \<Rightarrow> nat \<Rightarrow> nat \<Rightarrow> big \<times> nat \<Rightarrow> (big \<times> nat) ares" where
  "add_step a b la lb i = (\<lambda>(dest, carry).
     res_bind (limb_or_0 a la i) (\<lambda>x.
     res_bind (limb_or_0 b lb i) (\<lambda>y.
     res_bind (u64_checked (x + y + carry)) (\<lambda>s.
     res_bind (set_at dest (2 + i) (word_of_nat s)) (\<lambda>dest. Ok (dest, s div 2 ^ 32))))))"

definition add_mag :: "big \<Rightarrow> big \<Rightarrow> big \<Rightarrow> big ares" where
  "add_mag dest a b =
     res_bind (nlimbs a) (\<lambda>la.
     res_bind (nlimbs b) (\<lambda>lb.
     let n = max la lb in
     res_bind (cap dest) (\<lambda>c.
       if n + 1 > c then Err BadSize
       else
         res_bind (for_upto (add_step a b la lb) n (dest, 0)) (\<lambda>(dest, carry).
         res_bind (set_at dest (2 + n) (word_of_nat carry)) (\<lambda>dest.
         res_bind (set_at dest 1 (word_of_nat (n + (if carry \<noteq> 0 then 1 else 0)))) (\<lambda>dest.
           set_at dest 0 0))))))"

text \<open>The \<open>i64\<close> difference lies between \<open>- 2 ^ 32\<close> and \<open>2 ^ 32\<close>.\<close>

definition sub_step :: "big \<Rightarrow> big \<Rightarrow> nat \<Rightarrow> nat \<Rightarrow> nat \<Rightarrow> big \<times> int \<Rightarrow> (big \<times> int) ares" where
  "sub_step a b la lb i = (\<lambda>(dest, borrow).
     res_bind (index a (2 + i)) (\<lambda>x.
     res_bind (limb_or_0 b lb i) (\<lambda>y.
     let d = int (unat x) - int y - borrow;
         (d, borrow) = (if d < 0 then (d + 2 ^ 32, 1) else (d, 0)) in
     res_bind (set_at dest (2 + i) (word_of_int d)) (\<lambda>dest. Ok (dest, borrow)))))"

definition sub_mag :: "big \<Rightarrow> big \<Rightarrow> big \<Rightarrow> big ares" where
  "sub_mag dest a b =
     res_bind (nlimbs a) (\<lambda>la.
     res_bind (nlimbs b) (\<lambda>lb.
     res_bind (for_upto (sub_step a b la lb) la (dest, 0)) (\<lambda>(dest, _).
     res_bind (set_at dest 1 (word_of_nat la)) (\<lambda>dest.
     res_bind (set_at dest 0 0) trim))))"

text \<open>\<open>let _ = f(dest, ..)\<close>: an error, which both functions return before the first write, leaves
  \<open>dest\<close> as it was.\<close>

fun or_unchanged :: "'a ares \<Rightarrow> 'a \<Rightarrow> 'a ares" where
  "or_unchanged (Ok x) old = Ok x"
| "or_unchanged (Err e) old = Ok old"
| "or_unchanged Panic old = Panic"

definition add_big :: "big \<Rightarrow> big \<Rightarrow> big \<Rightarrow> big ares" where
  "add_big dest op1 op2 =
     (let s1 = first_or_0 op1 AND FLAG_NEG; s2 = first_or_0 op2 AND FLAG_NEG in
      if s1 = s2 then
        res_bind (or_unchanged (add_mag dest op1 op2) dest) (\<lambda>dest.
        res_bind (set_at dest 0 s1) (\<lambda>dest.
          if nlimbs_or_0 dest = 0 then set_at dest 0 0 else Ok dest))
      else
        let c = cmp_mag op1 op2 in
        if c = 0 then Ok (init_big dest)
        else if c = 1 then
          res_bind (or_unchanged (sub_mag dest op1 op2) dest) (\<lambda>dest. set_at dest 0 s1)
        else
          res_bind (or_unchanged (sub_mag dest op2 op1) dest) (\<lambda>dest. set_at dest 0 s2))"

definition sub_big :: "big \<Rightarrow> big \<Rightarrow> big \<Rightarrow> big ares" where
  "sub_big dest op1 op2 =
     (let neg = assign (replicate 130 0) op2 in
      res_bind
        (if nlimbs_or_0 neg \<noteq> 0
         then res_bind (index neg 0) (\<lambda>f. set_at neg 0 (f XOR FLAG_NEG)) else Ok neg)
        (add_big dest op1))"

definition mul_inner :: "big \<Rightarrow> big \<Rightarrow> nat \<Rightarrow> nat \<Rightarrow> big \<times> nat \<Rightarrow> (big \<times> nat) ares" where
  "mul_inner op1 op2 i j = (\<lambda>(tmp, carry).
     let idx = 2 + i + j in
     res_bind (index tmp idx) (\<lambda>t.
     res_bind (index op1 (2 + i)) (\<lambda>x.
     res_bind (index op2 (2 + j)) (\<lambda>y.
     res_bind (u64_checked (unat t + unat x * unat y + carry)) (\<lambda>p.
     res_bind (set_at tmp idx (word_of_nat p)) (\<lambda>tmp. Ok (tmp, p div 2 ^ 32)))))))"

definition mul_outer :: "big \<Rightarrow> big \<Rightarrow> nat \<Rightarrow> nat \<Rightarrow> big \<Rightarrow> big ares" where
  "mul_outer op1 op2 lb i tmp =
     res_bind (for_upto (mul_inner op1 op2 i) lb (tmp, 0)) (\<lambda>(tmp, carry).
       set_at tmp (2 + i + lb) (word_of_nat carry))"

definition mul_big :: "big \<Rightarrow> big \<Rightarrow> big \<Rightarrow> big ares" where
  "mul_big dest op1 op2 =
     (let la = nlimbs_or_0 op1; lb = nlimbs_or_0 op2 in
      res_bind (for_upto (mul_outer op1 op2 lb) la (replicate (2 + la + lb + 1) 0)) (\<lambda>tmp.
      res_bind (set_at tmp 1 (word_of_nat (la + lb))) (\<lambda>tmp.
      res_bind (set_at tmp 0 ((first_or_0 op1 XOR first_or_0 op2) AND FLAG_NEG)) (\<lambda>tmp.
      res_bind (trim tmp) (\<lambda>tmp. Ok (assign dest tmp))))))"

definition square_big :: "big \<Rightarrow> big \<Rightarrow> big ares" where
  "square_big dest op = mul_big dest op op"

definition is_zero :: "big \<Rightarrow> bool" where
  "is_zero op \<longleftrightarrow> nlimbs_or_0 op = 0"

section \<open>Division\<close>

definition shl_limbs :: "nat \<Rightarrow> nat \<Rightarrow> big \<Rightarrow> big ares" where
  "shl_limbs words n op =
     res_bind (for_down (\<lambda>i op. res_bind (index op (2 + i)) (set_at op (2 + i + words))) n op) (\<lambda>op.
     res_bind (for_upto (\<lambda>i op. set_at op (2 + i) 0) words op) (\<lambda>op.
       set_at op 1 (word_of_nat (n + words))))"

definition shl_step :: "nat \<Rightarrow> nat \<Rightarrow> big \<times> u32 \<Rightarrow> (big \<times> u32) ares" where
  "shl_step rem i = (\<lambda>(op, carry).
     res_bind (index op (2 + i)) (\<lambda>cur.
     res_bind (set_at op (2 + i) (push_bit rem cur OR carry)) (\<lambda>op.
       Ok (op, drop_bit (32 - rem) cur))))"

definition shl_bits :: "nat \<Rightarrow> big \<Rightarrow> big ares" where
  "shl_bits rem op =
     (let n = nlimbs_or_0 op in
      res_bind (for_upto (shl_step rem) n (op, 0)) (\<lambda>(op, carry).
        if carry \<noteq> 0 \<and> 2 + n < length op
        then res_bind (set_at op (2 + n) carry) (\<lambda>op. set_at op 1 (word_of_nat (n + 1)))
        else Ok op))"

definition shl_words :: "big \<Rightarrow> usize \<Rightarrow> big ares" where
  "shl_words op bits =
     (if bits = 0 \<or> is_zero op then Ok op
      else
        let words = bits div 32; rem = bits mod 32; n = nlimbs_or_0 op in
        if 2 + n + words + 1 > length op then Ok op
        else
          res_bind (if words > 0 then shl_limbs words n op else Ok op) (\<lambda>op.
            if rem > 0 then shl_bits rem op else Ok op))"

definition div_step :: "big \<Rightarrow> nat \<Rightarrow> big \<times> big \<Rightarrow> (big \<times> big) ares" where
  "div_step dvs i = (\<lambda>(quot, rem).
     res_bind (shl_words (assign (replicate 130 0) dvs) i) (\<lambda>shifted.
       if cmp_mag rem shifted \<ge> 0 then
         res_bind (or_unchanged (sub_mag (replicate 130 0) rem shifted) (replicate 130 0)) (\<lambda>nrem.
         res_bind (set_bit_big quot (word_of_nat i) True) (\<lambda>quot. Ok (quot, assign rem nrem)))
       else Ok (quot, rem)))"

definition div_big :: "big \<Rightarrow> big \<Rightarrow> big \<Rightarrow> big \<Rightarrow> (big \<times> big) ares" where
  "div_big quot rem op1 op2 =
     (if is_zero op2 then Ok (init_big quot, init_big rem)
      else
        let quot = init_big quot in
        res_bind (set_at (assign rem op1) 0 0) (\<lambda>rem.
        res_bind (set_at (assign (replicate 130 0) op2) 0 0) (\<lambda>dvs.
          if cmp_mag rem dvs < 0 then
            res_bind (set_at rem 0 (first_or_0 op1 AND FLAG_NEG)) (\<lambda>rem. Ok (quot, rem))
          else
            let bits = get_bit_count rem - get_bit_count dvs + 1 in
            res_bind (for_down (div_step dvs) bits (quot, rem)) (\<lambda>(quot, rem).
            res_bind (set_at quot 0 ((first_or_0 op1 XOR first_or_0 op2) AND FLAG_NEG)) (\<lambda>quot.
            res_bind (set_at rem 0 (first_or_0 op1 AND FLAG_NEG)) (\<lambda>rem.
            res_bind (trim quot) (\<lambda>quot.
            res_bind (trim rem) (\<lambda>rem. Ok (quot, rem)))))))))"

section \<open>Modular arithmetic\<close>

definition modulo_big :: "big \<Rightarrow> big \<Rightarrow> big \<Rightarrow> big ares" where
  "modulo_big dest op n =
     res_bind (div_big (replicate 130 0) dest op n) (\<lambda>(_, dest).
     res_bind (set_at dest 0 0) (\<lambda>dest.
       if first_or_0 op AND FLAG_NEG \<noteq> 0 \<and> \<not> is_zero dest then
         res_bind (sub_big (replicate 130 0) n dest) (\<lambda>t. set_at (assign dest t) 0 0)
       else Ok dest))"

definition add_mod :: "big \<Rightarrow> big \<Rightarrow> big \<Rightarrow> big \<Rightarrow> big ares" where
  "add_mod dest op1 op2 n = res_bind (add_big (replicate 130 0) op1 op2) (\<lambda>s. modulo_big dest s n)"

definition sub_mod :: "big \<Rightarrow> big \<Rightarrow> big \<Rightarrow> big \<Rightarrow> big ares" where
  "sub_mod dest op1 op2 n = res_bind (sub_big (replicate 130 0) op1 op2) (\<lambda>s. modulo_big dest s n)"

definition mul_mod :: "big \<Rightarrow> big \<Rightarrow> big \<Rightarrow> big \<Rightarrow> big ares" where
  "mul_mod dest op1 op2 n = res_bind (mul_big (replicate 260 0) op1 op2) (\<lambda>s. modulo_big dest s n)"

definition square_mod :: "big \<Rightarrow> big \<Rightarrow> big \<Rightarrow> big ares" where
  "square_mod dest op n = mul_mod dest op op n"

definition exp_step :: "big \<Rightarrow> big \<Rightarrow> nat \<Rightarrow> big \<times> big \<Rightarrow> (big \<times> big) ares" where
  "exp_step e n i = (\<lambda>(result, base).
     res_bind
       (if get_bit e (word_of_nat i)
        then res_bind (mul_mod (replicate 130 0) result base n) (\<lambda>t. Ok (assign result t))
        else Ok result) (\<lambda>result.
     res_bind (square_mod (replicate 130 0) base n) (\<lambda>sq. Ok (result, assign base sq))))"

definition exp_mod :: "big \<Rightarrow> big \<Rightarrow> big \<Rightarrow> big \<Rightarrow> big ares" where
  "exp_mod dest op e n =
     res_bind (modulo_big (replicate 130 0) op n) (\<lambda>base.
     res_bind (from_s32 (replicate 130 0) 1) (\<lambda>result.
     res_bind (for_upto (exp_step e n) (get_bit_count e) (result, base)) (\<lambda>(result, _).
       Ok (assign dest result))))"

section \<open>Greatest common divisor\<close>

record egcd =
  eg_r0 :: big
  eg_r1 :: big
  eg_s0 :: big
  eg_s1 :: big
  eg_t0 :: big
  eg_t1 :: big

definition egcd_step :: "egcd \<Rightarrow> egcd ares" where
  "egcd_step e =
     res_bind (div_big (replicate 130 0) (replicate 130 0) (eg_r0 e) (eg_r1 e)) (\<lambda>(q, r).
     res_bind (mul_big (replicate 130 0) q (eg_s1 e)) (\<lambda>tmp.
     res_bind (sub_big (replicate 130 0) (eg_s0 e) tmp) (\<lambda>ns.
     res_bind (mul_big tmp q (eg_t1 e)) (\<lambda>tmp.
     res_bind (sub_big (replicate 130 0) (eg_t0 e) tmp) (\<lambda>nt.
       Ok \<lparr>eg_r0 = assign (eg_r0 e) (eg_r1 e), eg_r1 = assign (eg_r1 e) r,
           eg_s0 = assign (eg_s0 e) (eg_s1 e), eg_s1 = assign (eg_s1 e) ns,
           eg_t0 = assign (eg_t0 e) (eg_t1 e), eg_t1 = assign (eg_t1 e) nt\<rparr>)))))"

partial_function (option) egcd_loop :: "egcd \<Rightarrow> egcd ares option" where
  "egcd_loop e =
     (if is_zero (eg_r1 e) then Some (Ok e)
      else case egcd_step e of
        Ok e \<Rightarrow> egcd_loop e
      | Err x \<Rightarrow> Some (Err x)
      | Panic \<Rightarrow> Some Panic)"

declare egcd_loop.simps [code]

definition egcd_start :: "big \<Rightarrow> big \<Rightarrow> egcd ares" where
  "egcd_start op1 op2 =
     (let z = replicate 130 0 in
      res_bind (set_at (assign z op1) 0 0) (\<lambda>r0.
      res_bind (set_at (assign z op2) 0 0) (\<lambda>r1.
      res_bind (from_s32 z 1) (\<lambda>s0.
      res_bind (from_s32 z 1) (\<lambda>t1.
        Ok \<lparr>eg_r0 = r0, eg_r1 = r1, eg_s0 = s0, eg_s1 = z, eg_t0 = z, eg_t1 = t1\<rparr>)))))"

text \<open>The three outputs \<open>gcd\<close>, \<open>u\<close>, \<open>v\<close>.\<close>

definition compute_extended_gcd ::
  "big \<Rightarrow> big \<Rightarrow> big \<Rightarrow> big \<Rightarrow> big \<Rightarrow> (big \<times> big \<times> big) ares option" where
  "compute_extended_gcd g u v op1 op2 =
     (case egcd_start op1 op2 of
        Ok e \<Rightarrow> map_option (\<lambda>r. res_bind r (\<lambda>e.
          Ok (assign g (eg_r0 e), assign u (eg_s0 e), assign v (eg_t0 e)))) (egcd_loop e)
      | Err x \<Rightarrow> Some (Err x)
      | Panic \<Rightarrow> Some Panic)"

definition inv_mod :: "big \<Rightarrow> big \<Rightarrow> big \<Rightarrow> big ares option" where
  "inv_mod dest op n =
     map_option (\<lambda>r. res_bind r (\<lambda>(g, u, _).
       res_bind (from_s32 (replicate 4 0) 1) (\<lambda>one.
         if cmp_big g one \<noteq> 0 then Ok (init_big dest) else modulo_big dest u n)))
       (compute_extended_gcd (replicate 130 0) (replicate 130 0) (replicate 130 0) op n)"

definition relative_prime :: "big \<Rightarrow> big \<Rightarrow> bool ares option" where
  "relative_prime op1 op2 =
     map_option (\<lambda>r. res_bind r (\<lambda>(g, _).
       res_bind (from_s32 (replicate 4 0) 1) (\<lambda>one. Ok (cmp_big g one = 0))))
       (compute_extended_gcd (replicate 130 0) (replicate 130 0) (replicate 130 0) op1 op2)"

section \<open>Primality and the fast modular format\<close>

text \<open>The rounds from \<open>r\<close> on; \<open>k\<close> rounds are left.\<close>

fun prime_rounds :: "big \<Rightarrow> big \<Rightarrow> big \<Rightarrow> nat \<Rightarrow> nat \<Rightarrow> int ares" where
  "prime_rounds op n1 one r 0 = Ok 1"
| "prime_rounds op n1 one r (Suc k) =
     res_bind (from_s32 (replicate 4 0) (2 + word_of_nat r)) (\<lambda>a.
       if cmp_mag a op \<ge> 0 then Ok 1
       else res_bind (exp_mod (replicate 130 0) a n1 op) (\<lambda>x.
         if cmp_big x one \<noteq> 0 then Ok 0 else prime_rounds op n1 one (Suc r) k))"

definition is_probable_prime :: "big \<Rightarrow> u32 \<Rightarrow> int ares" where
  "is_probable_prime op confidence =
     (if first_or_0 op AND FLAG_NEG \<noteq> 0 then Ok 0
      else if is_zero op then Ok 0
      else
        res_bind (from_s32 (replicate 4 0) 2) (\<lambda>two.
          if cmp_big op two < 0 then Ok 0
          else if cmp_big op two = 0 then Ok 1
          else if \<not> get_bit op 0 then Ok 0
          else
            let rounds = max 1 (min (unat confidence) 8) in
            res_bind (from_s32 (replicate 4 0) 1) (\<lambda>one.
            res_bind (sub_big (replicate 130 0) op one) (\<lambda>n1.
              prime_rounds op n1 one 0 rounds))))"

definition convert_to_fmm :: "big \<Rightarrow> big \<Rightarrow> big \<Rightarrow> big ares" where
  "convert_to_fmm dest src n = modulo_big dest src n"

definition convert_from_fmm :: "big \<Rightarrow> big \<Rightarrow> big \<Rightarrow> big ares" where
  "convert_from_fmm dest src n = modulo_big dest src n"

definition compute_fmm :: "big \<Rightarrow> big \<Rightarrow> big \<Rightarrow> big \<Rightarrow> big ares" where
  "compute_fmm dest op1 op2 n = mul_mod dest op1 op2 n"

end
