(* ===== verification/Big_Add.thy ===== *)
theory Big_Add
  imports Big_Model
begin

text \<open>
  Correctness of the big integers: a well-formed slice stands for an integer, and the operations compute
  the corresponding operation on integers, as long as the results fit the buffers.
\<close>

section \<open>Loops\<close>

lemma for_upto_rule:
  assumes "I 0 s" and "\<And>i s. i < n \<Longrightarrow> I i s \<Longrightarrow> \<exists>s'. f i s = Ok s' \<and> I (Suc i) s'"
  shows "\<exists>s'. for_upto f n s = Ok s' \<and> I n s'"
  using assms(2)
proof (induction n)
  case (Suc n)
  then obtain s' where "for_upto f n s = Ok s'" "I n s'" by (metis less_Suc_eq)
  with Suc.prems [of n s'] show ?case by auto
qed (use assms(1) in simp)

lemma for_down_rule:
  assumes "I n s" and "\<And>i s. i < n \<Longrightarrow> I (Suc i) s \<Longrightarrow> \<exists>s'. f i s = Ok s' \<and> I i s'"
  shows "\<exists>s'. for_down f n s = Ok s' \<and> I 0 s'"
  using assms
proof (induction n arbitrary: s)
  case (Suc n)
  then obtain s' where "f n s = Ok s'" "I n s'" by blast
  with Suc.IH [of s'] Suc.prems(2) show ?case by auto
qed auto

lemma set_at_Ok [simp]: "i < length xs \<Longrightarrow> set_at xs i v = Ok (xs[i := v])"
  by (simp add: set_at_def)

lemma index_in [simp]: "i < length xs \<Longrightarrow> index xs i = Ok (xs ! i)"
  by (simp add: index_def)

section \<open>The value of limbs\<close>

definition BASE :: nat where "BASE = 2 ^ 32"

definition lsum :: "big \<Rightarrow> nat \<Rightarrow> nat" where
  "lsum op n = (\<Sum>k<n. unat (op ! (2 + k)) * BASE ^ k)"

definition count :: "big \<Rightarrow> nat" where "count op = unat (op ! 1)"
definition mag :: "big \<Rightarrow> nat" where "mag op = lsum op (count op)"

definition val :: "big \<Rightarrow> int" where
  "val op = (if op ! 0 = 0 then int (mag op) else - int (mag op))"

definition wf_big :: "big \<Rightarrow> bool" where
  "wf_big op \<longleftrightarrow>
     2 + count op \<le> length op \<and> length op < BASE \<and> op ! 0 \<in> {0, 1} \<and>
     (if count op = 0 then op ! 0 = 0 else op ! (1 + count op) \<noteq> 0)"

lemma BASE_pos [simp]: "0 < BASE" "BASE \<noteq> 0" "1 < BASE" "Suc 0 < BASE"
  by (simp_all add: BASE_def)

lemma unat_less_BASE [simp]: "unat (w :: u32) < BASE"
  using unsigned_less [of w, where 'a = nat] by (simp add: BASE_def)

lemma unat_of_nat_BASE: "unat (word_of_nat n :: u32) = n mod BASE"
  by (simp add: unat_of_nat BASE_def)

lemma lsum_0 [simp]: "lsum op 0 = 0"
  by (simp add: lsum_def)

lemma lsum_Suc: "lsum op (Suc n) = lsum op n + unat (op ! (2 + n)) * BASE ^ n"
  by (simp add: lsum_def)

lemma lsum_cong: "(\<And>k. k < n \<Longrightarrow> a ! (2 + k) = b ! (2 + k)) \<Longrightarrow> lsum a n = lsum b n"
  by (simp add: lsum_def)

lemma lsum_update [simp]: "j < 2 \<or> 2 + n \<le> j \<Longrightarrow> lsum (op[j := v]) n = lsum op n"
  by (rule lsum_cong) (auto simp: nth_list_update)

lemma lsum_less: "lsum op n < BASE ^ n"
proof (induction n)
  case (Suc n)
  have "(unat (op ! (2 + n)) + 1) * BASE ^ n \<le> BASE * BASE ^ n"
    by (intro mult_le_mono1) (simp add: Suc_le_eq)
  with Suc show ?case by (simp add: lsum_Suc)
qed simp

lemma lsum_mono: "m \<le> n \<Longrightarrow> lsum op m \<le> lsum op n"
  by (auto simp: lsum_def intro: sum_mono2)

lemma lsum_top: "op ! (2 + n) \<noteq> 0 \<Longrightarrow> BASE ^ n \<le> lsum op (Suc n)"
  using mult_le_mono1 [of 1 "unat (op ! (2 + n))" "BASE ^ n"]
  by (simp add: lsum_Suc trans_le_add2 Suc_le_eq word_gt_0 unat_gt_0 del: mult_le_cancel2)

lemma lsum_zeros:
  "m \<le> n \<Longrightarrow> (\<And>k. m \<le> k \<Longrightarrow> k < n \<Longrightarrow> op ! (2 + k) = 0) \<Longrightarrow> lsum op n = lsum op m"
  by (induction n) (auto simp: lsum_Suc le_Suc_eq)

lemma mag_less: "mag op < BASE ^ count op"
  by (simp add: mag_def lsum_less)

lemma mag_top: "wf_big op \<Longrightarrow> count op \<noteq> 0 \<Longrightarrow> BASE ^ (count op - 1) \<le> mag op"
  using lsum_top [of op "count op - 1"] by (simp add: mag_def wf_big_def)

lemma mag_eq_0: "wf_big op \<Longrightarrow> mag op = 0 \<longleftrightarrow> count op = 0"
  using mag_top [of op] by (cases "count op = 0") (auto simp: mag_def dest: order.strict_trans2 [OF zero_less_power [OF BASE_pos(1)]])

lemma count_mono:
  assumes "wf_big a" and "wf_big b" and "mag a \<le> mag b"
  shows "count a \<le> count b"
proof (rule ccontr)
  assume "\<not> count a \<le> count b"
  then have "BASE ^ count b \<le> BASE ^ (count a - 1)" "count a \<noteq> 0" by (auto intro: power_increasing)
  with mag_top [OF assms(1)] mag_less [of b] assms(3) show False by linarith
qed

lemma wf_bigD:
  "wf_big op \<Longrightarrow> 2 \<le> length op" "wf_big op \<Longrightarrow> 2 + count op \<le> length op" "wf_big op \<Longrightarrow> count op < BASE"
  by (auto simp: wf_big_def)

lemma nlimbs_Ok: "2 + count op \<le> length op \<Longrightarrow> nlimbs op = Ok (count op)"
  by (auto simp: nlimbs_def cap_def count_def Let_def)

lemma nlimbs_or_0_eq: "2 + count op \<le> length op \<Longrightarrow> nlimbs_or_0 op = count op"
  by (simp add: nlimbs_or_0_def nlimbs_Ok)

lemma nlimbs_wf [simp]: "wf_big op \<Longrightarrow> nlimbs op = Ok (count op)" "wf_big op \<Longrightarrow> nlimbs_or_0 op = count op"
  by (simp_all only: nlimbs_Ok nlimbs_or_0_eq wf_bigD)

lemma is_zero_iff: "wf_big op \<Longrightarrow> is_zero op \<longleftrightarrow> val op = 0"
  by (simp add: is_zero_def val_def mag_eq_0)

lemma flag_and [simp]: "wf_big op \<Longrightarrow> first_or_0 op AND FLAG_NEG = op ! 0" "wf_big op \<Longrightarrow> first_or_0 op = op ! 0"
  "wf_big op \<Longrightarrow> op ! 0 AND FLAG_NEG = op ! 0"
  using wf_bigD(1) [of op] by (cases op; auto simp: first_or_0_def FLAG_NEG_def wf_big_def)+

lemma val_sign:
  "wf_big op \<Longrightarrow> op ! 0 \<noteq> 0 \<longleftrightarrow> val op < 0"
  using mag_eq_0 [of op] by (auto simp: val_def wf_big_def split: if_splits)

section \<open>Comparison\<close>

lemma cmp_loop_eq:
  "cmp_loop a b n = (if lsum b n < lsum a n then 1 else if lsum a n < lsum b n then - 1 else 0)"
proof (induction n)
  case (Suc n)
  have lt: "lsum a (Suc n) < lsum b (Suc n)" if "a ! (2 + n) < b ! (2 + n)" for a b :: big
  proof -
    have "(unat (a ! (2 + n)) + 1) * BASE ^ n \<le> unat (b ! (2 + n)) * BASE ^ n"
      using that by (intro mult_le_mono1) (simp add: word_less_nat_alt)
    with lsum_less [of a n] show ?thesis by (simp add: lsum_Suc)
  qed
  consider "a ! (2 + n) < b ! (2 + n)" | "b ! (2 + n) < a ! (2 + n)" | "a ! (2 + n) = b ! (2 + n)" by fastforce
  then show ?case
  proof cases
    case 3
    with Suc show ?thesis by (simp add: lsum_Suc)
  qed (use lt [of a b] lt [of b a] in \<open>auto simp: Let_def\<close>)
qed simp

lemma cmp_mag_eq:
  assumes "wf_big a" and "wf_big b"
  shows "cmp_mag a b = (if mag b < mag a then 1 else if mag a < mag b then - 1 else 0)"
proof -
  have n: "nlimbs_or_0 a = count a" "nlimbs_or_0 b = count b" using assms by simp_all
  have "mag x < mag y" if "wf_big x" "wf_big y" "count x < count y" for x y
    using count_mono [OF that(2,1)] that(3) by (meson not_le)
  then show ?thesis
    using assms by (auto simp: cmp_mag_def n cmp_loop_eq mag_def Let_def) (metis nat_neq_iff not_less_iff_gr_or_eq)+
qed

section \<open>Normal form\<close>

lemma top_limb: "BASE ^ n \<le> lsum op (Suc n) \<Longrightarrow> op ! (2 + n) \<noteq> 0"
  using lsum_less [of op n] by (auto simp: lsum_Suc)

lemma trim_count_Ok:
  "2 + n \<le> length op \<Longrightarrow>
   \<exists>m \<le> n. trim_count op n = Ok m \<and> lsum op m = lsum op n \<and> (m \<noteq> 0 \<longrightarrow> op ! (1 + m) \<noteq> 0)"
proof (induction n)
  case (Suc n)
  then obtain m where m: "m \<le> n" "trim_count op n = Ok m" "lsum op m = lsum op n" "m \<noteq> 0 \<longrightarrow> op ! (1 + m) \<noteq> 0"
    by fastforce
  with Suc.prems show ?case
    by (cases "op ! (2 + n) = 0") (auto simp: lsum_Suc intro: exI [of _ m] exI [of _ "Suc n"])
qed simp

lemma count_update [simp]: "j \<noteq> 1 \<Longrightarrow> count (op[j := v]) = count op" "1 < length op \<Longrightarrow> count (op[Suc 0 := v]) = unat v"
  by (auto simp: count_def nth_list_update)

lemma mag_update [simp]: "mag (op[0 := v]) = mag op"
  by (simp add: mag_def)

lemma trim_Ok:
  assumes "2 + count op \<le> length op" and "length op < BASE" and "op ! 0 \<in> {0, 1}"
  obtains op' where "trim op = Ok op'" "wf_big op'" "mag op' = mag op" "length op' = length op"
    "op' ! 0 = (if mag op = 0 then 0 else op ! 0)"
proof -
  obtain m where m: "m \<le> count op" "trim_count op (count op) = Ok m" "lsum op m = lsum op (count op)"
    "m \<noteq> 0 \<longrightarrow> op ! (1 + m) \<noteq> 0"
    using trim_count_Ok [OF assms(1)] by blast
  define op' where "op' = (if m = 0 then op[1 := word_of_nat m, 0 := 0] else op[1 := word_of_nat m])"
  have len: "1 < length op" using assms(1) by simp
  have u: "unat (word_of_nat m :: u32) = m" using m(1) assms(1,2) by (simp add: unat_of_nat_BASE)
  then have c: "count op' = m" using len by (simp add: op'_def)
  have ne: "op \<noteq> []" using len by auto
  then have t: "trim op = Ok op'" using m(2) len unfolding count_def by (simp add: trim_def op'_def)
  have l: "lsum op' m = lsum op m" by (simp add: op'_def)
  then have mg: "mag op' = mag op" using m(3) by (simp add: mag_def c)
  have wf: "wf_big op'"
    using assms m(1,4) len ne c by (auto simp: wf_big_def op'_def nth_list_update split: if_splits)
  have "op' ! 0 = (if mag op = 0 then 0 else op ! 0)"
    using mag_eq_0 [OF wf] mg c ne by (auto simp: op'_def)
  then show ?thesis using that t wf mg by (simp add: op'_def)
qed

section \<open>Addition of magnitudes\<close>

definition esum :: "big \<Rightarrow> nat \<Rightarrow> nat \<Rightarrow> nat" where
  "esum a la n = (\<Sum>k<n. (if k < la then unat (a ! (2 + k)) else 0) * BASE ^ k)"

lemma esum_Suc: "esum a la (Suc n) = esum a la n + (if n < la then unat (a ! (2 + n)) else 0) * BASE ^ n"
  by (simp add: esum_def)

lemma esum_0 [simp]: "esum a la 0 = 0"
  by (simp add: esum_def)

lemma esum_ge: "la \<le> n \<Longrightarrow> esum a la n = lsum a la"
proof -
  assume "la \<le> n"
  then have "lsum a la = (\<Sum>k<n. if k < la then unat (a ! (2 + k)) * BASE ^ k else 0)"
    unfolding lsum_def by (intro sum.mono_neutral_cong_left) auto
  then show ?thesis by (simp add: esum_def if_distrib [of "\<lambda>x. x * _"] cong: if_cong)
qed

lemma limb_or_0_Ok:
  "2 + la \<le> length a \<Longrightarrow> limb_or_0 a la i = Ok (if i < la then unat (a ! (2 + i)) else 0)"
  by (simp add: limb_or_0_def)

lemma digit_split: "x mod BASE * BASE ^ i + x div BASE * BASE ^ Suc i = x * BASE ^ i"
proof -
  have "x mod BASE * BASE ^ i + x div BASE * BASE ^ Suc i = (x div BASE * BASE + x mod BASE) * BASE ^ i"
    by (simp only: add_mult_distrib power_Suc mult.assoc add.commute)
  then show ?thesis by simp
qed

lemma add_loop:
  assumes "2 + la \<le> length a" and "2 + lb \<le> length b" and "2 + n \<le> length dest"
  obtains d c where "for_upto (add_step a b la lb) n (dest, 0) = Ok (d, c)" "length d = length dest" "c \<le> 1"
    "lsum d n + c * BASE ^ n = esum a la n + esum b lb n"
proof -
  define I where "I i dc \<longleftrightarrow> (case dc of (d, c) \<Rightarrow> length d = length dest \<and> c \<le> 1 \<and>
    lsum d i + c * BASE ^ i = esum a la i + esum b lb i)" for i and dc :: "big \<times> nat"
  have "\<exists>s'. for_upto (add_step a b la lb) n (dest, 0) = Ok s' \<and> I n s'"
  proof (rule for_upto_rule)
    show "I 0 (dest, 0)" by (simp add: I_def)
    fix i s assume i: "i < n" and inv: "I i s"
    obtain d c where s: "s = (d, c)" by fastforce
    define x where "x = (if i < la then unat (a ! (2 + i)) else 0)"
    define y where "y = (if i < lb then unat (b ! (2 + i)) else 0)"
    define t where "t = x + y + c"
    have d: "length d = length dest" "c \<le> 1" "lsum d i + c * BASE ^ i = esum a la i + esum b lb i"
      using inv by (auto simp: I_def s)
    have "x < BASE" "y < BASE" by (simp_all add: x_def y_def)
    with d(2) have t: "t < 2 * BASE" "t \<le> U64_MAX" by (simp_all add: t_def U64_MAX_def BASE_def)
    have tB: "t * BASE ^ i = x * BASE ^ i + y * BASE ^ i + c * BASE ^ i" by (simp add: t_def add_mult_distrib)
    have step: "add_step a b la lb i s = Ok (d[2 + i := word_of_nat t], t div BASE)"
      using assms i d t(2)
      by (simp add: add_step_def s limb_or_0_Ok u64_checked_def BASE_def flip: x_def y_def t_def)
    have "t div BASE \<le> 1" using t(1) by (metis less_Suc_eq_le less_mult_imp_div_less numeral_2_eq_2 One_nat_def)
    moreover have "lsum (d[2 + i := word_of_nat t]) (Suc i) + t div BASE * BASE ^ Suc i =
        esum a la (Suc i) + esum b lb (Suc i)"
      using d i assms(3) digit_split [of t i] tB
      by (simp add: lsum_Suc esum_Suc unat_of_nat_BASE flip: x_def y_def)
    ultimately show "\<exists>s'. add_step a b la lb i s = Ok s' \<and> I (Suc i) s'"
      using step d(1) by (simp add: I_def)
  qed
  then show ?thesis using that by (auto simp: I_def)
qed

lemma add_mag_Ok:
  assumes "wf_big a" and "wf_big b" and "2 + max (count a) (count b) + 1 \<le> length dest" and "length dest < BASE"
  obtains d where "add_mag dest a b = Ok d" "length d = length dest" "wf_big d" "mag d = mag a + mag b" "d ! 0 = 0"
proof -
  let ?n = "max (count a) (count b)"
  obtain d c where d: "for_upto (add_step a b (count a) (count b)) ?n (dest, 0) = Ok (d, c)"
    "length d = length dest" "c \<le> 1" "lsum d ?n + c * BASE ^ ?n = mag a + mag b"
    using add_loop [of "count a" a "count b" b ?n dest] wf_bigD(2) assms
    by (auto simp: esum_ge mag_def)
  define m where "m = ?n + (if c \<noteq> 0 then 1 else 0)"
  define d' where "d' = d[2 + ?n := word_of_nat c, 1 := word_of_nat m, 0 := 0]"
  have len: "length d' = length dest" "1 < length d" "2 + ?n < length d" using d(2) assms(3) by (auto simp: d'_def)
  have "m < BASE" using assms(3,4) by (auto simp: m_def)
  then have c: "count d' = m" using len by (simp add: d'_def unat_of_nat_BASE)
  have l: "lsum d' ?n = lsum d ?n" by (simp add: d'_def)
  have c1: "d' ! (2 + ?n) = word_of_nat c" using len by (simp add: d'_def)
  have mg: "mag d' = mag a + mag b"
  proof (cases "c = 0")
    case True
    then show ?thesis using d(4) l by (simp add: mag_def c m_def)
  next
    case False
    with d(3) have "c = 1" by simp
    then show ?thesis using d(4) l c1 by (simp add: mag_def c m_def lsum_Suc)
  qed
  have top: "d' ! (1 + m) \<noteq> 0" if "m \<noteq> 0"
  proof (cases "c = 0")
    case True
    with that have n: "?n \<noteq> 0" "m = ?n" by (auto simp: m_def)
    then have "BASE ^ (?n - 1) \<le> mag a + mag b"
      using mag_top [OF assms(1)] mag_top [OF assms(2)]
      by (cases "count a \<le> count b") (auto simp: max_def intro: trans_le_add1 trans_le_add2)
    then show ?thesis using top_limb [of "?n - 1" d'] n mg c by (simp add: mag_def)
  next
    case False
    with d(3) have "c = 1" by simp
    with c1 show ?thesis by (simp add: m_def)
  qed
  have ne: "d \<noteq> []" "dest \<noteq> []" using len assms(3) by auto
  then have d0: "d' ! 0 = 0" by (simp add: d'_def)
  have "2 + m \<le> length d'" using len(1) assms(3) by (simp add: m_def)
  then have "wf_big d'"
    using top len assms(4) c d0 by (simp add: wf_big_def)
  moreover have "add_mag dest a b = Ok d'"
    using d(1) assms len ne
    by (auto simp: add_mag_def cap_def Let_def d'_def m_def)
  ultimately show ?thesis using that [of d'] len(1) mg d0 by simp
qed

section \<open>Subtraction of magnitudes\<close>

lemma sub_loop:
  assumes "2 + la \<le> length a" and "2 + lb \<le> length b" and "2 + la \<le> length dest" and "lb \<le> la"
  obtains d c where "for_upto (sub_step a b la lb) la (dest, 0) = Ok (d, c)" "length d = length dest" "c \<in> {0, 1}"
    "int (lsum d la) - c * int (BASE ^ la) = int (lsum a la) - int (lsum b lb)"
proof -
  define I where "I i dc \<longleftrightarrow> (case dc of (d, c) \<Rightarrow> length d = length dest \<and> c \<in> {0, 1} \<and>
    int (lsum d i) - c * int (BASE ^ i) = int (lsum a i) - int (esum b lb i))" for i and dc :: "big \<times> int"
  have "\<exists>s'. for_upto (sub_step a b la lb) la (dest, 0) = Ok s' \<and> I la s'"
  proof (rule for_upto_rule)
    show "I 0 (dest, 0)" by (simp add: I_def)
    fix i s assume i: "i < la" and inv: "I i s"
    obtain d c where s: "s = (d, c)" by fastforce
    have d: "length d = length dest" "c \<in> {0, 1}"
      "int (lsum d i) - c * int (BASE ^ i) = int (lsum a i) - int (esum b lb i)"
      using inv by (auto simp: I_def s)
    define x where "x = unat (a ! Suc (Suc i))"
    define y where "y = (if i < lb then unat (b ! Suc (Suc i)) else 0)"
    define t where "t = int x - int y - c"
    define t' where "t' = (if t < 0 then t + 2 ^ 32 else t)"
    define c' where "c' = (if t < 0 then 1 else 0 :: int)"
    have B: "int BASE = 2 ^ 32" by (simp add: BASE_def)
    have "x < BASE" "y < BASE" by (simp_all add: x_def y_def)
    then have "int x < 2 ^ 32" "int y < 2 ^ 32" unfolding B [symmetric] by simp_all
    then have t': "0 \<le> t'" "t' < 2 ^ 32" "t' = t + c' * int BASE"
      using d(2) unfolding B by (auto simp: t'_def c'_def t_def)
    have y: "limb_or_0 b lb i = Ok y" using assms(2) by (simp add: limb_or_0_Ok y_def)
    have "int x - int y < c \<longleftrightarrow> t < 0" by (simp add: t_def)
    then have step: "sub_step a b la lb i s = Ok (d[2 + i := word_of_int t'], c')"
      using assms i d(1)
      by (simp add: sub_step_def s y Let_def t'_def c'_def del: of_nat_unat flip: x_def t_def)
    have u: "int (unat (word_of_int t' :: u32)) = t'"
      using t'(1,2) by (simp add: unsigned_of_int take_bit_int_eq_self)
    have "int (lsum (d[2 + i := word_of_int t']) (Suc i)) - c' * int (BASE ^ Suc i) =
        int (lsum d i) + (t' - c' * int BASE) * int (BASE ^ i)"
      using d(1) i assms(3) u by (simp add: lsum_Suc algebra_simps)
    also have "\<dots> = int (lsum d i) - c * int (BASE ^ i) + int x * int (BASE ^ i) - int y * int (BASE ^ i)"
      unfolding t'(3) t_def by (simp add: algebra_simps)
    also have "\<dots> = int (lsum a i + x * BASE ^ i) - int (esum b lb i + y * BASE ^ i)"
      unfolding d(3) by simp
    also have "\<dots> = int (lsum a (Suc i)) - int (esum b lb (Suc i))"
      by (simp add: lsum_Suc esum_Suc x_def y_def)
    finally show "\<exists>s'. sub_step a b la lb i s = Ok s' \<and> I (Suc i) s'"
      using step d(1) by (simp add: I_def c'_def)
  qed
  then show ?thesis using that assms(4) by (auto simp: I_def esum_ge)
qed

lemma sub_mag_Ok:
  assumes "wf_big a" and "wf_big b" and "mag b \<le> mag a" and "2 + count a \<le> length dest" and "length dest < BASE"
  obtains d where "sub_mag dest a b = Ok d" "length d = length dest" "wf_big d" "mag d = mag a - mag b" "d ! 0 = 0"
proof -
  have ba: "count b \<le> count a" using count_mono assms(1-3) by blast
  obtain d c where d: "for_upto (sub_step a b (count a) (count b)) (count a) (dest, 0) = Ok (d, c)"
    "length d = length dest" "c \<in> {0, 1}"
    "int (lsum d (count a)) - c * int (BASE ^ count a) = int (mag a) - int (mag b)"
    using sub_loop [of "count a" a "count b" b dest] wf_bigD(2) assms ba by (auto simp: mag_def)
  have "c = 0"
  proof (rule ccontr)
    assume "c \<noteq> 0"
    with d(3,4) have "int (lsum d (count a)) - int (BASE ^ count a) = int (mag a) - int (mag b)" by simp
    moreover have "int (lsum d (count a)) < int (BASE ^ count a)" using lsum_less by (simp del: of_nat_power)
    ultimately show False using assms(3) by linarith
  qed
  with d(4) assms(3) have l: "lsum d (count a) = mag a - mag b" by simp
  define d' where "d' = d[1 := word_of_nat (count a), 0 := 0]"
  have ne: "d \<noteq> []" "dest \<noteq> []" "1 < length d" using d(2) assms(4) by auto
  have u: "unat (word_of_nat (count a) :: u32) = count a" using assms(4,5) by (simp add: unat_of_nat_BASE)
  then have c: "count d' = count a" using ne by (simp add: d'_def)
  then have m: "mag d' = mag a - mag b" using l by (simp add: mag_def d'_def)
  have z: "d' ! 0 = 0" using ne by (simp add: d'_def)
  have "2 + count d' \<le> length d'" "length d' < BASE" "d' ! 0 \<in> {0, 1}"
    using c z assms(4,5) d(2) by (simp_all add: d'_def)
  from trim_Ok [OF this] obtain op' where "trim d' = Ok op'" "wf_big op'" "mag op' = mag d'"
    "length op' = length d'" "op' ! 0 = 0" using z by metis
  moreover have "sub_mag dest a b = trim d'"
    using assms(1,2) d(1,2) ne by (simp add: sub_mag_def d'_def)
  ultimately show ?thesis using that [of op'] m d(2) by (simp add: d'_def)
qed

section \<open>Addition and subtraction\<close>

lemma init_big [simp]: "length (init_big op) = length op" "i < length op \<Longrightarrow> init_big op ! i = 0"
  by (simp_all add: init_big_def)

lemma wf_init: "2 \<le> length op \<Longrightarrow> length op < BASE \<Longrightarrow> wf_big (init_big op) \<and> val (init_big op) = 0"
proof -
  assume a: "2 \<le> length op" "length op < BASE"
  then have "0 < length op" "1 < length op" by linarith+
  then have "init_big op ! 0 = 0" "init_big op ! 1 = 0" by (simp_all add: init_big_def)
  with a show ?thesis by (simp add: wf_big_def val_def mag_def count_def)
qed

lemma set_sign:
  assumes "wf_big d" and "s \<in> {0, 1}" and "mag d = 0 \<Longrightarrow> s = 0"
  shows "set_at d 0 s = (Ok (d[0 := s]) :: big ares)" "wf_big (d[0 := s])"
    "val (d[0 := s]) = (if s = 0 then int (mag d) else - int (mag d))"
proof -
  have ne: "d \<noteq> []" using wf_bigD(1) [OF assms(1)] by auto
  then show "set_at d 0 s = (Ok (d[0 := s]) :: big ares)" by simp
  have "count d = 0 \<Longrightarrow> s = 0" using assms(3) by (simp add: mag_def)
  then show "wf_big (d[0 := s])" using assms(1,2) ne by (auto simp: wf_big_def)
  show "val (d[0 := s]) = (if s = 0 then int (mag d) else - int (mag d))"
    using ne by (simp add: val_def)
qed

lemma add_big_Ok:
  assumes "wf_big a" and "wf_big b" and "2 + max (count a) (count b) + 1 \<le> length dest" and "length dest < BASE"
  obtains d where "add_big dest a b = Ok d" "length d = length dest" "wf_big d" "val d = val a + val b"
proof (cases "a ! 0 = b ! 0")
  case True
  obtain d where d: "add_mag dest a b = Ok d" "length d = length dest" "wf_big d" "mag d = mag a + mag b"
    using add_mag_Ok [OF assms] .
  have z: "mag d = 0 \<Longrightarrow> a ! 0 = 0" using d(4) mag_eq_0 [OF assms(1)] assms(1) by (simp add: wf_big_def)
  have s: "a ! 0 \<in> {0, 1}" using assms(1) by (simp add: wf_big_def)
  note d' = set_sign [OF d(3) s z]
  have "add_big dest a b = Ok (d[0 := a ! 0])"
    using assms(1,2) True d(1) d'(1,2) mag_eq_0 [OF d'(2)] z set_sign(1) [OF d(3), of 0]
      set_sign(1) [OF d'(2), of 0]
    by (auto simp: add_big_def Let_def)
  moreover have "val (d[0 := a ! 0]) = val a + val b"
    using d(4) d'(3) True by (simp add: val_def)
  ultimately show ?thesis using that [of "d[0 := a ! 0]"] d(2) d'(2) by simp
next
  case False
  have ab: "val a = (if a ! 0 = 0 then int (mag a) else - int (mag a))"
    "val b = (if b ! 0 = 0 then int (mag b) else - int (mag b))" "a ! 0 \<in> {0, 1}" "b ! 0 \<in> {0, 1}"
    using assms(1,2) by (simp_all add: val_def wf_big_def)
  have la: "2 + count a \<le> length dest" "2 + count b \<le> length dest" using assms(3) by simp_all
  consider "mag a = mag b" | "mag b < mag a" | "mag a < mag b" by linarith
  then show ?thesis
  proof cases
    case 1
    then have "add_big dest a b = Ok (init_big dest)"
      using False assms(1,2) by (simp add: add_big_def cmp_mag_eq Let_def)
    with that wf_init [of dest] assms(3,4) 1 ab False show ?thesis by (auto split: if_splits)
  next
    case 2
    obtain d where d: "sub_mag dest a b = Ok d" "length d = length dest" "wf_big d" "mag d = mag a - mag b"
      using sub_mag_Ok [OF assms(1,2) less_imp_le [OF 2] la(1) assms(4)] .
    have "mag d \<noteq> 0" using d(4) 2 by simp
    note d' = set_sign [OF d(3) ab(3)]
    have "add_big dest a b = Ok (d[0 := a ! 0])"
      using False 2 assms(1,2) d d'(1) \<open>mag d \<noteq> 0\<close> by (simp add: add_big_def cmp_mag_eq Let_def)
    moreover have "val (d[0 := a ! 0]) = val a + val b"
      using d(4) d'(3) \<open>mag d \<noteq> 0\<close> ab False 2 by (auto split: if_splits)
    ultimately show ?thesis using that [of "d[0 := a ! 0]"] d(2) d'(2) \<open>mag d \<noteq> 0\<close> by simp
  next
    case 3
    obtain d where d: "sub_mag dest b a = Ok d" "length d = length dest" "wf_big d" "mag d = mag b - mag a"
      using sub_mag_Ok [OF assms(2,1) less_imp_le [OF 3] la(2) assms(4)] .
    have "mag d \<noteq> 0" using d(4) 3 by simp
    note d' = set_sign [OF d(3) ab(4)]
    have "add_big dest a b = Ok (d[0 := b ! 0])"
      using False 3 assms(1,2) d d'(1) \<open>mag d \<noteq> 0\<close> by (simp add: add_big_def cmp_mag_eq Let_def)
    moreover have "val (d[0 := b ! 0]) = val a + val b"
      using d(4) d'(3) \<open>mag d \<noteq> 0\<close> ab False 3 by (auto split: if_splits)
    ultimately show ?thesis using that [of "d[0 := b ! 0]"] d(2) d'(2) \<open>mag d \<noteq> 0\<close> by simp
  qed
qed

end
