(* ===== verification/Big_Mul.thy ===== *)
theory Big_Mul
  imports Big_Add
begin

text \<open>Copies, subtraction and multiplication of big integers.\<close>

section \<open>Copies\<close>

lemma length_assign [simp]: "length (assign dest src) = length dest"
  by (simp add: assign_def Let_def)

lemma nth_assign: "k < length dest \<Longrightarrow> assign dest src ! k = (if k < length src then src ! k else 0)"
  by (auto simp: assign_def Let_def nth_append min_def)

lemma assign_same:
  assumes "2 + count src \<le> length src" and "2 + count src \<le> length dest"
  shows "count (assign dest src) = count src" "mag (assign dest src) = mag src" "assign dest src ! 0 = src ! 0"
proof -
  have "0 < length dest" "1 < length dest" "0 < length src" "1 < length src" using assms by linarith+
  then show c: "count (assign dest src) = count src" and "assign dest src ! 0 = src ! 0"
    by (simp_all add: count_def nth_assign)
  have "lsum (assign dest src) (count src) = lsum src (count src)"
    using assms by (intro lsum_cong) (simp add: nth_assign)
  then show "mag (assign dest src) = mag src" by (simp add: mag_def c)
qed

lemma assign_Ok:
  assumes "wf_big src" and "2 + count src \<le> length dest" and "length dest < BASE"
  shows "wf_big (assign dest src)" "val (assign dest src) = val src" "mag (assign dest src) = mag src"
    "count (assign dest src) = count src" "assign dest src ! 0 = src ! 0"
proof -
  have 2: "2 + count src \<le> length src" using assms(1) by (simp add: wf_big_def)
  note s = assign_same [OF 2 assms(2)]
  show "mag (assign dest src) = mag src" "count (assign dest src) = count src" "assign dest src ! 0 = src ! 0"
    by (fact s)+
  show "val (assign dest src) = val src" by (simp add: val_def s)
  have "assign dest src ! (1 + count src) = src ! (1 + count src)" using assms(2) 2 by (simp add: nth_assign)
  with assms s show "wf_big (assign dest src)" by (auto simp: wf_big_def)
qed

lemma count_le:
  assumes "wf_big op" and "mag op < BASE ^ m"
  shows "count op \<le> m"
proof (rule ccontr)
  assume "\<not> count op \<le> m"
  then have "count op \<noteq> 0" "BASE ^ m \<le> BASE ^ (count op - 1)" by (auto intro: power_increasing)
  with mag_top [OF assms(1)] assms(2) show False by linarith
qed

section \<open>Subtraction\<close>

lemma neg_flag: "w \<in> {0, 1} \<Longrightarrow> w XOR FLAG_NEG = (if w = 0 then 1 else 0)"
  by (auto simp: FLAG_NEG_def)

lemma sub_big_Ok:
  assumes "wf_big a" and "wf_big b" and "count b \<le> 128"
    and "2 + max (count a) (count b) + 1 \<le> length dest" and "length dest < BASE"
  obtains d where "sub_big dest a b = Ok d" "length d = length dest" "wf_big d" "val d = val a - val b"
proof -
  let ?n = "assign (replicate 130 0) b"
  have n: "wf_big ?n" "mag ?n = mag b" "count ?n = count b" "?n ! 0 = b ! 0"
    using assign_Ok [OF assms(2), of "replicate 130 0"] assms(3) by (simp_all add: BASE_def)
  define n' where "n' = (if count b = 0 then ?n else ?n[0 := ?n ! 0 XOR FLAG_NEG])"
  have b: "b ! 0 \<in> {0, 1}" "count b = 0 \<Longrightarrow> b ! 0 = 0" using assms(2) by (auto simp: wf_big_def)
  have "length ?n = 130" by simp
  then have "?n \<noteq> []" by (metis list.size(3) zero_neq_numeral)
  then have eq: "sub_big dest a b = add_big dest a n'"
    using n by (auto simp: sub_big_def n'_def)
  have n': "wf_big n' \<and> val n' = - val b \<and> count n' = count b"
  proof (cases "count b = 0")
    case True
    then show ?thesis using n b by (simp add: n'_def val_def mag_def)
  next
    case False
    then have "mag ?n \<noteq> 0" using n(1,3) mag_eq_0 by simp
    with set_sign(2,3) [OF n(1), of "?n ! 0 XOR FLAG_NEG"] n b False show ?thesis
      by (auto simp: n'_def neg_flag val_def)
  qed
  have "2 + max (count a) (count n') + 1 \<le> length dest" using n' assms(4) by simp
  from add_big_Ok [OF assms(1) conjunct1 [OF n'] this assms(5)] n' that show ?thesis unfolding eq by auto
qed

section \<open>Multiplication\<close>

lemma lsum_put:
  assumes "k < n" and "2 + k < length d"
  shows "lsum (d[2 + k := v]) n + unat (d ! (2 + k)) * BASE ^ k = lsum d n + unat v * BASE ^ k"
  using assms(1)
proof (induction n)
  case (Suc n)
  show ?case
  proof (cases "k = n")
    case True
    with assms(2) show ?thesis by (simp add: lsum_Suc)
  next
    case False
    with Suc assms(2) show ?thesis by (simp add: lsum_Suc nth_list_update)
  qed
qed simp

lemma mul_row:
  assumes "2 + i < length a" and "2 + lb \<le> length b" and "2 + (i + lb) \<le> length tmp"
  obtains d c where "for_upto (mul_inner a b i) lb (tmp, 0) = Ok (d, c)" "length d = length tmp" "c < BASE"
    "lsum d (i + lb) + c * BASE ^ (i + lb) = lsum tmp (i + lb) + unat (a ! (2 + i)) * lsum b lb * BASE ^ i"
    "\<And>k. i + lb \<le> k \<Longrightarrow> d ! (2 + k) = tmp ! (2 + k)"
proof -
  let ?x = "unat (a ! (2 + i))"
  define I where "I j dc \<longleftrightarrow> (case dc of (d, c) \<Rightarrow> length d = length tmp \<and> c < BASE \<and>
    lsum d (i + lb) + c * BASE ^ (i + j) = lsum tmp (i + lb) + ?x * lsum b j * BASE ^ i \<and>
    (\<forall>k \<ge> i + lb. d ! (2 + k) = tmp ! (2 + k)))" for j and dc :: "big \<times> nat"
  have "\<exists>s'. for_upto (mul_inner a b i) lb (tmp, 0) = Ok s' \<and> I lb s'"
  proof (rule for_upto_rule)
    show "I 0 (tmp, 0)" by (simp add: I_def)
    fix j s assume j: "j < lb" and inv: "I j s"
    obtain d c where s: "s = (d, c)" by fastforce
    have d: "length d = length tmp" "c < BASE"
      "lsum d (i + lb) + c * BASE ^ (i + j) = lsum tmp (i + lb) + ?x * lsum b j * BASE ^ i"
      "\<forall>k \<ge> i + lb. d ! (2 + k) = tmp ! (2 + k)"
      using inv by (auto simp: I_def s)
    define y where "y = unat (b ! (2 + j))"
    define t where "t = unat (d ! (2 + (i + j)))"
    define p where "p = t + ?x * y + c"
    have "?x \<le> BASE - 1" "y \<le> BASE - 1" "t \<le> BASE - 1" "c \<le> BASE - 1"
      using d(2) unat_less_BASE by (simp_all add: y_def t_def Suc_le_eq less_Suc_eq_le [symmetric])
    then have "p \<le> (BASE - 1) + (BASE - 1) * (BASE - 1) + (BASE - 1)"
      unfolding p_def by (intro add_mono mult_le_mono)
    also have "\<dots> < BASE * BASE" by (simp add: BASE_def)
    finally have p: "p < BASE * BASE" .
    then have "p \<le> U64_MAX" by (simp add: U64_MAX_def BASE_def)
    then have step: "mul_inner a b i j s = Ok (d[2 + (i + j) := word_of_nat p], p div BASE)"
      using assms j d(1)
      by (simp add: mul_inner_def s Let_def u64_checked_def p_def t_def y_def BASE_def add.assoc)
    let ?d = "d[2 + (i + j) := word_of_nat p]"
    have "lsum ?d (i + lb) + t * BASE ^ (i + j) + p div BASE * BASE ^ Suc (i + j) =
        lsum d (i + lb) + (p mod BASE * BASE ^ (i + j) + p div BASE * BASE ^ Suc (i + j))"
      using lsum_put [of "i + j" "i + lb" d "word_of_nat p"] j d(1) assms(3)
      by (simp add: t_def unat_of_nat_BASE)
    also have "\<dots> = lsum d (i + lb) + c * BASE ^ (i + j) + t * BASE ^ (i + j) + ?x * y * BASE ^ (i + j)"
      unfolding digit_split by (simp add: p_def add_mult_distrib)
    finally have "lsum ?d (i + lb) + p div BASE * BASE ^ (i + Suc j) =
        lsum tmp (i + lb) + (?x * lsum b j * BASE ^ i + ?x * y * BASE ^ (i + j))"
      unfolding d(3) by simp
    also have "?x * lsum b j * BASE ^ i + ?x * y * BASE ^ (i + j) = ?x * lsum b (Suc j) * BASE ^ i"
      by (simp add: lsum_Suc y_def power_add algebra_simps)
    finally have "lsum ?d (i + lb) + p div BASE * BASE ^ (i + Suc j) =
        lsum tmp (i + lb) + ?x * lsum b (Suc j) * BASE ^ i" .
    moreover have "p div BASE < BASE" using p by (simp add: less_mult_imp_div_less)
    moreover have "\<forall>k \<ge> i + lb. ?d ! (2 + k) = tmp ! (2 + k)" using d(4) j by (auto simp: nth_list_update)
    ultimately show "\<exists>s'. mul_inner a b i j s = Ok s' \<and> I (Suc j) s'"
      using step d(1) by (simp add: I_def)
  qed
  then show ?thesis using that by (auto simp: I_def)
qed

lemma mul_rows:
  assumes "2 + la \<le> length a" and "2 + lb \<le> length b"
  obtains d where "for_upto (mul_outer a b lb) la (replicate (2 + la + lb + 1) 0) = Ok d"
    "length d = 2 + la + lb + 1" "lsum d (la + lb) = lsum a la * lsum b lb"
proof -
  let ?z = "replicate (2 + la + lb + 1) 0 :: big"
  define I where "I i d \<longleftrightarrow> length d = 2 + la + lb + 1 \<and> lsum d (i + lb) = lsum a i * lsum b lb \<and>
    (\<forall>k. i + lb \<le> k \<and> k \<le> la + lb \<longrightarrow> d ! (2 + k) = 0)" for i and d :: big
  have "\<exists>d. for_upto (mul_outer a b lb) la ?z = Ok d \<and> I la d"
  proof (rule for_upto_rule)
    have "lsum ?z lb = 0" by (simp add: lsum_def nth_Cons split: nat.split)
    then show "I 0 ?z" by (auto simp: I_def nth_Cons split: nat.split)
    fix i d assume i: "i < la" and inv: "I i d"
    have d: "length d = 2 + la + lb + 1" "lsum d (i + lb) = lsum a i * lsum b lb"
      "\<And>k. i + lb \<le> k \<Longrightarrow> k \<le> la + lb \<Longrightarrow> d ! (2 + k) = 0"
      using inv by (auto simp: I_def)
    have le: "2 + i < length a" "2 + (i + lb) \<le> length d" using i assms(1) d(1) by simp_all
    obtain d' c where d': "for_upto (mul_inner a b i) lb (d, 0) = Ok (d', c)" "length d' = length d" "c < BASE"
      "lsum d' (i + lb) + c * BASE ^ (i + lb) = lsum d (i + lb) + unat (a ! (2 + i)) * lsum b lb * BASE ^ i"
      "\<And>k. i + lb \<le> k \<Longrightarrow> d' ! (2 + k) = d ! (2 + k)"
      using mul_row [OF le(1) assms(2) le(2)] by blast
    let ?d = "d'[2 + (i + lb) := word_of_nat c]"
    have "mul_outer a b lb i d = Ok ?d" using d' d(1) i by (simp add: mul_outer_def add.assoc)
    moreover have "lsum ?d (Suc i + lb) = lsum a (Suc i) * lsum b lb"
      using d'(2-4) d(1,2) i by (simp add: lsum_Suc unat_of_nat_BASE algebra_simps)
    moreover have "\<forall>k. Suc i + lb \<le> k \<and> k \<le> la + lb \<longrightarrow> ?d ! (2 + k) = 0"
      using d'(5) d(3) by auto
    ultimately show "\<exists>s'. mul_outer a b lb i d = Ok s' \<and> I (Suc i) s'"
      using d'(2) d(1) by (simp add: I_def)
  qed
  then show ?thesis using that by (auto simp: I_def)
qed

lemma mul_sign: "v \<in> {0, 1} \<Longrightarrow> w \<in> {0, 1} \<Longrightarrow> (v XOR w) AND FLAG_NEG = (if v = w then 0 else 1)"
  by (auto simp: FLAG_NEG_def)

lemma mul_big_Ok:
  assumes "wf_big a" and "wf_big b" and "count a + count b + 3 < BASE"
    and "2 \<le> length dest" and "length dest < BASE" and "mag a * mag b < BASE ^ (length dest - 2)"
  obtains d where "mul_big dest a b = Ok d" "length d = length dest" "wf_big d" "val d = val a * val b"
proof -
  let ?s = "(a ! 0 XOR b ! 0) AND FLAG_NEG"
  obtain d where d: "for_upto (mul_outer a b (count b)) (count a) (replicate (2 + count a + count b + 1) 0) = Ok d"
    "length d = 2 + count a + count b + 1" "lsum d (count a + count b) = mag a * mag b"
    using mul_rows [of "count a" a "count b" b] wf_bigD(2) assms(1,2) by (metis mag_def)
  define d' where "d' = d[1 := word_of_nat (count a + count b), 0 := ?s]"
  have ne: "d \<noteq> []" "1 < length d" using d(2) by auto
  have flags: "a ! 0 \<in> {0, 1}" "b ! 0 \<in> {0, 1}" using assms(1,2) by (auto simp: wf_big_def)
  have u: "unat (word_of_nat (count a + count b) :: u32) = count a + count b"
    using assms(3) unfolding unat_of_nat_BASE by simp
  then have c: "count d' = count a + count b" using ne by (simp add: d'_def)
  have s: "d' ! 0 = ?s" "?s \<in> {0, 1}" using ne mul_sign [OF flags] by (auto simp: d'_def)
  have m: "mag d' = mag a * mag b" using d(3) unfolding mag_def [of d'] c by (simp add: d'_def)
  have "2 + count d' \<le> length d'" "length d' < BASE" "d' ! 0 \<in> {0, 1}"
    using c s d(2) assms(3) by (simp_all add: d'_def)
  from trim_Ok [OF this] obtain op where op: "trim d' = Ok op" "wf_big op" "mag op = mag d'"
    "op ! 0 = (if mag d' = 0 then 0 else d' ! 0)" by metis
  have "2 + count op \<le> length dest" using count_le [OF op(2)] op(3) m assms(4,6) by fastforce
  note r = assign_Ok [OF op(2) this assms(5)]
  have "mul_big dest a b = Ok (assign dest op)"
    using assms(1,2) d(1) ne op(1) by (simp add: mul_big_def Let_def d'_def)
  moreover have "val (assign dest op) = val a * val b"
    using op(3,4) m s(1) mul_sign [OF flags] flags unfolding r(2) by (auto simp: val_def)
  ultimately show ?thesis using that [of "assign dest op"] r(1) by simp
qed

end
