(* ===== verification/Big_Div.thy ===== *)
theory Big_Div
  imports Big_Mul "HOL-Library.Signed_Division"
begin

text \<open>
  Bits, shifts and the restoring division. The divisor is shifted in a buffer of 130 words and
  \<open>shl_words\<close> leaves it unshifted when it does not fit; the division is correct for dividends of
  up to 127 limbs.
\<close>

section \<open>Bits of a limb\<close>

lemma bit_unat: "bit (w :: u32) n \<longleftrightarrow> odd (unat w div 2 ^ n)"
  by (simp add: bit_unsigned_iff flip: bit_iff_odd)

lemma bit_width_bounds:
  "unat (w :: u32) < 2 ^ n \<Longrightarrow> unat w < 2 ^ bit_width n w \<and> bit_width n w \<le> n \<and>
   (w \<noteq> 0 \<longrightarrow> 0 < bit_width n w \<and> 2 ^ (bit_width n w - 1) \<le> unat w)"
proof (induction n)
  case 0
  then show ?case by (simp add: unat_eq_zero)
next
  case (Suc n)
  have div: "unat w div 2 ^ n < 2" using Suc.prems by (simp add: div_less_iff_less_mult mult.commute)
  show ?case
  proof (cases "bit w n")
    case True
    then have "0 < unat w div 2 ^ n" by (simp add: bit_unat odd_pos)
    then have "2 ^ n \<le> unat w" using div_greater_zero_iff [of "unat w" "2 ^ n"] by simp
    with True Suc.prems show ?thesis by simp
  next
    case False
    with div have "unat w div 2 ^ n = 0" by (auto simp: bit_unat less_2_cases_iff)
    then have "unat w < 2 ^ n" by (simp add: div_eq_0_iff)
    with False Suc.IH show ?thesis by auto
  qed
qed

lemma or_low:
  assumes "x mod 2 ^ r = 0" and "y < 2 ^ r"
  shows "(x :: nat) OR y = x + y"
proof -
  have "\<not> bit x n \<or> \<not> bit y n" for n
  proof (cases "n < r")
    case True
    have "take_bit r x = 0" using assms(1) by (simp add: take_bit_eq_mod)
    then have "\<not> bit (take_bit r x) n" by simp
    with True show ?thesis by (simp add: bit_take_bit_iff)
  next
    case False
    have "take_bit r y = y" using assms(2) by (simp add: take_bit_nat_eq_self)
    then have "bit y n \<longleftrightarrow> bit (take_bit r y) n" by simp
    with False show ?thesis by (simp add: bit_take_bit_iff)
  qed
  then show ?thesis by (simp add: disjunctive_add)
qed

lemma unat_drop: "unat (drop_bit n (w :: u32)) = unat w div 2 ^ n"
proof -
  have "unat w < 2 ^ 32" using unat_less_BASE [of w] by (simp only: BASE_def)
  then show ?thesis by (simp only: unsigned_drop_bit_eq) (simp add: drop_bit_eq_div take_bit_eq_mod)
qed

lemma shl_limb:
  assumes "0 < r" and "r < 32" and "unat (c :: u32) < 2 ^ r"
  shows "unat (push_bit r w OR c) + unat (drop_bit (32 - r) w :: u32) * BASE = unat w * 2 ^ r + unat c"
proof -
  have B: "BASE = 2 ^ (32 - r) * 2 ^ r" using assms(2) by (simp add: BASE_def flip: power_add)
  have p: "unat (push_bit r w) = unat w * 2 ^ r mod BASE"
    by (simp only: unsigned_push_bit_eq) (simp add: take_bit_eq_mod push_bit_eq_mult BASE_def)
  also have "\<dots> = unat w mod 2 ^ (32 - r) * 2 ^ r" unfolding B by (simp add: mult_mod_left)
  finally have p': "unat (push_bit r w) = unat w mod 2 ^ (32 - r) * 2 ^ r" .
  have "unat w mod 2 ^ (32 - r) * 2 ^ r mod 2 ^ r = 0" by simp
  from or_low [OF this assms(3)] have "unat (push_bit r w OR c) = unat w mod 2 ^ (32 - r) * 2 ^ r + unat c"
    unfolding unsigned_or_eq p' .
  moreover have "unat (drop_bit (32 - r) w) = unat w div 2 ^ (32 - r)" by (rule unat_drop)
  moreover have "unat w mod 2 ^ (32 - r) * 2 ^ r + unat w div 2 ^ (32 - r) * BASE = unat w * 2 ^ r"
  proof -
    have "unat w mod 2 ^ (32 - r) * 2 ^ r + unat w div 2 ^ (32 - r) * BASE =
        (unat w div 2 ^ (32 - r) * 2 ^ (32 - r) + unat w mod 2 ^ (32 - r)) * 2 ^ r"
      unfolding B by (simp only: add_mult_distrib mult.assoc add.commute)
    then show ?thesis by (simp only: div_mult_mod_eq)
  qed
  ultimately show ?thesis by simp
qed

section \<open>Number of bits\<close>

lemma get_bit_count_0: "wf_big op \<Longrightarrow> count op = 0 \<Longrightarrow> get_bit_count op = 0"
  by (auto simp: get_bit_count_def limbs_or_nil_def limbs_def slice_range_def dest: wf_bigD(1))

lemma BASE_power: "BASE ^ n = 2 ^ (32 * n)"
  by (simp add: BASE_def power_mult)

lemma get_bit_count_bounds:
  assumes "wf_big op" and "count op \<noteq> 0"
  shows "2 ^ (get_bit_count op - 1) \<le> mag op" "mag op < 2 ^ get_bit_count op" "0 < get_bit_count op"
    "32 * (count op - 1) < get_bit_count op" "get_bit_count op \<le> 32 * count op"
proof -
  let ?n = "count op - 1" and ?w = "op ! (1 + count op)"
  let ?b = "bit_width 32 ?w"
  have "limbs op = Ok (take (count op) (drop 2 op))"
    using wf_bigD(2) [OF assms(1)] assms(1) by (simp add: limbs_def slice_range_def)
  moreover have "take (count op) (drop 2 op) \<noteq> []" "length (take (count op) (drop 2 op)) = count op"
    "last (take (count op) (drop 2 op)) = ?w"
    using wf_bigD(2) [OF assms(1)] assms(2) by (auto simp: last_conv_nth)
  ultimately have bc: "get_bit_count op = 32 * ?n + ?b"
    by (simp add: get_bit_count_def limbs_or_nil_def)
  have "unat ?w < 2 ^ 32" using unat_less_BASE [of ?w] by (simp only: BASE_def)
  moreover have "?w \<noteq> 0" using assms by (simp add: wf_big_def)
  ultimately have b: "unat ?w < 2 ^ ?b" "?b \<le> 32" "0 < ?b" "2 ^ (?b - 1) \<le> unat ?w"
    using bit_width_bounds [of ?w 32] by auto
  have m: "mag op = lsum op ?n + unat ?w * BASE ^ ?n"
    using lsum_Suc [of op ?n] assms(2) by (simp add: mag_def)
  show "0 < get_bit_count op" "32 * (count op - 1) < get_bit_count op" "get_bit_count op \<le> 32 * count op"
    using bc b(2,3) assms(2) by (simp_all)
  have "2 ^ (get_bit_count op - 1) = 2 ^ (?b - 1) * BASE ^ ?n"
    using b(3) by (simp add: bc BASE_power flip: power_add)
  also have "\<dots> \<le> unat ?w * BASE ^ ?n" using b(4) by (rule mult_le_mono1)
  finally show "2 ^ (get_bit_count op - 1) \<le> mag op" unfolding m by simp
  have "mag op < (unat ?w + 1) * BASE ^ ?n" unfolding m using lsum_less [of op ?n] by simp
  also have "\<dots> \<le> 2 ^ ?b * BASE ^ ?n" using b(1) by (intro mult_le_mono1) simp
  also have "\<dots> = 2 ^ get_bit_count op" by (simp add: bc BASE_power flip: power_add)
  finally show "mag op < 2 ^ get_bit_count op" .
qed

section \<open>Shifts\<close>

lemma lsum_shift:
  "(\<And>k. k < n \<Longrightarrow> d ! (2 + (words + k)) = op ! (2 + k)) \<Longrightarrow>
   lsum d (words + n) = lsum d words + lsum op n * BASE ^ words"
  by (induction n) (simp_all add: lsum_Suc power_add algebra_simps)

lemma shl_limbs_Ok:
  assumes "2 + n + words \<le> length op" and "length op < BASE" and "0 < words"
  obtains d where "shl_limbs words n op = Ok d" "length d = length op" "d ! 0 = op ! 0" "count d = n + words"
    "lsum d (n + words) = lsum op n * BASE ^ words"
proof -
  define I where "I i d \<longleftrightarrow> length d = length op \<and> d ! 0 = op ! 0 \<and>
    (\<forall>k < i. d ! (2 + k) = op ! (2 + k)) \<and> (\<forall>k < n. \<not> k < i \<longrightarrow> d ! (2 + (words + k)) = op ! (2 + k))"
    for i and d :: big
  have "\<exists>d. for_down (\<lambda>i op. res_bind (index op (2 + i)) (set_at op (2 + i + words))) n op = (Ok d :: big ares) \<and> I 0 d"
  proof (rule for_down_rule)
    show "I n op" by (auto simp: I_def)
    fix i d assume i: "i < n" and inv: "I (Suc i) d"
    have "res_bind (index d (2 + i)) (set_at d (2 + i + words)) = (Ok (d[2 + (words + i) := op ! (2 + i)]) :: big ares)"
      using i inv assms(1) by (simp add: I_def ac_simps)
    moreover have "I i (d[2 + (words + i) := op ! (2 + i)])"
      using inv i assms(1,3) by (auto simp: I_def nth_list_update less_Suc_eq)
    ultimately show "\<exists>s'. res_bind (index d (2 + i)) (set_at d (2 + i + words)) = (Ok s' :: big ares) \<and> I i s'" by blast
  qed
  then obtain d where d: "for_down (\<lambda>i op. res_bind (index op (2 + i)) (set_at op (2 + i + words))) n op = (Ok d :: big ares)"
    "I 0 d" by blast
  define J where "J i e \<longleftrightarrow> length e = length op \<and> e ! 0 = op ! 0 \<and> (\<forall>k < i. e ! (2 + k) = 0) \<and>
    (\<forall>k \<ge> words. e ! (2 + k) = d ! (2 + k))" for i and e :: big
  have "\<exists>e. for_upto (\<lambda>i op. set_at op (2 + i) 0) words d = (Ok e :: big ares) \<and> J words e"
  proof (rule for_upto_rule)
    show "J 0 d" using d(2) by (simp add: I_def J_def)
    fix i e assume "i < words" "J i e"
    then show "\<exists>s'. set_at e (2 + i) 0 = (Ok s' :: big ares) \<and> J (Suc i) s'"
      using assms(1) by (auto simp: J_def nth_list_update less_Suc_eq)
  qed
  then obtain e where e: "for_upto (\<lambda>i op. set_at op (2 + i) 0) words d = (Ok e :: big ares)" "J words e" by blast
  let ?e = "e[1 := word_of_nat (n + words)]"
  have len: "1 < length e" using e(2) assms(1) by (simp add: J_def)
  have "lsum e words = 0" using lsum_zeros [of 0 words e] e(2) by (simp add: J_def)
  moreover have "lsum e (words + n) = lsum e words + lsum op n * BASE ^ words"
    using d(2) e(2) by (intro lsum_shift) (simp add: I_def J_def)
  ultimately have "lsum ?e (n + words) = lsum op n * BASE ^ words" by (simp add: add.commute)
  moreover have "n + words < BASE" using assms(1,2) by simp
  then have "unat (word_of_nat (n + words) :: u32) = n + words" unfolding unat_of_nat_BASE by simp
  then have "count ?e = n + words" using len by simp
  moreover have "shl_limbs words n op = Ok ?e" unfolding shl_limbs_def using d(1) e(1) len by simp
  ultimately show ?thesis using that [of ?e] e(2) by (simp add: J_def)
qed

lemma shl_bits_loop:
  assumes "2 + n \<le> length op" and "0 < r" and "r < 32"
  obtains d c where "for_upto (shl_step r) n (op, 0) = Ok (d, c)" "length d = length op" "d ! 0 = op ! 0" "d ! 1 = op ! 1"
    "lsum d n + unat c * BASE ^ n = lsum op n * 2 ^ r"
proof -
  define I where "I i dc \<longleftrightarrow> (case dc of (d, c) \<Rightarrow> length d = length op \<and> d ! 0 = op ! 0 \<and> d ! 1 = op ! 1 \<and>
    unat c < 2 ^ r \<and> lsum d i + unat c * BASE ^ i = lsum op i * 2 ^ r \<and> (\<forall>k \<ge> i. d ! (2 + k) = op ! (2 + k)))"
    for i and dc :: "big \<times> u32"
  have "\<exists>s. for_upto (shl_step r) n (op, 0) = Ok s \<and> I n s"
  proof (rule for_upto_rule)
    show "I 0 (op, 0)" by (simp add: I_def)
    fix i s assume i: "i < n" and inv: "I i s"
    obtain d c where s: "s = (d, c)" by fastforce
    have d: "length d = length op" "d ! 0 = op ! 0" "d ! 1 = op ! 1" "unat c < 2 ^ r"
      "lsum d i + unat c * BASE ^ i = lsum op i * 2 ^ r" "\<And>k. i \<le> k \<Longrightarrow> d ! (2 + k) = op ! (2 + k)"
      using inv by (auto simp: I_def s)
    let ?w = "op ! (2 + i)"
    let ?d = "d[2 + i := push_bit r ?w OR c]" and ?c = "drop_bit (32 - r) ?w"
    have step: "shl_step r i s = Ok (?d, ?c)"
      using d(1) d(6) [of i] i assms(1) by (simp add: shl_step_def s)
    have "unat ?c = unat ?w div 2 ^ (32 - r)" by (rule unat_drop)
    moreover have "unat ?w < 2 ^ (32 - r) * 2 ^ r"
      using unat_less_BASE [of ?w] assms(3) by (simp add: BASE_def flip: power_add)
    ultimately have "unat ?c < 2 ^ r" by (simp add: div_less_iff_less_mult mult.commute)
    moreover have "lsum ?d (Suc i) + unat ?c * BASE ^ Suc i = lsum op (Suc i) * 2 ^ r"
    proof -
      have "lsum ?d (Suc i) + unat ?c * BASE ^ Suc i =
          lsum d i + (unat (push_bit r ?w OR c) + unat ?c * BASE) * BASE ^ i"
        using d(1) i assms(1) by (simp add: lsum_Suc add_mult_distrib)
      also have "\<dots> = lsum d i + unat c * BASE ^ i + unat ?w * 2 ^ r * BASE ^ i"
        unfolding shl_limb [OF assms(2,3) d(4)] by (simp add: add_mult_distrib)
      also have "\<dots> = lsum op (Suc i) * 2 ^ r" unfolding d(5) by (simp add: lsum_Suc algebra_simps)
      finally show ?thesis .
    qed
    ultimately show "\<exists>s'. shl_step r i s = Ok s' \<and> I (Suc i) s'"
      using step d(1-3,6) by (simp add: I_def)
  qed
  then show ?thesis using that by (auto simp: I_def)
qed

lemma shl_bits_Ok:
  assumes "wf_big op" and "count op \<noteq> 0" and "2 + count op < length op" and "0 < r" and "r < 32"
  obtains d where "shl_bits r op = Ok d" "length d = length op" "wf_big d" "mag d = mag op * 2 ^ r" "d ! 0 = op ! 0"
proof -
  let ?n = "count op"
  obtain d c where d: "for_upto (shl_step r) ?n (op, 0) = Ok (d, c)" "length d = length op" "d ! 0 = op ! 0"
    "d ! 1 = op ! 1" "lsum d ?n + unat c * BASE ^ ?n = mag op * 2 ^ r"
    using shl_bits_loop [OF _ assms(4,5), of ?n op] assms(3) by (auto simp: mag_def)
  define d' where "d' = (if c = 0 then d else d[2 + ?n := c, 1 := word_of_nat (?n + 1)])"
  have len: "1 < length d" "2 + ?n < length d" "?n + 1 < BASE"
    using d(2) assms(1,3) by (auto simp: wf_big_def)
  have "unat (word_of_nat (?n + 1) :: u32) = ?n + 1" using len(3) unfolding unat_of_nat_BASE by simp
  moreover have "count d = ?n" using d(4) by (simp add: count_def)
  ultimately have c: "count d' = (if c = 0 then ?n else ?n + 1)" using len by (simp add: d'_def)
  have m: "mag d' = mag op * 2 ^ r"
    using d(5) len by (auto simp: mag_def [of d'] c) (auto simp: d'_def lsum_Suc nth_list_update)
  have "d' ! (1 + count d') \<noteq> 0"
  proof (cases "c = 0")
    case True
    have "BASE ^ (?n - 1) \<le> mag op * 2 ^ r"
      using mag_top [OF assms(1,2)] by (metis le_trans mult_le_mono2 nat_mult_1_right one_le_numeral one_le_power)
    with m True c top_limb [of "?n - 1" d'] assms(2) show ?thesis by (simp add: mag_def)
  next
    case False
    then show ?thesis using c len by (simp add: d'_def)
  qed
  moreover have "d' ! 0 = op ! 0" "length d' = length op" using d(2,3) by (auto simp: d'_def)
  ultimately have "wf_big d'" using assms(1,2) c len d(2) by (auto simp: wf_big_def)
  moreover have "shl_bits r op = Ok d'"
    using assms(1,3) d(1,2) len by (simp add: shl_bits_def d'_def Let_def)
  ultimately show ?thesis using that [of d'] m \<open>d' ! 0 = op ! 0\<close> \<open>length d' = length op\<close> by simp
qed

lemma shl_words_Ok:
  assumes "wf_big op" and "count op \<noteq> 0" and "2 + count op + bits div 32 + 1 \<le> length op"
  obtains d where "shl_words op bits = Ok d" "length d = length op" "wf_big d" "mag d = mag op * 2 ^ bits"
    "d ! 0 = op ! 0"
proof (cases "bits = 0")
  case True
  then show ?thesis using that [of op] assms(1) by (simp add: shl_words_def)
next
  case False
  let ?w = "bits div 32" and ?r = "bits mod 32"
  obtain e where e: "(if 0 < ?w then shl_limbs ?w (count op) op else Ok op) = Ok e" "length e = length op"
    "wf_big e" "mag e = mag op * BASE ^ ?w" "count e = count op + ?w" "e ! 0 = op ! 0"
  proof (cases "0 < ?w")
    case True
    obtain d where d: "shl_limbs ?w (count op) op = Ok d" "length d = length op" "d ! 0 = op ! 0"
      "count d = count op + ?w" "lsum d (count op + ?w) = lsum op (count op) * BASE ^ ?w"
      using shl_limbs_Ok [of "count op" ?w op] assms(1,3) True by (auto simp: wf_big_def)
    have m: "mag d = mag op * BASE ^ ?w" using d(4,5) by (simp add: mag_def)
    have "BASE ^ (count op - 1) * BASE ^ ?w \<le> mag op * BASE ^ ?w"
      using mag_top [OF assms(1,2)] by simp
    then have "BASE ^ (count d - 1) \<le> lsum d (Suc (count d - 1))"
      using m assms(2) d(4) by (simp add: mag_def flip: power_add)
    from top_limb [OF this] have "wf_big d" using assms d(2-4) by (auto simp: wf_big_def)
    with that [of d] True d m show ?thesis by simp
  next
    case False
    then show ?thesis using that [of op] assms(1) by simp
  qed
  have s: "shl_words op bits = (if 0 < ?r then shl_bits ?r e else Ok e)"
    using False assms e(1) by (simp add: shl_words_def is_zero_def Let_def)
  have two: "2 ^ bits = BASE ^ ?w * 2 ^ ?r" by (simp add: BASE_power flip: power_add)
  show ?thesis
  proof (cases "0 < ?r")
    case True
    obtain d where "shl_bits ?r e = Ok d" "length d = length e" "wf_big d" "mag d = mag e * 2 ^ ?r" "d ! 0 = e ! 0"
      using shl_bits_Ok [OF e(3), of ?r] True e(2,5) assms(2,3) by auto
    with that [of d] s True e two show ?thesis by (simp add: mult.assoc)
  next
    case False
    with that [of e] s e two show ?thesis by simp
  qed
qed

end
