(* ===== verification/Big_Quot.thy ===== *)
theory Big_Quot
  imports Big_Div
begin

text \<open>The restoring division computes the truncated quotient and the remainder of the dividend's sign.\<close>

section \<open>The quotient under construction\<close>

definition quot_inv :: "nat \<Rightarrow> big \<Rightarrow> bool" where
  "quot_inv i q \<longleftrightarrow>
     2 + count q \<le> length q \<and> q ! 0 = 0 \<and>
     (\<forall>k. count q \<le> k \<and> 2 + k < length q \<longrightarrow> q ! (2 + k) = 0) \<and>
     (\<forall>k r. 2 + k < length q \<and> bit (q ! (2 + k)) r \<longrightarrow> i \<le> 32 * k + r)"

lemma quot_mag: "quot_inv i q \<Longrightarrow> mag q = lsum q (length q - 2)"
  unfolding mag_def by (rule lsum_zeros [symmetric]) (auto simp: quot_inv_def)

lemma or_bit:
  assumes "\<not> bit (l :: u32) r" and "r < 32"
  shows "unat (l OR push_bit r 1) = unat l + 2 ^ r"
proof -
  have "(2 :: nat) ^ r mod 2 ^ 32 = 2 ^ r" using assms(2) by (intro mod_less power_strict_increasing) simp_all
  then have p: "unat (push_bit r (1 :: u32)) = 2 ^ r"
    by (simp only: unsigned_push_bit_eq) (simp add: take_bit_eq_mod push_bit_eq_mult)
  have "\<not> bit (unat l) n \<or> \<not> bit (2 ^ r :: nat) n" for n
    using assms(1) by (auto simp: bit_exp_iff bit_unsigned_iff)
  from disjunctive_add [OF this] show ?thesis unfolding unsigned_or_eq p by simp
qed

lemma set_bit_Ok:
  assumes "quot_inv (Suc i) q" and "2 + i div 32 < length q" and "length q < BASE" and "i < BASE"
  obtains q' where "set_bit_big q (word_of_nat i) True = Ok q'" "length q' = length q" "quot_inv i q'"
    "mag q' = mag q + 2 ^ i"
proof -
  let ?k = "i div 32" and ?r = "i mod 32" and ?n = "length q - 2"
  let ?l = "q ! (2 + ?k)" and ?c = "max (count q) (?k + 1)"
  define q1 where "q1 = q[2 + ?k := ?l OR push_bit ?r 1]"
  define q' where "q' = (if count q < ?k + 1 then q1[1 := word_of_nat ?k + 1] else q1)"
  have q: "2 + count q \<le> length q" "q ! 0 = 0" "\<And>k. count q \<le> k \<Longrightarrow> 2 + k < length q \<Longrightarrow> q ! (2 + k) = 0"
    "\<And>k r. 2 + k < length q \<Longrightarrow> bit (q ! (2 + k)) r \<Longrightarrow> Suc i \<le> 32 * k + r"
    using assms(1) by (auto simp: quot_inv_def)
  have nb: "\<not> bit ?l ?r" using q(4) [OF assms(2), of ?r] by auto
  have ui: "unat (word_of_nat i :: u32) = i" using assms(4) by (simp add: unat_of_nat_BASE)
  have "?k + 1 < BASE" using assms(2,3) by linarith
  then have "unat (word_of_nat (?k + 1) :: u32) = ?k + 1" unfolding unat_of_nat_BASE by simp
  then have uk: "unat (word_of_nat ?k + 1 :: u32) = ?k + 1" by (simp add: add.commute)
  have lt: "q ! 1 < word_of_nat ?k + 1 \<longleftrightarrow> count q < ?k + 1" by (simp add: word_less_nat_alt uk count_def)
  have len: "1 < length q" "length q1 = length q" "length q' = length q" using q(1) by (auto simp: q1_def q'_def)
  have c: "count q' = ?c" using len uk by (auto simp: q'_def q1_def)
  have nth: "q' ! (2 + k) = (if k = ?k then ?l OR push_bit ?r 1 else q ! (2 + k))" if "2 + k < length q" for k
    using that by (simp add: q'_def q1_def nth_list_update)
  have "set_bit_big q (word_of_nat i) True = Ok q'"
    using assms(2) len lt by (simp add: set_bit_big_def ui Let_def q'_def q1_def)
  moreover have inv: "quot_inv i q'"
    unfolding quot_inv_def
  proof (intro conjI allI impI)
    show "2 + count q' \<le> length q'" using q(1) assms(2) c len by simp
    show "q' ! 0 = 0" using q(2) by (simp add: q'_def q1_def)
    fix k
    show "q' ! (2 + k) = 0" if "count q' \<le> k \<and> 2 + k < length q'"
      using that q(3) [of k] nth [of k] c len by auto
    show "i \<le> 32 * k + r" if "2 + k < length q' \<and> bit (q' ! (2 + k)) r" for r
    proof (cases "k = ?k \<and> r = ?r")
      case False
      then have "bit (q ! (2 + k)) r"
        using that nth [of k] len by (auto simp: bit_or_iff bit_exp_iff split: if_splits)
      then show ?thesis using q(4) [of k r] that len by simp
    qed auto
  qed
  moreover have "mag q' = mag q + 2 ^ i"
  proof -
    have "lsum q' ?n = lsum q1 ?n" by (simp add: q'_def)
    moreover have "lsum q1 ?n + unat ?l * BASE ^ ?k = lsum q ?n + (unat ?l + 2 ^ ?r) * BASE ^ ?k"
      using lsum_put [of ?k ?n q "?l OR push_bit ?r 1"] assms(2) or_bit [OF nb] by (simp add: q1_def)
    moreover have "2 ^ ?r * BASE ^ ?k = 2 ^ i" by (simp add: BASE_power flip: power_add)
    ultimately have "lsum q' ?n = lsum q ?n + 2 ^ i" by (simp add: add_mult_distrib)
    then show ?thesis using quot_mag [OF inv] quot_mag [OF assms(1)] len by simp
  qed
  ultimately show ?thesis using that [of q'] len by simp
qed

section \<open>The loop\<close>

lemma div_step_Ok:
  assumes dvs: "wf_big dvs" "count dvs \<noteq> 0" "count dvs + i div 32 \<le> 127"
    and q: "quot_inv (Suc i) q" "2 + i div 32 < length q" "length q < BASE" "i < BASE"
    and r: "wf_big rem" "rem ! 0 = 0" "count rem \<le> 127" "mag rem < 2 ^ Suc i * mag dvs"
  obtains q' rem' where "div_step dvs i (q, rem) = Ok (q', rem')" "length q' = length q" "length rem' = length rem"
    "quot_inv i q'" "wf_big rem'" "rem' ! 0 = 0" "count rem' \<le> 127" "mag rem' < 2 ^ i * mag dvs"
    "mag q' * mag dvs + mag rem' = mag q * mag dvs + mag rem"
proof -
  let ?s = "assign (replicate 130 0) dvs"
  have s: "wf_big ?s" "mag ?s = mag dvs" "count ?s = count dvs"
    using assign_Ok [OF dvs(1), of "replicate 130 0"] dvs(3) by (simp_all add: BASE_def)
  obtain sh where sh: "shl_words ?s i = Ok sh" "length sh = 130" "wf_big sh" "mag sh = mag dvs * 2 ^ i"
    using shl_words_Ok [OF s(1), of i] s(2,3) dvs(2,3) by auto
  show ?thesis
  proof (cases "mag sh \<le> mag rem")
    case True
    have l: "2 + count rem \<le> length (replicate 130 (0 :: u32))" "length (replicate 130 (0 :: u32)) < BASE"
      using r(3) by (simp_all add: BASE_def)
    obtain d where d: "sub_mag (replicate 130 0) rem sh = Ok d" "wf_big d" "mag d = mag rem - mag sh" "d ! 0 = 0"
      using sub_mag_Ok [OF r(1) sh(3) True l] by metis
    obtain q' where q': "set_bit_big q (word_of_nat i) True = Ok q'" "length q' = length q" "quot_inv i q'"
      "mag q' = mag q + 2 ^ i" using set_bit_Ok [OF q] .
    have cd: "count d \<le> count rem" using count_mono [OF d(2) r(1)] d(3) by simp
    then have "2 + count d \<le> length rem" "length rem < BASE" using r(1) by (auto simp: wf_big_def)
    note a = assign_Ok [OF d(2) this]
    have step: "div_step dvs i (q, rem) = Ok (q', assign rem d)"
      using True r(1) sh d(1) q'(1) by (simp add: div_step_def cmp_mag_eq)
    have "mag (assign rem d) < 2 ^ i * mag dvs" using r(4) d(3) sh(4) True a(3) by (simp add: algebra_simps)
    moreover have "mag q' * mag dvs + mag (assign rem d) = mag q * mag dvs + mag rem"
      using q'(4) d(3) sh(4) True a(3) by (simp add: algebra_simps)
    ultimately show ?thesis using that [OF step] q' a cd r(3) d(4) by simp
  next
    case False
    then have "div_step dvs i (q, rem) = Ok (q, rem)"
      using r(1) sh by (simp add: div_step_def cmp_mag_eq)
    moreover have "quot_inv i q" using q(1) by (fastforce simp: quot_inv_def)
    ultimately show ?thesis using that [of q rem] False sh(4) r by (simp add: algebra_simps)
  qed
qed

lemma shift_fits:
  assumes "wf_big rem" and "wf_big dvs" and "count rem \<noteq> 0" and "count dvs \<noteq> 0" and "count rem \<le> 127"
    and "i < get_bit_count rem - get_bit_count dvs + 1" and "get_bit_count dvs \<le> get_bit_count rem"
  shows "count dvs + i div 32 \<le> 127" "i div 32 < count rem" "i < BASE"
proof -
  note b = get_bit_count_bounds(3-5)
  have "32 * (count dvs - 1) + 1 + i \<le> 32 * count rem"
    using b(2) [OF assms(2,4)] b(3) [OF assms(1,3)] assms(6,7) by linarith
  moreover have "32 * (i div 32) \<le> i" by simp
  ultimately show "count dvs + i div 32 \<le> 127" "i div 32 < count rem" using assms(4,5) by linarith+
  have "i < 32 * 127" using b(1) [OF assms(2,4)] b(3) [OF assms(1,3)] assms(5-7) by linarith
  then show "i < BASE" by (simp add: BASE_def)
qed

lemma div_loop:
  assumes dvs: "wf_big dvs" "count dvs \<noteq> 0"
    and q: "quot_inv (get_bit_count rem - get_bit_count dvs + 1) q" "2 + count rem \<le> length q" "length q < BASE"
    and r: "wf_big rem" "rem ! 0 = 0" "count rem \<le> 127" "mag dvs \<le> mag rem"
  obtains q' rem' where
    "for_down (div_step dvs) (get_bit_count rem - get_bit_count dvs + 1) (q, rem) = Ok (q', rem')"
    "length q' = length q" "length rem' = length rem" "quot_inv 0 q'" "wf_big rem'" "rem' ! 0 = 0"
    "mag rem' < mag dvs" "mag q' * mag dvs + mag rem' = mag q * mag dvs + mag rem"
proof -
  let ?n = "get_bit_count rem - get_bit_count dvs + 1"
  define I where "I i qr \<longleftrightarrow> (case qr of (q', rem') \<Rightarrow> length q' = length q \<and> length rem' = length rem \<and>
    quot_inv i q' \<and> wf_big rem' \<and> rem' ! 0 = 0 \<and> count rem' \<le> 127 \<and> mag rem' < 2 ^ i * mag dvs \<and>
    mag q' * mag dvs + mag rem' = mag q * mag dvs + mag rem)" for i and qr :: "big \<times> big"
  have cr: "count rem \<noteq> 0" using count_mono [OF dvs(1) r(1,4)] dvs(2) by simp
  note bd = get_bit_count_bounds [OF dvs] and br = get_bit_count_bounds [OF r(1) cr]
  have le: "get_bit_count dvs \<le> get_bit_count rem"
  proof (rule ccontr)
    assume "\<not> ?thesis"
    then have "(2 :: nat) ^ get_bit_count rem \<le> 2 ^ (get_bit_count dvs - 1)" by (intro power_increasing) auto
    with bd(1) br(2) r(4) show False by linarith
  qed
  have "\<exists>s. for_down (div_step dvs) ?n (q, rem) = Ok s \<and> I 0 s"
  proof (rule for_down_rule)
    have "2 ^ ?n * (2 :: nat) ^ (get_bit_count dvs - 1) = 2 ^ (?n + (get_bit_count dvs - 1))" by (simp only: power_add)
    also have "?n + (get_bit_count dvs - 1) = get_bit_count rem" using le bd(3) by simp
    finally have "2 ^ get_bit_count rem = 2 ^ ?n * (2 :: nat) ^ (get_bit_count dvs - 1)" by simp
    also have "\<dots> \<le> 2 ^ ?n * mag dvs" using bd(1) by simp
    finally have "mag rem < 2 ^ ?n * mag dvs" using br(2) by linarith
    with q r show "I ?n (q, rem)" by (simp add: I_def)
    fix i s assume i: "i < ?n" and inv: "I (Suc i) s"
    obtain q1 r1 where s: "s = (q1, r1)" by fastforce
    have v: "length q1 = length q" "length r1 = length rem" "quot_inv (Suc i) q1" "wf_big r1" "r1 ! 0 = 0"
      "count r1 \<le> 127" "mag r1 < 2 ^ Suc i * mag dvs" "mag q1 * mag dvs + mag r1 = mag q * mag dvs + mag rem"
      using inv by (auto simp: I_def s)
    note f = shift_fits [OF r(1) dvs(1) cr dvs(2) r(3) i le]
    have lq: "2 + i div 32 < length q1" "length q1 < BASE" using f(2) q(2,3) v(1) by simp_all
    obtain q2 r2 where "div_step dvs i (q1, r1) = Ok (q2, r2)" "length q2 = length q1" "length r2 = length r1"
      "quot_inv i q2" "wf_big r2" "r2 ! 0 = 0" "count r2 \<le> 127" "mag r2 < 2 ^ i * mag dvs"
      "mag q2 * mag dvs + mag r2 = mag q1 * mag dvs + mag r1"
      using div_step_Ok [OF dvs f(1) v(3) lq f(3) v(4-7)] .
    with v(1,2,8) show "\<exists>s'. div_step dvs i s = Ok s' \<and> I i s'" by (simp add: I_def s)
  qed
  then show ?thesis using that by (auto simp: I_def)
qed

section \<open>Division\<close>

lemma unsigned_copy:
  assumes "wf_big a" and "2 + count a \<le> length d" and "length d < BASE"
  shows "set_at (assign d a) 0 0 = (Ok ((assign d a)[0 := 0]) :: big ares)" "wf_big ((assign d a)[0 := 0])"
    "mag ((assign d a)[0 := 0]) = mag a" "count ((assign d a)[0 := 0]) = count a" "(assign d a)[0 := 0] ! 0 = 0"
    "val ((assign d a)[0 := 0]) = \<bar>val a\<bar>"
proof -
  note a = assign_Ok [OF assms]
  note s = set_sign [OF a(1), of 0]
  show "set_at (assign d a) 0 0 = (Ok ((assign d a)[0 := 0]) :: big ares)" "wf_big ((assign d a)[0 := 0])"
    "mag ((assign d a)[0 := 0]) = mag a" "count ((assign d a)[0 := 0]) = count a"
    using a s by simp_all
  have "d \<noteq> []" using assms(2) by auto
  then show "(assign d a)[0 := 0] ! 0 = 0" by simp
  show "val ((assign d a)[0 := 0]) = \<bar>val a\<bar>" using s(3) a(3) by (simp add: val_def)
qed

lemma quot_inv_init: "2 \<le> length q \<Longrightarrow> quot_inv i (init_big q)"
proof -
  assume a: "2 \<le> length q"
  then have "0 < length q" "1 < length q" by linarith+
  then have "init_big q ! 0 = 0" "init_big q ! 1 = 0" by (simp_all add: init_big_def)
  with a show ?thesis by (auto simp: quot_inv_def count_def)
qed

lemma sign_trim:
  assumes "2 + count d \<le> length d" and "length d < BASE" and "s \<in> {0, 1}"
  obtains e where "res_bind (set_at d 0 s) trim = (Ok e :: big ares)" "wf_big e" "length e = length d"
    "val e = (if s = 0 then int (mag d) else - int (mag d))"
proof -
  have ne: "d \<noteq> []" using assms(1) by auto
  have "2 + count (d[0 := s]) \<le> length (d[0 := s])" "length (d[0 := s]) < BASE" "d[0 := s] ! 0 \<in> {0, 1}"
    using assms ne by simp_all
  from trim_Ok [OF this] obtain e where "trim (d[0 := s]) = Ok e" "wf_big e" "mag e = mag (d[0 := s])"
    "length e = length (d[0 := s])" "e ! 0 = (if mag (d[0 := s]) = 0 then 0 else d[0 := s] ! 0)" .
  then show ?thesis using that [of e] ne by (simp add: val_def)
qed

lemma div_big_Ok:
  assumes "wf_big a" and "wf_big b" and "val b \<noteq> 0" and "count a \<le> 127" and "count b \<le> 128"
    and "2 + count a \<le> length quot" and "length quot < BASE" and "2 + count a \<le> length rem" and "length rem < BASE"
  obtains q r where "div_big quot rem a b = Ok (q, r)" "length q = length quot" "length r = length rem"
    "wf_big q" "wf_big r" "val q = val a sdiv val b" "val r = val a smod val b"
proof -
  let ?z = "replicate 130 0 :: big"
  let ?q = "init_big quot"
  define R where "R = (assign rem a)[0 := 0]"
  define V where "V = (assign ?z b)[0 := 0]"
  let ?sr = "a ! 0" and ?sq = "(a ! 0 XOR b ! 0) AND FLAG_NEG"
  note r = unsigned_copy [OF assms(1,8,9), folded R_def]
  have "2 + count b \<le> length ?z" "length ?z < BASE" using assms(5) by (simp_all add: BASE_def)
  note d = unsigned_copy [OF assms(2) this, folded V_def]
  have D: "mag b \<noteq> 0" "count b \<noteq> 0" using assms(3) mag_eq_0 [OF assms(2)] by (auto simp: val_def split: if_splits)
  have flags: "a ! 0 \<in> {0, 1}" "b ! 0 \<in> {0, 1}" using assms(1,2) by (auto simp: wf_big_def)
  have dv: "val a sdiv val b = (if ?sq = 0 then int (mag a div mag b) else - int (mag a div mag b))"
    "val a smod val b = (if ?sr = 0 then int (mag a mod mag b) else - int (mag a mod mag b))"
    using flags mul_sign [OF flags]
    by (auto simp: val_def signed_divide_int_def signed_modulo_int_def sgn_if zdiv_int zmod_int split: if_splits)
  have z: "\<not> is_zero b" using assms(2,3) by (simp add: is_zero_iff)
  have lR: "length R = length rem" by (simp add: R_def)
  show ?thesis
  proof (cases "mag a < mag b")
    case True
    have qz: "wf_big ?q" "val ?q = 0" "length ?q = length quot" using wf_init [of quot] assms(6,7) by simp_all
    have s: "mag R = 0 \<Longrightarrow> ?sr = 0" using r(3) assms(1) mag_eq_0 [OF assms(1)] by (simp add: wf_big_def)
    note rs = set_sign [OF r(2) flags(1) s]
    have "div_big quot rem a b = Ok (?q, R[0 := ?sr])"
      using True z r(1) d(1) rs(1) assms(1) cmp_mag_eq [OF r(2) d(2)] r(3) d(3) by (simp add: div_big_def Let_def R_def V_def)
    with that [of ?q "R[0 := ?sr]"] qz rs(2,3) r(3) dv lR True show ?thesis by simp
  next
    case False
    have q: "quot_inv (get_bit_count R - get_bit_count V + 1) ?q" using quot_inv_init assms(6) by simp
    have "2 + count R \<le> length ?q" "length ?q < BASE" "count R \<le> 127" "mag V \<le> mag R" "count V \<noteq> 0"
      using assms(4,6,7) r(3,4) d(3,4) False D by simp_all
    note l = div_loop [OF d(2) this(5) q this(1,2) r(2,5) this(3,4)]
    define n where "n = get_bit_count R - get_bit_count V + 1"
    obtain q1 r1 where l: "for_down (div_step V) n (?q, R) = Ok (q1, r1)"
      "length q1 = length quot" "length r1 = length rem" "quot_inv 0 q1" "wf_big r1"
      "mag r1 < mag b" "mag q1 * mag b + mag r1 = mag ?q * mag b + mag a"
      using l unfolding r(3) d(3) lR init_big(1) n_def by blast
    have "mag ?q = 0" using wf_init [of quot] assms(6,7) mag_eq_0 [of ?q] by (simp add: val_def split: if_splits)
    with l(7) have ma: "mag a = mag q1 * mag b + mag r1" by simp
    have dm: "mag a div mag b = mag q1" "mag a mod mag b = mag r1"
      unfolding ma using l(6) D(1) by simp_all
    have c: "2 + count q1 \<le> length q1" "length q1 < BASE" "2 + count r1 \<le> length r1" "length r1 < BASE"
      using l(2-5) assms(7,9) by (auto simp: quot_inv_def wf_big_def)
    have sq: "?sq \<in> {0, 1}" using mul_sign [OF flags] by simp
    obtain q2 where q2: "res_bind (set_at q1 0 ?sq) trim = Ok q2" "wf_big q2" "length q2 = length q1"
      "val q2 = (if ?sq = 0 then int (mag q1) else - int (mag q1))" using sign_trim [OF c(1,2) sq] .
    obtain r2 where r2: "res_bind (set_at r1 0 ?sr) trim = Ok r2" "wf_big r2" "length r2 = length r1"
      "val r2 = (if ?sr = 0 then int (mag r1) else - int (mag r1))" using sign_trim [OF c(3,4) flags(1)] .
    have ne: "q1 \<noteq> []" "r1 \<noteq> []" using c by auto
    have "div_big quot rem a b = Ok (q2, r2)"
      using False z r(1) d(1) l(1) assms(1,2) cmp_mag_eq [OF r(2) d(2)] r(3) d(3) q2(1) r2(1) ne
      by (simp add: div_big_def Let_def R_def V_def n_def del: for_down.simps)
    with that [of q2 r2] q2 r2 l(2,3) dv dm show ?thesis by simp
  qed
qed

end
