(* ===== verification/Big_Mod.thy ===== *)
theory Big_Mod
  imports Big_Quot
begin

text \<open>Modular arithmetic: reduction, products and powers.\<close>

lemma val_mag: "wf_big a \<Longrightarrow> 0 \<le> val a \<Longrightarrow> int (mag a) = val a"
  using mag_eq_0 [of a] by (auto simp: val_def split: if_splits)

lemma abs_val: "\<bar>val a\<bar> = int (mag a)"
  by (simp add: val_def)

lemma count_le_abs:
  assumes "wf_big a" and "wf_big b" and "\<bar>val a\<bar> \<le> \<bar>val b\<bar>"
  shows "count a \<le> count b"
  using count_mono [OF assms(1,2)] assms(3) by (simp add: abs_val)

lemma count_mod:
  assumes "wf_big x" and "wf_big n" and "0 < val n" and "val x = v mod val n"
  shows "count x \<le> count n"
  using count_le_abs [OF assms(1,2)] pos_mod_bound [OF assms(3), of v] assms(3,4) by simp

lemma length_zeros [simp]: "length (replicate n (0 :: u32)) = n"
  by simp

lemma smod_nonneg: "0 \<le> a \<Longrightarrow> 0 < b \<Longrightarrow> a smod b = a mod (b :: int)"
  by (simp add: signed_modulo_int_def sgn_if)

lemma mod_abs:
  "(a :: int) mod n = (if a < 0 \<and> \<bar>a\<bar> mod n \<noteq> 0 then n - \<bar>a\<bar> mod n else \<bar>a\<bar> mod n)"
  using zmod_zminus1_eq_if [of "- a" n] by (cases "a < 0") simp_all

lemma modulo_big_Ok:
  assumes "wf_big op" and "wf_big n" and "0 < val n" and "count op \<le> 127" and "count n \<le> 127"
    and "2 + count op \<le> length dest" and "2 + count n \<le> length dest" and "length dest < BASE"
  obtains d where "modulo_big dest op n = Ok d" "wf_big d" "length d = length dest" "val d = val op mod val n"
proof -
  let ?z = "replicate 130 0 :: big"
  have z: "2 + count op \<le> length ?z" "length ?z < BASE" using assms(4) by (simp_all add: BASE_def)
  have n: "val n \<noteq> 0" "count n \<le> 128" using assms(3,5) by simp_all
  obtain q r where qr: "div_big ?z dest op n = Ok (q, r)" "length r = length dest" "wf_big r"
    "val r = val op smod val n"
    using div_big_Ok [OF assms(1,2) n(1) assms(4) n(2) z assms(6,8)] by metis
  let ?r = "r[0 := 0]"
  note s = set_sign [OF qr(3), of 0, simplified]
  have vr: "val ?r = \<bar>val op\<bar> mod val n"
    using s(3) qr(4) assms(3) abs_val [of r] by (auto simp: signed_modulo_int_def sgn_if abs_mult split: if_splits)
  have neg: "first_or_0 op AND FLAG_NEG \<noteq> 0 \<longleftrightarrow> val op < 0" using assms(1) val_sign by simp
  have m: "modulo_big dest op n =
      (if val op < 0 \<and> val ?r \<noteq> 0 then res_bind (sub_big ?z n ?r) (\<lambda>t. set_at (assign ?r t) 0 0) else Ok ?r)"
    using qr(1) s(1,2) neg by (simp add: modulo_big_def is_zero_iff)
  show ?thesis
  proof (cases "val op < 0 \<and> val ?r \<noteq> 0")
    case True
    have r: "0 < val ?r" "val ?r < val n" using vr True assms(3) pos_mod_sign [OF assms(3), of "\<bar>val op\<bar>"] pos_mod_bound [OF assms(3), of "\<bar>val op\<bar>"]
      by linarith+
    have c: "count ?r \<le> count n" using count_le_abs [OF s(2) assms(2)] r by simp
    then have l: "count ?r \<le> 128" "2 + max (count n) (count ?r) + 1 \<le> length ?z" using assms(5) by simp_all
    obtain t where t: "sub_big ?z n ?r = Ok t" "wf_big t" "val t = val n - val ?r"
      using sub_big_Ok [OF assms(2) s(2) l z(2)] by metis
    have "count t \<le> count n" using count_le_abs [OF t(2) assms(2)] t(3) r by simp
    then have "2 + count t \<le> length ?r" "length ?r < BASE" using assms(7,8) qr(2) by simp_all
    note u = unsigned_copy [OF t(2) this]
    have "val op mod val n = val n - val ?r" using mod_abs [of "val op" "val n"] True unfolding vr [symmetric] by simp
    moreover have "modulo_big dest op n = Ok ((assign ?r t)[0 := 0])" unfolding m if_P [OF True] using t(1) u by simp
    moreover have "length ((assign ?r t)[0 := 0]) = length dest" "val ((assign ?r t)[0 := 0]) = val n - val ?r"
      using u r t(3) qr(2) by simp_all
    ultimately show ?thesis using that u by metis
  next
    case False
    have "val op mod val n = val ?r" using mod_abs [of "val op" "val n"] False unfolding vr [symmetric] by (simp only: if_False simp_thms)
    moreover have "modulo_big dest op n = Ok ?r" unfolding m if_not_P [OF False] ..
    moreover have "length ?r = length dest" using qr(2) by simp
    ultimately show ?thesis using that [of ?r] s(2) by metis
  qed
qed

lemma count_mul:
  assumes "wf_big a" and "wf_big b" and "wf_big c" and "val c = val a * val b"
  shows "count c \<le> count a + count b"
proof (rule count_le [OF assms(3)])
  have "int (mag c) = int (mag a * mag b)" using assms(4) abs_val [of c] by (simp add: abs_mult flip: abs_val)
  then have "mag c = mag a * mag b" by (simp only: of_nat_eq_iff)
  also have "\<dots> < BASE ^ count a * BASE ^ count b"
    using mag_less [of a] mag_less [of b] by (intro mult_strict_mono) simp_all
  finally show "mag c < BASE ^ (count a + count b)" by (simp add: power_add)
qed

lemma mul_mod_Ok:
  assumes "wf_big a" and "wf_big b" and "wf_big n" and "0 < val n" and "count a + count b \<le> 127" and "count n \<le> 127"
    and "2 + (count a + count b) \<le> length dest" and "2 + count n \<le> length dest" and "length dest < BASE"
  obtains d where "mul_mod dest a b n = Ok d" "wf_big d" "length d = length dest" "val d = val a * val b mod val n"
proof -
  let ?z = "replicate 260 0 :: big"
  have "mag a * mag b < BASE ^ count a * BASE ^ count b"
    using mag_less [of a] mag_less [of b] by (intro mult_strict_mono) simp_all
  also have "\<dots> \<le> BASE ^ (length ?z - 2)" using assms(5) by (simp flip: power_add add: power_increasing)
  finally have "mag a * mag b < BASE ^ (length ?z - 2)" .
  moreover have "count a + count b + 3 < BASE" "2 \<le> length ?z" "length ?z < BASE" using assms(5) by (simp_all add: BASE_def)
  ultimately obtain s where s: "mul_big ?z a b = Ok s" "wf_big s" "val s = val a * val b"
    using mul_big_Ok [OF assms(1,2)] by metis
  have "count s \<le> count a + count b" using count_mul assms(1,2) s(2,3) by blast
  then have "count s \<le> 127" "2 + count s \<le> length dest" using assms(5,7) by simp_all
  from modulo_big_Ok [OF s(2) assms(3,4) this(1) assms(6) this(2) assms(8,9)] obtain d where
    "modulo_big dest s n = Ok d" "wf_big d" "length d = length dest" "val d = val s mod val n" .
  with that [of d] s show ?thesis by (simp add: mul_mod_def)
qed

section \<open>Powers\<close>

lemma lsum_limb: "k < n \<Longrightarrow> lsum op n div BASE ^ k mod BASE = unat (op ! (2 + k))"
proof (induction n)
  case (Suc n)
  show ?case
  proof (cases "k = n")
    case True
    then show ?thesis using lsum_less [of op n] by (simp add: lsum_Suc)
  next
    case False
    with Suc.prems have k: "k < n" by simp
    have "BASE ^ n = BASE ^ k * BASE ^ (n - k)" using k by (simp flip: power_add)
    then have "lsum op (Suc n) = lsum op n + BASE ^ k * (unat (op ! (2 + n)) * BASE ^ (n - k))"
      by (simp add: lsum_Suc)
    then have "lsum op (Suc n) div BASE ^ k = lsum op n div BASE ^ k + unat (op ! (2 + n)) * BASE ^ (n - k)"
      by simp
    moreover have "BASE dvd BASE ^ (n - k)" using k by (simp add: dvd_power)
    ultimately show ?thesis using Suc.IH [OF k] by (simp add: mod_add_right_eq [symmetric] mod_mult_right_eq [symmetric] dvd_imp_mod_0)
  qed
qed simp

lemma get_bit_eq:
  assumes "wf_big e" and "i < BASE" and "i < 32 * count e"
  shows "get_bit e (word_of_nat i) \<longleftrightarrow> bit (mag e) i"
proof -
  let ?k = "i div 32" and ?r = "i mod 32"
  have u: "unat (word_of_nat i :: u32) = i" using assms(2) by (simp add: unat_of_nat_BASE)
  have k: "?k < count e" using assms(3) by linarith
  have "get_bit e (word_of_nat i) \<longleftrightarrow> bit (e ! (2 + ?k)) ?r"
    using k assms(1) by (simp add: get_bit_def u Let_def bit_iff_and_drop_bit_eq_1)
  also have "\<dots> \<longleftrightarrow> bit (unat (e ! (2 + ?k))) ?r" by (simp add: bit_unsigned_iff)
  also have "unat (e ! (2 + ?k)) = take_bit 32 (drop_bit (32 * ?k) (mag e))"
    using lsum_limb [OF k, of e, unfolded BASE_power] by (simp add: mag_def take_bit_eq_mod drop_bit_eq_div BASE_def)
  also have "bit \<dots> ?r \<longleftrightarrow> bit (mag e) i" by (simp add: bit_take_bit_iff bit_drop_bit_eq)
  finally show ?thesis .
qed

definition reduced :: "big \<Rightarrow> big \<Rightarrow> int \<Rightarrow> bool" where
  "reduced n x v \<longleftrightarrow> wf_big x \<and> length x = 130 \<and> val x = v mod val n"

lemma reduced_count:
  assumes "wf_big n" and "0 < val n" and "reduced n x v"
  shows "count x \<le> count n"
  using assms count_mod by (auto simp: reduced_def)

lemma mul_mod_reduced:
  assumes "wf_big n" and "0 < val n" and "count n \<le> 63" and "reduced n x v" and "reduced n y w" and "length r = 130"
  obtains t where "mul_mod (replicate 130 0) x y n = Ok t" "reduced n (assign r t) (v * w)"
proof -
  let ?z = "replicate 130 0 :: big"
  have c: "count x \<le> 63" "count y \<le> 63" using reduced_count [OF assms(1,2)] assms(3-5) by (meson le_trans)+
  have xy: "wf_big x" "wf_big y" "val x = v mod val n" "val y = w mod val n" using assms(4,5) by (auto simp: reduced_def)
  have l: "count x + count y \<le> 127" "count n \<le> 127" "2 + (count x + count y) \<le> length ?z" "2 + count n \<le> length ?z"
    "length ?z < BASE" using c assms(3) by (simp_all add: BASE_def)
  obtain t where t: "mul_mod ?z x y n = Ok t" "wf_big t" "val t = val x * val y mod val n"
    using mul_mod_Ok [OF xy(1,2) assms(1,2) l] by metis
  have "count t \<le> count n" using count_mod [OF t(2) assms(1,2) t(3)] .
  then have "2 + count t \<le> length r" "length r < BASE" using assms(3,6) by (simp_all add: BASE_def)
  note a = assign_Ok [OF t(2) this]
  have "reduced n (assign r t) (v * w)"
    using a t(3) xy(3,4) assms(6) by (simp add: reduced_def mod_mult_eq)
  with that t(1) show ?thesis by blast
qed

lemma mod_Suc_bit: "(m :: nat) mod 2 ^ Suc i = (if bit m i then m mod 2 ^ i + 2 ^ i else m mod 2 ^ i)"
  using take_bit_Suc_from_most [of i m] by (simp add: take_bit_eq_mod)

lemma from_s32_one:
  "2 < length d \<Longrightarrow> from_s32 d 1 = Ok ((init_big d)[1 := 1, 2 := 1])"
  by (simp add: from_s32_def Let_def)

lemma wf_one:
  assumes "2 < length d" and "length d < BASE"
  shows "wf_big ((init_big d)[1 := 1, 2 := 1])" "val ((init_big d)[1 := 1, 2 := 1]) = 1"
proof -
  let ?d = "(init_big d)[1 := 1, 2 := 1]"
  have "0 < length d" using assms(1) by linarith
  then have z: "?d ! 0 = 0" by (simp add: init_big_def)
  have c: "count ?d = 1" "?d ! Suc (Suc 0) = 1" using assms(1) by (simp_all add: count_def numeral_2_eq_2)
  then show "wf_big ?d" using z assms by (simp add: wf_big_def)
  have "mag ?d = 1" unfolding mag_def c(1) using c(2) by (simp add: lsum_def numeral_2_eq_2)
  then show "val ?d = 1" using z by (simp add: val_def)
qed

lemma exp_loop:
  assumes "wf_big e" and "32 * count e < BASE" and "wf_big n" and "0 < val n" and "count n \<le> 63"
    and "reduced n one 1" and "reduced n base v" and "m \<le> 32 * count e"
  obtains r b where "for_upto (exp_step e n) m (one, base) = Ok (r, b)" "reduced n r (v ^ (mag e mod 2 ^ m))"
proof -
  define I where "I i rb \<longleftrightarrow> (case rb of (r, b) \<Rightarrow>
    reduced n r (v ^ (mag e mod 2 ^ i)) \<and> reduced n b (v ^ (2 ^ i)))" for i and rb :: "big \<times> big"
  have "\<exists>s. for_upto (exp_step e n) m (one, base) = Ok s \<and> I m s"
  proof (rule for_upto_rule)
    show "I 0 (one, base)" using assms(6,7) by (simp add: I_def)
    fix i s assume i: "i < m" and inv: "I i s"
    obtain r b where s: "s = (r, b)" by fastforce
    have rb: "reduced n r (v ^ (mag e mod 2 ^ i))" "reduced n b (v ^ (2 ^ i))" "length r = 130" "length b = 130"
      using inv by (auto simp: I_def s reduced_def)
    have gb: "get_bit e (word_of_nat i) \<longleftrightarrow> bit (mag e) i"
      using assms(1,2,8) i by (intro get_bit_eq) simp_all
    obtain t where t: "mul_mod (replicate 130 0) r b n = Ok t" "reduced n (assign r t) (v ^ (mag e mod 2 ^ i) * v ^ (2 ^ i))"
      using mul_mod_reduced [OF assms(3-5) rb(1,2,3)] .
    obtain u where u: "mul_mod (replicate 130 0) b b n = Ok u" "reduced n (assign b u) (v ^ (2 ^ i) * v ^ (2 ^ i))"
      using mul_mod_reduced [OF assms(3-5) rb(2,2,4)] .
    have "I (Suc i) (if bit (mag e) i then assign r t else r, assign b u)"
      using rb t(2) u(2) unfolding I_def mod_Suc_bit by (simp add: power_add mult_2)
    moreover have "exp_step e n i s = Ok (if bit (mag e) i then assign r t else r, assign b u)"
      using t(1) u(1) gb by (simp add: exp_step_def s square_mod_def)
    ultimately show "\<exists>s'. exp_step e n i s = Ok s' \<and> I (Suc i) s'" by blast
  qed
  then show ?thesis using that by (auto simp: I_def)
qed

lemma exp_mod_Ok:
  assumes "wf_big op" and "wf_big e" and "wf_big n" and "1 < val n" and "count n \<le> 63" and "count op \<le> 127"
    and "32 * count e < BASE" and "2 + count n \<le> length dest" and "length dest < BASE"
  obtains d where "exp_mod dest op e n = Ok d" "wf_big d" "length d = length dest" "val d = val op ^ mag e mod val n"
proof -
  let ?z = "replicate 130 0 :: big"
  have n0: "0 < val n" using assms(4) by simp
  have l: "count n \<le> 127" "2 + count op \<le> length ?z" "2 + count n \<le> length ?z" "length ?z < BASE"
    using assms(5,6) by (simp_all add: BASE_def)
  obtain b where b: "modulo_big ?z op n = Ok b" "wf_big b" "length b = length ?z" "val b = val op mod val n"
    using modulo_big_Ok [OF assms(1,3) n0 assms(6) l] .
  let ?one = "(init_big ?z)[1 := 1, 2 := 1]"
  have one: "from_s32 ?z 1 = Ok ?one" "reduced n ?one 1" "reduced n b (val op)"
    using from_s32_one [of ?z] wf_one [of ?z] b(2-4) assms(4) by (simp_all add: reduced_def BASE_def)
  have gc: "get_bit_count e \<le> 32 * count e" "mag e mod 2 ^ get_bit_count e = mag e"
    using get_bit_count_bounds [OF assms(2)] get_bit_count_0 [OF assms(2)] by (cases "count e = 0"; simp add: mag_def)+
  obtain r b' where r: "for_upto (exp_step e n) (get_bit_count e) (?one, b) = Ok (r, b')" "reduced n r (val op ^ mag e)"
    using exp_loop [OF assms(2,7,3) n0 assms(5) one(2,3) gc(1)] gc(2) by metis
  have "count r \<le> count n" using reduced_count [OF assms(3) n0 r(2)] .
  then have "2 + count r \<le> length dest" using assms(8) by simp
  note a = assign_Ok [OF _ this assms(9)]
  have "exp_mod dest op e n = Ok (assign dest r)" using b(1) one(1) r(1) by (simp add: exp_mod_def)
  with that [of "assign dest r"] a r(2) show ?thesis by (simp add: reduced_def)
qed

end
