(* ===== verification/Big_Gcd.thy ===== *)
theory Big_Gcd
  imports Big_Mod
begin

text \<open>The extended Euclidean algorithm over the integers and over the arrays.\<close>

section \<open>Over the integers\<close>

text \<open>One column of coefficients: the signs alternate, and the continuant identity bounds the magnitudes by the
  operand \<open>B\<close> of the other column.\<close>

definition column :: "int \<Rightarrow> int \<Rightarrow> int \<Rightarrow> int \<Rightarrow> int \<Rightarrow> bool" where
  "column B r0 r1 s0 s1 \<longleftrightarrow>
     s0 * s1 \<le> 0 \<and> \<bar>s1\<bar> * r0 + \<bar>s0\<bar> * r1 = B \<and> \<bar>s0\<bar> \<le> max 1 B \<and> \<bar>s1\<bar> \<le> max 1 B"

lemma abs_sub_opposite: "(x :: int) * y \<le> 0 \<Longrightarrow> 0 \<le> q \<Longrightarrow> \<bar>x - q * y\<bar> = \<bar>x\<bar> + q * \<bar>y\<bar>"
proof -
  assume a: "x * y \<le> 0" "0 \<le> q"
  then have "q * (x * y) \<le> 0" by (rule mult_nonneg_nonpos [rotated])
  then have "x * (q * y) \<le> 0" by (simp only: mult.left_commute)
  then have "0 \<le> x \<and> q * y \<le> 0 \<or> x \<le> 0 \<and> 0 \<le> q * y" by (rule mult_le_0_iff [THEN iffD1])
  then have "\<bar>x - q * y\<bar> = \<bar>x\<bar> + \<bar>q * y\<bar>" by linarith
  with a(2) show ?thesis by (simp add: abs_mult)
qed

lemma column_step:
  assumes "column B r0 r1 s0 s1" and "0 \<le> r0" and "0 < r1"
  shows "column B r1 (r0 mod r1) s1 (s0 - r0 div r1 * s1)" and "\<bar>r0 div r1 * s1\<bar> \<le> max 1 B"
proof -
  let ?q = "r0 div r1" and ?n = "s0 - r0 div r1 * s1"
  have q: "0 \<le> ?q" using assms(2,3) by (simp add: pos_imp_zdiv_nonneg_iff)
  have c: "s0 * s1 \<le> 0" "\<bar>s1\<bar> * r0 + \<bar>s0\<bar> * r1 = B" "\<bar>s1\<bar> \<le> max 1 B" using assms(1) by (simp_all add: column_def)
  have n: "\<bar>?n\<bar> = \<bar>s0\<bar> + ?q * \<bar>s1\<bar>" using abs_sub_opposite [OF c(1) q] .
  have "\<bar>s1\<bar> * r0 = \<bar>s1\<bar> * (?q * r1 + r0 mod r1)" by simp
  then have e: "\<bar>?n\<bar> * r1 + \<bar>s1\<bar> * (r0 mod r1) = B" unfolding n using c(2) by (simp only: algebra_simps)
  have "0 \<le> \<bar>s1\<bar> * (r0 mod r1)" using assms(3) by simp
  then have "\<bar>?n\<bar> * r1 \<le> B" unfolding e [symmetric] by simp
  moreover have "\<bar>?n\<bar> * 1 \<le> \<bar>?n\<bar> * r1" using assms(3) by (intro mult_left_mono) simp_all
  ultimately have le: "\<bar>?n\<bar> \<le> B" by simp
  have "s1 * ?n = s0 * s1 - ?q * (s1 * s1)" by (simp add: algebra_simps)
  moreover have "0 \<le> ?q * (s1 * s1)" using q by simp
  ultimately have "s1 * ?n \<le> 0" using c(1) by linarith
  then show "column B r1 (r0 mod r1) s1 ?n" using e le c(3) by (simp add: column_def)
  show "\<bar>?q * s1\<bar> \<le> max 1 B" using n le q by (simp add: abs_mult)
qed

definition euclid :: "int \<Rightarrow> int \<Rightarrow> int \<Rightarrow> int \<Rightarrow> int \<Rightarrow> int \<Rightarrow> int \<Rightarrow> int \<Rightarrow> bool" where
  "euclid A B r0 r1 s0 s1 t0 t1 \<longleftrightarrow>
     0 \<le> r0 \<and> 0 \<le> r1 \<and> r0 \<le> max A B \<and> r1 \<le> max A B \<and> gcd r0 r1 = gcd A B \<and>
     s0 * A + t0 * B = r0 \<and> s1 * A + t1 * B = r1 \<and>
     column B r0 r1 s0 s1 \<and> column A r0 r1 t0 t1"

lemma euclid_start: "0 \<le> A \<Longrightarrow> 0 \<le> B \<Longrightarrow> euclid A B A B 1 0 0 1"
  by (auto simp: euclid_def column_def max_def)

lemma euclid_step:
  assumes "euclid A B r0 r1 s0 s1 t0 t1" and "r1 \<noteq> 0"
  shows "euclid A B r1 (r0 mod r1) s1 (s0 - r0 div r1 * s1) t1 (t0 - r0 div r1 * t1)"
proof -
  have e: "0 \<le> r0" "0 < r1" "r1 \<le> max A B" "gcd r0 r1 = gcd A B" "s0 * A + t0 * B = r0" "s1 * A + t1 * B = r1"
    "column B r0 r1 s0 s1" "column A r0 r1 t0 t1"
    using assms by (simp_all add: euclid_def)
  let ?q = "r0 div r1"
  have "(s0 - ?q * s1) * A + (t0 - ?q * t1) * B = (s0 * A + t0 * B) - ?q * (s1 * A + t1 * B)"
    by (simp only: algebra_simps)
  also have "\<dots> = r0 mod r1" unfolding e(5,6) by (simp add: minus_div_mult_eq_mod)
  finally have l: "(s0 - ?q * s1) * A + (t0 - ?q * t1) * B = r0 mod r1" .
  have m: "0 \<le> r0 mod r1" "r0 mod r1 < r1" using e(2) by simp_all
  then have "r0 mod r1 \<le> max A B" using e(3) by linarith
  moreover have "gcd r1 (r0 mod r1) = gcd A B" using e(4) by (metis gcd.commute gcd_red_int)
  ultimately show ?thesis
    using column_step(1) [OF e(7,1,2)] column_step(1) [OF e(8,1,2)] e(2,3,6) l m(1) by (simp add: euclid_def)
qed

section \<open>Over the arrays\<close>

text \<open>The working arrays of the loop have 130 words; a value below \<open>BASE ^ 127\<close> fits with a limb to spare.\<close>

definition work :: "big \<Rightarrow> bool" where
  "work x \<longleftrightarrow> wf_big x \<and> length x = 130 \<and> \<bar>val x\<bar> < int (BASE ^ 127)"

lemma work_count: "wf_big x \<Longrightarrow> \<bar>val x\<bar> < int (BASE ^ 127) \<Longrightarrow> count x \<le> 127"
  by (rule count_le) (simp_all only: abs_val of_nat_less_iff)

lemma work_limits: "(130 :: nat) < BASE" "(2 :: nat) \<le> 130"
  by (simp_all add: BASE_def)

lemma work_assign:
  assumes "work x" and "work y"
  shows "work (assign x y)" "val (assign x y) = val y"
proof -
  have "2 + count y \<le> length x" "length x < BASE" using assms work_count [of y] work_limits by (simp_all add: work_def)
  note a = assign_Ok [OF _ this]
  show "work (assign x y)" "val (assign x y) = val y" using a assms by (simp_all add: work_def)
qed

lemma work_div:
  assumes "work a" and "work b" and "0 \<le> val a" and "0 < val b"
  obtains q r where "div_big (replicate 130 0) (replicate 130 0) a b = Ok (q, r)" "wf_big q" "count q \<le> 127" "work r"
    "val q = val a div val b" "val r = val a mod val b"
proof -
  let ?z = "replicate 130 0 :: big"
  have c: "wf_big a" "wf_big b" "count a \<le> 127" "count b \<le> 127" using assms(1,2) work_count by (simp_all add: work_def)
  have l: "val b \<noteq> 0" "count b \<le> 128" "2 + count a \<le> length ?z" "length ?z < BASE"
    using assms(4) c work_limits by simp_all
  obtain q r where qr: "div_big ?z ?z a b = Ok (q, r)" "length r = length ?z" "wf_big q" "wf_big r"
    "val q = val a sdiv val b" "val r = val a smod val b"
    using div_big_Ok [OF c(1,2) l(1) c(3) l(2-4,3,4)] by metis
  have v: "val q = val a div val b" "val r = val a mod val b"
    using qr(5,6) assms(3,4) by (simp_all add: signed_divide_int_def signed_modulo_int_def sgn_if)
  have "val r < val b" "0 \<le> val r" using v(2) assms(4) by simp_all
  then have "work r" using qr(2,4) assms(2) by (simp add: work_def)
  moreover have "\<bar>val q\<bar> \<le> \<bar>val a\<bar>" using v(1) assms(3,4) zdiv_mono2 [of "val a" 1 "val b"] by (simp add: pos_imp_zdiv_nonneg_iff)
  then have "count q \<le> 127" using count_le_abs [OF qr(3) c(1)] c(3) by simp
  ultimately show ?thesis using that [OF qr(1,3)] v by blast
qed

lemma work_mul:
  assumes "wf_big a" and "count a \<le> 127" and "work b" and "length d = 130" and "\<bar>val a * val b\<bar> < int (BASE ^ 127)"
  obtains p where "mul_big d a b = Ok p" "work p" "val p = val a * val b"
proof -
  have c: "wf_big b" "count b \<le> 127" using assms(3) work_count by (simp_all add: work_def)
  have l: "count a + count b + 3 < BASE" "2 \<le> length d" "length d < BASE" using assms(2,4) c(2) by (simp_all add: BASE_def)
  have "int (mag a * mag b) = \<bar>val a * val b\<bar>" by (simp add: abs_mult abs_val)
  then have "int (mag a * mag b) < int (BASE ^ 127)" using assms(5) by simp
  then have "mag a * mag b < BASE ^ 127" by (simp only: of_nat_less_iff)
  also have "BASE ^ 127 \<le> BASE ^ (length d - 2)" using assms(4) by (intro power_increasing) (simp_all add: BASE_def)
  finally have "mag a * mag b < BASE ^ (length d - 2)" .
  from mul_big_Ok [OF assms(1) c(1) l this] obtain p where
    "mul_big d a b = Ok p" "length p = length d" "wf_big p" "val p = val a * val b" .
  with that [of p] assms(4,5) show ?thesis by (simp add: work_def)
qed

lemma work_sub:
  assumes "work a" and "work b" and "\<bar>val a - val b\<bar> < int (BASE ^ 127)"
  obtains d where "sub_big (replicate 130 0) a b = Ok d" "work d" "val d = val a - val b"
proof -
  let ?z = "replicate 130 0 :: big"
  have c: "wf_big a" "wf_big b" "count a \<le> 127" "count b \<le> 127" using assms(1,2) work_count by (simp_all add: work_def)
  have "count b \<le> 128" "2 + max (count a) (count b) + 1 \<le> length ?z" "length ?z < BASE"
    using c(3,4) work_limits by simp_all
  from sub_big_Ok [OF c(1,2) this] obtain d where
    "sub_big ?z a b = Ok d" "length d = length ?z" "wf_big d" "val d = val a - val b" .
  with that [of d] assms(3) show ?thesis by (simp add: work_def)
qed

definition egcd_inv :: "int \<Rightarrow> int \<Rightarrow> egcd \<Rightarrow> bool" where
  "egcd_inv A B e \<longleftrightarrow>
     work (eg_r0 e) \<and> work (eg_r1 e) \<and> work (eg_s0 e) \<and> work (eg_s1 e) \<and> work (eg_t0 e) \<and> work (eg_t1 e) \<and>
     euclid A B (val (eg_r0 e)) (val (eg_r1 e)) (val (eg_s0 e)) (val (eg_s1 e)) (val (eg_t0 e)) (val (eg_t1 e))"

text \<open>The update of one column.\<close>

lemma column_update:
  assumes "work s0" and "work s1" and "wf_big q" and "count q \<le> 127" and "length d = 130"
    and "column B r0 r1 (val s0) (val s1)" and "0 \<le> r0" and "0 < r1" and "val q = r0 div r1"
    and "max 1 B < int (BASE ^ 127)"
  obtains p n where "mul_big d q s1 = Ok p" "work p" "sub_big (replicate 130 0) s0 p = Ok n" "work n"
    "val n = val s0 - r0 div r1 * val s1"
proof -
  note c = column_step [OF assms(6-8)]
  have "\<bar>val q * val s1\<bar> < int (BASE ^ 127)" unfolding assms(9) using c(2) assms(10) by (rule le_less_trans)
  from work_mul [OF assms(3,4,2,5) this] obtain p where
    p: "mul_big d q s1 = Ok p" "work p" "val p = val q * val s1" .
  have v: "val s0 - val p = val s0 - r0 div r1 * val s1" using p(3) assms(9) by simp
  moreover have "\<bar>val s0 - r0 div r1 * val s1\<bar> \<le> max 1 B" using c(1) by (simp add: column_def)
  ultimately have "\<bar>val s0 - val p\<bar> < int (BASE ^ 127)" using assms(10) by (simp only: le_less_trans)
  from work_sub [OF assms(1) p(2) this] obtain n where
    "sub_big (replicate 130 0) s0 p = Ok n" "work n" "val n = val s0 - val p" .
  with that [OF p(1,2)] v show ?thesis by simp
qed

lemma egcd_step_Ok:
  assumes "egcd_inv A B e" and "val (eg_r1 e) \<noteq> 0" and "max 1 A < int (BASE ^ 127)" and "max 1 B < int (BASE ^ 127)"
  obtains e' where "egcd_step e = Ok e'" "egcd_inv A B e'" "val (eg_r1 e') < val (eg_r1 e)" "0 \<le> val (eg_r1 e')"
proof -
  have w: "work (eg_r0 e)" "work (eg_r1 e)" "work (eg_s0 e)" "work (eg_s1 e)" "work (eg_t0 e)" "work (eg_t1 e)"
    and E: "euclid A B (val (eg_r0 e)) (val (eg_r1 e)) (val (eg_s0 e)) (val (eg_s1 e)) (val (eg_t0 e)) (val (eg_t1 e))"
    using assms(1) by (simp_all add: egcd_inv_def)
  then have r: "0 \<le> val (eg_r0 e)" "0 < val (eg_r1 e)"
    and col: "column B (val (eg_r0 e)) (val (eg_r1 e)) (val (eg_s0 e)) (val (eg_s1 e))"
      "column A (val (eg_r0 e)) (val (eg_r1 e)) (val (eg_t0 e)) (val (eg_t1 e))"
    using assms(2) by (simp_all add: euclid_def)
  obtain q x where qr: "div_big (replicate 130 0) (replicate 130 0) (eg_r0 e) (eg_r1 e) = Ok (q, x)"
    "wf_big q" "count q \<le> 127" "work x" "val q = val (eg_r0 e) div val (eg_r1 e)" "val x = val (eg_r0 e) mod val (eg_r1 e)"
    using work_div [OF w(1,2) r] .
  have "length (replicate 130 (0 :: u32)) = 130" by simp
  from column_update [OF w(3,4) qr(2,3) this col(1) r qr(5) assms(4)] obtain p n where
    s: "mul_big (replicate 130 0) q (eg_s1 e) = Ok p" "work p" "sub_big (replicate 130 0) (eg_s0 e) p = Ok n" "work n"
      "val n = val (eg_s0 e) - val (eg_r0 e) div val (eg_r1 e) * val (eg_s1 e)" .
  have "length p = 130" using s(2) by (simp add: work_def)
  from column_update [OF w(5,6) qr(2,3) this col(2) r qr(5) assms(3)] obtain p' n' where
    t: "mul_big p q (eg_t1 e) = Ok p'" "sub_big (replicate 130 0) (eg_t0 e) p' = Ok n'" "work n'"
      "val n' = val (eg_t0 e) - val (eg_r0 e) div val (eg_r1 e) * val (eg_t1 e)" .
  let ?e = "\<lparr>eg_r0 = assign (eg_r0 e) (eg_r1 e), eg_r1 = assign (eg_r1 e) x,
    eg_s0 = assign (eg_s0 e) (eg_s1 e), eg_s1 = assign (eg_s1 e) n,
    eg_t0 = assign (eg_t0 e) (eg_t1 e), eg_t1 = assign (eg_t1 e) n'\<rparr>"
  have "egcd_step e = Ok ?e" using qr(1) s(1,3) t(1,2) by (simp add: egcd_step_def)
  moreover have "egcd_inv A B ?e"
    using work_assign w qr(4,6) s(4,5) t(3,4) euclid_step [OF E assms(2)] by (simp add: egcd_inv_def)
  moreover have "val (eg_r1 ?e) = val (eg_r0 e) mod val (eg_r1 e)" using work_assign [OF w(2) qr(4)] qr(6) by simp
  ultimately show ?thesis using that [of ?e] r(2) by simp
qed

text \<open>The loop returns: the second remainder decreases.\<close>

lemma egcd_loop_Ok:
  assumes "egcd_inv A B e" and "max 1 A < int (BASE ^ 127)" and "max 1 B < int (BASE ^ 127)"
  shows "\<exists>e'. egcd_loop e = Some (Ok e') \<and> egcd_inv A B e' \<and> val (eg_r1 e') = 0"
  using assms(1)
proof (induction "nat (val (eg_r1 e))" arbitrary: e rule: less_induct)
  case less
  have z: "is_zero (eg_r1 e) \<longleftrightarrow> val (eg_r1 e) = 0" using less.prems by (simp add: egcd_inv_def work_def is_zero_iff)
  show ?case
  proof (cases "val (eg_r1 e) = 0")
    case True
    then show ?thesis using less.prems z by (subst egcd_loop.simps) simp
  next
    case False
    from egcd_step_Ok [OF less.prems False assms(2,3)] obtain e' where
      e: "egcd_step e = Ok e'" "egcd_inv A B e'" "val (eg_r1 e') < val (eg_r1 e)" "0 \<le> val (eg_r1 e')" .
    have "egcd_loop e = egcd_loop e'" using e(1) z False by (subst egcd_loop.simps) simp
    then show ?thesis using less.hyps [OF _ e(2)] e(3,4) by simp
  qed
qed

lemma egcd_start_Ok:
  assumes "wf_big a" and "wf_big b" and "count a \<le> 127" and "count b \<le> 127"
  obtains e where "egcd_start a b = Ok e" "egcd_inv \<bar>val a\<bar> \<bar>val b\<bar> e"
proof -
  let ?z = "replicate 130 0 :: big"
  let ?one = "(init_big ?z)[1 := 1, 2 := 1]"
  have z: "length ?z = 130" "length ?z < BASE" "2 < length ?z" by (simp_all add: BASE_def)
  have small: "mag x < BASE ^ 127" if "count x \<le> 127" for x
    using mag_less [of x] power_increasing [OF that, of BASE] by (simp add: BASE_def)
  have i: "init_big ?z = ?z" by (simp add: init_big_def)
  have "work ?z" "val ?z = 0" using wf_init [of ?z, unfolded i] z by (simp_all add: work_def BASE_def)
  moreover have "work ?one" "val ?one = 1" using wf_one [OF z(3,2)] z(1) by (simp_all add: work_def BASE_def)
  moreover have l: "2 + count a \<le> length ?z" "2 + count b \<le> length ?z" using assms(3,4) by simp_all
  note A = unsigned_copy [OF assms(1) l(1) z(2)] and B = unsigned_copy [OF assms(2) l(2) z(2)]
  have "work ((assign ?z a)[0 := 0])" "work ((assign ?z b)[0 := 0])"
    using A B small [OF assms(3)] small [OF assms(4)] by (simp_all only: work_def abs_val abs_abs) simp_all
  moreover note A(1,6) B(1,6) from_s32_one [OF z(3)] euclid_start [of "\<bar>val a\<bar>" "\<bar>val b\<bar>"]
  ultimately show ?thesis
    using that [of "\<lparr>eg_r0 = (assign ?z a)[0 := 0], eg_r1 = (assign ?z b)[0 := 0], eg_s0 = ?one, eg_s1 = ?z, eg_t0 = ?z, eg_t1 = ?one\<rparr>"]
    by (simp add: egcd_start_def egcd_inv_def Let_def)
qed

end
