(* ===== verification/Big_Octet.thy ===== *)
theory Big_Octet
  imports Big_Quot
begin

text \<open>The conversions between the arrays and big-endian octet strings.\<close>

section \<open>Canonical octet strings\<close>

lemma le_val_append: "le_val (a @ b) = le_val a + 256 ^ length a * le_val b"
  by (induction a) (simp_all add: algebra_simps)

lemma le_val_zeros [simp]: "le_val (replicate n 0) = 0"
  by (induction n) simp_all

lemma le_val_eq_0: "le_val bs = 0 \<longleftrightarrow> (\<forall>b \<in> set bs. b = 0)"
  by (induction bs) (auto simp: unat_eq_zero)

text \<open>The big-endian string without leading zeros.\<close>

abbreviation be_val :: "bytes \<Rightarrow> nat" where "be_val bs \<equiv> le_val (rev bs)"

definition strip0 :: "bytes \<Rightarrow> bytes" where "strip0 = dropWhile (\<lambda>b. b = 0)"

lemma be_val_strip0: "be_val (strip0 bs) = be_val bs"
  by (induction bs) (auto simp: strip0_def le_val_append)

lemma strip0_bounds: "strip0 bs \<noteq> [] \<Longrightarrow> 256 ^ (length (strip0 bs) - 1) \<le> be_val (strip0 bs)"
proof -
  assume ne: "strip0 bs \<noteq> []"
  then obtain b cs where s: "strip0 bs = b # cs" by (cases "strip0 bs") simp_all
  then have "b \<noteq> 0" using hd_dropWhile [of "\<lambda>b. b = 0" bs] ne by (simp add: strip0_def)
  then have "1 \<le> unat b" by (simp add: Suc_le_eq unat_gt_0)
  then have "256 ^ length cs * 1 \<le> 256 ^ length cs * unat b" by (rule mult_le_mono2)
  then have "256 ^ length cs \<le> be_val cs + 256 ^ length cs * unat b" by linarith
  then show ?thesis unfolding s by (simp add: le_val_append)
qed

lemma strip0_unique:
  assumes "be_val a = be_val b"
  shows "strip0 a = strip0 b"
proof -
  let ?a = "strip0 a" and ?b = "strip0 b"
  have e: "be_val ?a = be_val ?b" using assms by (simp add: be_val_strip0)
  have len: "length x \<le> length y"
    if "be_val x = be_val y" "x \<noteq> [] \<Longrightarrow> 256 ^ (length x - 1) \<le> be_val x" for x y :: bytes
  proof (cases "x = []")
    case False
    have "256 ^ (length x - 1) \<le> be_val y" using that(2) [OF False] unfolding that(1) .
    also have "\<dots> < 256 ^ length y" using le_val_bound [of "rev y"] by simp
    finally have "256 ^ (length x - 1) < (256 :: nat) ^ length y" .
    then have "length x - 1 < length y" by (rule power_less_imp_less_exp [rotated]) simp
    with False show ?thesis by (cases x) simp_all
  qed simp
  have "length ?a = length ?b" using len e strip0_bounds [of a] strip0_bounds [of b] by (metis order_antisym)
  then have "rev ?a = rev ?b" using le_bytes_le_val [of "rev ?a"] le_bytes_le_val [of "rev ?b"] e by (metis length_rev)
  then show ?thesis by simp
qed

lemma pop_zeros_eq: "be_val bs \<noteq> 0 \<Longrightarrow> pop_zeros bs = strip0 bs"
  by (induction bs rule: pop_zeros.induct) (auto simp: strip0_def le_val_append)

section \<open>Limbs\<close>

lemma unat_from_le_4: "length bs = 4 \<Longrightarrow> unat (from_le_bytes bs :: u32) = le_val bs"
  using le_val_bound [of bs] by (simp add: from_le_bytes_def unat_of_nat)

lemma lsum_le_val:
  assumes "\<And>k. k < n \<Longrightarrow> op ! (2 + k) = from_le_bytes (take 4 (drop (4 * k) bs))" and "4 * n \<le> length bs"
  shows "lsum op n = le_val (take (4 * n) bs)"
  using assms
proof (induction n)
  case (Suc n)
  let ?t = "take 4 (drop (4 * n) bs)"
  have "4 * Suc n = 4 * n + 4" by simp
  then have t: "take (4 * Suc n) bs = take (4 * n) bs @ ?t" by (simp only: take_add)
  have l: "length ?t = 4" "length (take (4 * n) bs) = 4 * n" using Suc.prems(2) by simp_all
  have u: "unat (op ! (2 + n)) = le_val ?t" using Suc.prems(1) [of n] unat_from_le_4 [OF l(1)] by simp
  have b: "(256 :: nat) ^ (4 * n) = BASE ^ n" by (simp add: power_mult BASE_def)
  have i: "lsum op n = le_val (take (4 * n) bs)"
    by (rule Suc.IH [OF Suc.prems(1)]) (use Suc.prems(2) in simp_all)
  show ?case unfolding t lsum_Suc le_val_append l(2) u b i by (simp only: mult.commute)
qed simp

lemma le_val_limbs:
  assumes "2 + n \<le> length op"
  shows "le_val (concat (map to_le_bytes (take n (drop 2 op)))) = lsum op n"
  using assms
proof (induction n)
  case (Suc n)
  have t: "take (Suc n) (drop 2 op) = take n (drop 2 op) @ [op ! (2 + n)]"
    using Suc.prems by (simp add: take_Suc_conv_app_nth)
  have l: "length (concat (map to_le_bytes (take n (drop 2 op)))) = 4 * n"
    using Suc.prems by (simp add: length_concat comp_def sum_list_triv)
  have b: "(256 :: nat) ^ (4 * n) = BASE ^ n" by (simp add: power_mult BASE_def)
  have u: "le_val (to_le_bytes (op ! (2 + n))) = unat (op ! (2 + n))"
    using unat_less_BASE [of "op ! (2 + n)"] by (simp add: to_le_bytes_def le_val_le_bytes BASE_def)
  have i: "le_val (concat (map to_le_bytes (take n (drop 2 op)))) = lsum op n"
    using Suc.prems by (intro Suc.IH) simp
  have "concat (map to_le_bytes (take (Suc n) (drop 2 op))) =
      concat (map to_le_bytes (take n (drop 2 op))) @ to_le_bytes (op ! (2 + n))"
    unfolding t by simp
  then show ?case by (simp only: le_val_append l b u i lsum_Suc) (simp only: mult.commute)
qed simp

section \<open>The two conversions\<close>

lemma length_pad4: "length (pad4 bs) = 4 * ((length bs + 3) div 4)"
proof -
  define q r where "q = length bs div 4" and "r = length bs mod 4"
  then have l: "length bs = 4 * q + r" "r < 4" by simp_all
  have p: "length (pad4 bs) = 4 * q + r + (4 - r) mod 4" by (simp add: pad4_def q_def r_def)
  from l(2) consider "r = 0" | "r = 1" | "r = 2" | "r = 3" by linarith
  then show ?thesis unfolding p l(1) by cases simp_all
qed

lemma le_val_pad4 [simp]: "le_val (pad4 bs) = le_val bs"
  by (simp add: pad4_def le_val_append)

lemma fill_limbs:
  assumes "4 * n \<le> length bs" and "2 + n \<le> length op"
  obtains x where
    "for_upto (\<lambda>i op. res_bind (slice_range bs (i * 4) (i * 4 + 4)) (\<lambda>b. set_at op (2 + i) (from_le_bytes b))) n op = (Ok x :: big ares)"
    "length x = length op" "x ! 0 = op ! 0" "lsum x n = le_val (take (4 * n) bs)"
proof -
  define I where "I i x \<longleftrightarrow> length x = length op \<and> x ! 0 = op ! 0 \<and>
    (\<forall>k < i. x ! (2 + k) = from_le_bytes (take 4 (drop (4 * k) bs)))" for i and x :: big
  have "\<exists>x. for_upto (\<lambda>i op. res_bind (slice_range bs (i * 4) (i * 4 + 4)) (\<lambda>b. set_at op (2 + i) (from_le_bytes b))) n op
      = (Ok x :: big ares) \<and> I n x"
  proof (rule for_upto_rule)
    show "I 0 op" by (simp add: I_def)
    fix i and x :: big assume i: "i < n" and inv: "I i x"
    have "i * 4 + 4 \<le> length bs" using i assms(1) by linarith
    then have "slice_range bs (i * 4) (i * 4 + 4) = (Ok (take 4 (drop (4 * i) bs)) :: bytes ares)"
      by (simp add: slice_range_Ok mult.commute [of i 4])
    moreover have "2 + i < length x" using i assms(2) inv by (simp add: I_def)
    moreover from this have "I (Suc i) (x[2 + i := from_le_bytes (take 4 (drop (4 * i) bs))])"
      using inv by (auto simp: I_def less_Suc_eq nth_list_update)
    ultimately show "\<exists>s'. res_bind (slice_range bs (i * 4) (i * 4 + 4)) (\<lambda>b. set_at x (2 + i) (from_le_bytes b)) = (Ok s' :: big ares)
        \<and> I (Suc i) s'" by simp
  qed
  then obtain x where x: "for_upto (\<lambda>i op. res_bind (slice_range bs (i * 4) (i * 4 + 4)) (\<lambda>b. set_at op (2 + i) (from_le_bytes b))) n op
      = (Ok x :: big ares)" "I n x" by blast
  have "lsum x n = le_val (take (4 * n) bs)" using x(2) assms(1) by (intro lsum_le_val) (simp_all add: I_def)
  with that [OF x(1)] x(2) show ?thesis by (simp add: I_def)
qed

lemma from_octet_Ok:
  assumes "length buf * 8 \<le> USIZE_MAX" and "2 + (length buf + 3) div 4 \<le> length op" and "length op < BASE"
  obtains x where "from_octet_string op buf sign = (Ok (), x)" "wf_big x" "length x = length op"
    "val x = (if sint sign < 0 then - int (be_val buf) else int (be_val buf))"
proof (cases "buf = []")
  case True
  then have "from_octet_string op buf sign = (Ok (), init_big op)" by (simp add: from_octet_string_def)
  from that [OF this] wf_init [of op] assms(2,3) True show ?thesis by simp
next
  case False
  let ?b = "pad4 (rev buf)"
  define n where "n = length ?b div 4"
  have n: "length ?b = 4 * n" "n = (length buf + 3) div 4" by (simp_all add: n_def length_pad4)
  have l: "4 * n \<le> length ?b" "2 + n \<le> length (init_big op)" using n assms(2) by simp_all
  obtain x where x: "for_upto (\<lambda>i op. res_bind (slice_range ?b (i * 4) (i * 4 + 4)) (\<lambda>b. set_at op (2 + i) (from_le_bytes b))) n (init_big op)
      = (Ok x :: big ares)" "length x = length (init_big op)" "x ! 0 = init_big op ! 0" "lsum x n = le_val (take (4 * n) ?b)"
    using fill_limbs [OF l] .
  have nz: "op \<noteq> []" "1 < length op" using assms(2) by auto
  let ?y = "x[1 := word_of_nat n]"
  define s :: u32 where "s = (if sint sign < 0 then FLAG_NEG else 0)"
  have c: "count ?y = n" using nz x(2) l(2) assms(3) by (simp add: count_def unat_of_nat_BASE)
  have "?y ! 0 = 0" using x(3) nz(1) by (simp add: init_big_def)
  then have "?y[0 := 0] = ?y" by (metis list_update_id)
  then have f: "(if sint sign < 0 then set_at ?y 0 FLAG_NEG else Ok ?y) = (set_at ?y 0 s :: big ares)"
    using nz x(2) by (simp add: s_def)
  have m: "mag ?y = be_val buf" unfolding mag_def c using x(4) n(1) by simp
  have "2 + count ?y \<le> length ?y" "length ?y < BASE" "s \<in> {0, 1}"
    using l(2) x(2) assms(3) unfolding c by (simp_all add: s_def FLAG_NEG_def)
  from sign_trim [OF this] obtain e where e: "res_bind (set_at ?y 0 s) trim = (Ok e :: big ares)" "wf_big e" "length e = length ?y"
    "val e = (if s = 0 then int (mag ?y) else - int (mag ?y))" .
  have "set_at x 1 (word_of_nat n) = (Ok ?y :: big ares)" "cap (init_big op) = Ok (length op - 2)" "\<not> length op - 2 < n"
    "\<not> USIZE_MAX < length buf * 8"
    using nz(2) x(2) l(2) assms(1) by (simp_all add: cap_def)
  then have "from_octet_string op buf sign = (Ok (), e)"
    by (simp only: from_octet_string_def Let_def n_def [symmetric] x(1) f e(1) res.case res_bind.simps if_False False)
  from that [OF this e(2)] e(3,4) x(2) show ?thesis unfolding m by (simp add: s_def FLAG_NEG_def)
qed

lemma to_octet_Ok:
  assumes "wf_big x" and "mag x = be_val bs"
  shows "to_octet_string x buf =
    (if length buf < length (strip0 bs) then Err ShortBuffer
     else Ok (length (strip0 bs), strip0 bs @ drop (length (strip0 bs)) buf))"
proof -
  have w: "2 + count x \<le> length x" using assms(1) by (rule wf_bigD(2))
  then have ls: "limbs x = Ok (take (count x) (drop 2 x))"
    using assms(1) by (simp add: limbs_def slice_range_Ok)
  show ?thesis
  proof (cases "count x = 0")
    case True
    then have "be_val (strip0 bs) = 0" using assms(2) mag_eq_0 [OF assms(1)] by (simp add: be_val_strip0)
    then have "strip0 bs = []" using strip0_unique [of bs "[]"] be_val_strip0 [of bs] by (simp add: strip0_def)
    then show ?thesis using ls True by (simp add: to_octet_string_def)
  next
    case False
    let ?c = "rev (concat (map to_le_bytes (take (count x) (drop 2 x))))"
    have v: "be_val ?c = be_val bs" using le_val_limbs [OF w] assms(2) by (simp add: mag_def)
    have "be_val bs \<noteq> 0" using False mag_eq_0 [OF assms(1)] assms(2) by simp
    then have "pop_zeros ?c = strip0 bs" using pop_zeros_eq [of ?c] strip0_unique [OF v] v by simp
    moreover have "take (count x) (drop 2 x) \<noteq> []" using False w by auto
    ultimately show ?thesis using ls by (simp add: to_octet_string_def Let_def put_range_Ok)
  qed
qed

end
