(* ===== verification/Big_Props.thy ===== *)
theory Big_Props
  imports Big_Gcd Big_Octet
begin

text \<open>The properties of the integer library that stands behind the \<open>TEE_BigInt\<close> calls: what each operation of
  \<open>arith.rs\<close> computes in terms of the integers its operands denote, and the sizes for which it does.\<close>

section \<open>Comparison, common divisors and inverses\<close>

lemma cmp_big_eq:
  assumes "wf_big a" and "wf_big b"
  shows "cmp_big a b = (if val b < val a then 1 else if val a < val b then - 1 else 0)"
proof -
  have s: "val x < 0 \<longleftrightarrow> x ! 0 \<noteq> 0" if "wf_big x" for x using val_sign [OF that] that by simp
  have m: "mag x = 0 \<longrightarrow> x ! 0 = 0" if "wf_big x" for x using that mag_eq_0 [OF that] by (auto simp: wf_big_def)
  show ?thesis using assms s [OF assms(1)] s [OF assms(2)] cmp_mag_eq [OF assms]
    by (simp add: cmp_big_def Let_def) (auto simp: val_def)
qed

lemma coefficient_count:
  assumes "wf_big x" and "\<bar>val x\<bar> \<le> max 1 (max \<bar>val a\<bar> \<bar>val b\<bar>)"
  shows "count x \<le> max 1 (max (count a) (count b))"
proof (rule count_le [OF assms(1)])
  let ?m = "max 1 (max (count a) (count b))"
  have "int (mag x) \<le> int (max 1 (max (mag a) (mag b)))" using assms(2) by (simp add: abs_val of_nat_max)
  then have le: "mag x \<le> max 1 (max (mag a) (mag b))" by (simp only: of_nat_le_iff)
  have p: "BASE ^ k \<le> BASE ^ ?m" if "k \<le> ?m" for k using that by (intro power_increasing) (simp_all add: BASE_def)
  have "BASE ^ 1 \<le> BASE ^ ?m" "BASE ^ count a \<le> BASE ^ ?m" "BASE ^ count b \<le> BASE ^ ?m" by (rule p; simp)+
  moreover have "1 < BASE ^ 1" by (simp add: BASE_def)
  ultimately show "mag x < BASE ^ ?m" using le mag_less [of a] mag_less [of b] by linarith
qed

lemma compute_extended_gcd_Ok:
  assumes "wf_big a" and "wf_big b" and "count a \<le> 127" and "count b \<le> 127"
    and "2 + max 1 (max (count a) (count b)) \<le> length g" and "length g < BASE"
    and "2 + max 1 (max (count a) (count b)) \<le> length u" and "length u < BASE"
    and "2 + max 1 (max (count a) (count b)) \<le> length v" and "length v < BASE"
  obtains g' u' v' where "compute_extended_gcd g u v a b = Some (Ok (g', u', v'))"
    "wf_big g'" "wf_big u'" "wf_big v'" "val g' = gcd (val a) (val b)"
    "val u' * \<bar>val a\<bar> + val v' * \<bar>val b\<bar> = gcd (val a) (val b)"
    "\<bar>val u'\<bar> \<le> max 1 \<bar>val b\<bar>" "\<bar>val v'\<bar> \<le> max 1 \<bar>val a\<bar>"
proof -
  obtain e where e: "egcd_start a b = Ok e" "egcd_inv \<bar>val a\<bar> \<bar>val b\<bar> e" using egcd_start_Ok [OF assms(1-4)] .
  have small: "max 1 \<bar>val x\<bar> < int (BASE ^ 127)" if "count x \<le> 127" for x
    using mag_less [of x] power_increasing [OF that, of BASE] by (simp add: BASE_def abs_val)
  obtain f where f: "egcd_loop e = Some (Ok f)" "egcd_inv \<bar>val a\<bar> \<bar>val b\<bar> f" "val (eg_r1 f) = 0"
    using egcd_loop_Ok [OF e(2) small [OF assms(3)] small [OF assms(4)]] by blast
  have w: "wf_big (eg_r0 f)" "wf_big (eg_s0 f)" "wf_big (eg_t0 f)"
    and E: "0 \<le> val (eg_r0 f)" "gcd (val (eg_r0 f)) 0 = gcd \<bar>val a\<bar> \<bar>val b\<bar>" "val (eg_r0 f) \<le> max \<bar>val a\<bar> \<bar>val b\<bar>"
      "val (eg_s0 f) * \<bar>val a\<bar> + val (eg_t0 f) * \<bar>val b\<bar> = val (eg_r0 f)"
      "\<bar>val (eg_s0 f)\<bar> \<le> max 1 \<bar>val b\<bar>" "\<bar>val (eg_t0 f)\<bar> \<le> max 1 \<bar>val a\<bar>"
    using f(2) unfolding egcd_inv_def work_def euclid_def column_def f(3) by simp_all
  let ?A = "\<bar>val a\<bar>" and ?B = "\<bar>val b\<bar>"
  have "\<bar>val (eg_r0 f)\<bar> \<le> max 1 (max ?A ?B)" using E(1,3) by (simp add: le_max_iff_disj)
  moreover have "\<bar>val (eg_s0 f)\<bar> \<le> max 1 (max ?A ?B)" using E(5) by (rule order_trans) simp
  moreover have "\<bar>val (eg_t0 f)\<bar> \<le> max 1 (max ?A ?B)" using E(6) by (rule order_trans) simp
  ultimately have c: "count (eg_r0 f) \<le> max 1 (max (count a) (count b))" "count (eg_s0 f) \<le> max 1 (max (count a) (count b))"
    "count (eg_t0 f) \<le> max 1 (max (count a) (count b))"
    using coefficient_count w by blast+
  note g = assign_Ok [OF w(1) _ assms(6)] and u = assign_Ok [OF w(2) _ assms(8)] and v = assign_Ok [OF w(3) _ assms(10)]
  note l = order_trans [OF add_left_mono [OF c(1)] assms(5)] order_trans [OF add_left_mono [OF c(2)] assms(7)]
    order_trans [OF add_left_mono [OF c(3)] assms(9)]
  have "compute_extended_gcd g u v a b = Some (Ok (assign g (eg_r0 f), assign u (eg_s0 f), assign v (eg_t0 f)))"
    using e(1) f(1) by (simp add: compute_extended_gcd_def)
  from that [OF this] g(1,2) [OF l(1)] u(1,2) [OF l(2)] v(1,2) [OF l(3)] E show ?thesis by simp
qed

lemma gcd_one:
  assumes "wf_big a" and "wf_big b" and "count a \<le> 127" and "count b \<le> 127"
  obtains g u v one where
    "compute_extended_gcd (replicate 130 0) (replicate 130 0) (replicate 130 0) a b = Some (Ok (g, u, v))"
    "from_s32 (replicate 4 0) 1 = Ok one" "cmp_big g one = 0 \<longleftrightarrow> coprime (val a) (val b)"
    "wf_big u" "val u * \<bar>val a\<bar> + val v * \<bar>val b\<bar> = gcd (val a) (val b)" "\<bar>val u\<bar> \<le> max 1 \<bar>val b\<bar>"
proof -
  let ?z = "replicate 130 0 :: big" and ?one = "(init_big (replicate 4 0))[1 := 1, 2 := 1] :: big"
  have "2 + max 1 (max (count a) (count b)) \<le> length ?z" "length ?z < BASE" using assms(3,4) by (simp_all add: BASE_def)
  note l = this this this
  from compute_extended_gcd_Ok [OF assms l] obtain g u v where
    g: "compute_extended_gcd ?z ?z ?z a b = Some (Ok (g, u, v))" "wf_big g" "wf_big u" "wf_big v"
      "val g = gcd (val a) (val b)" "val u * \<bar>val a\<bar> + val v * \<bar>val b\<bar> = gcd (val a) (val b)"
      "\<bar>val u\<bar> \<le> max 1 \<bar>val b\<bar>" "\<bar>val v\<bar> \<le> max 1 \<bar>val a\<bar>" .
  have "length (replicate 4 (0 :: u32)) < BASE" by (simp add: BASE_def)
  then have one: "from_s32 (replicate 4 0) 1 = Ok ?one" "wf_big ?one" "val ?one = 1"
    using from_s32_one [of "replicate 4 0"] wf_one [of "replicate 4 0"] by simp_all
  have "cmp_big g ?one = 0 \<longleftrightarrow> coprime (val a) (val b)"
    unfolding cmp_big_eq [OF g(2) one(2)] one(3) g(5) by (auto simp: coprime_iff_gcd_eq_1)
  from that [OF g(1) one(1) this g(3,6,7)] show ?thesis .
qed

lemma relative_prime_Ok:
  assumes "wf_big a" and "wf_big b" and "count a \<le> 127" and "count b \<le> 127"
  shows "relative_prime a b = Some (Ok (coprime (val a) (val b)))"
proof -
  obtain g u v one where
    "compute_extended_gcd (replicate 130 0) (replicate 130 0) (replicate 130 0) a b = Some (Ok (g, u, v))"
    "from_s32 (replicate 4 0) 1 = Ok one" "cmp_big g one = 0 \<longleftrightarrow> coprime (val a) (val b)"
    "wf_big u" "val u * \<bar>val a\<bar> + val v * \<bar>val b\<bar> = gcd (val a) (val b)" "\<bar>val u\<bar> \<le> max 1 \<bar>val b\<bar>"
    using gcd_one [OF assms] .
  then show ?thesis by (simp add: relative_prime_def)
qed

lemma inv_mod_Ok:
  assumes "wf_big a" and "wf_big n" and "0 < val n" and "count a \<le> 127" and "count n \<le> 127"
    and "3 + count n \<le> length dest" and "length dest < BASE"
  obtains d where "inv_mod dest a n = Some (Ok d)" "wf_big d" "0 \<le> val d" "val d < val n"
    "if coprime (val a) (val n) then val d * \<bar>val a\<bar> mod val n = 1 mod val n else val d = 0"
proof -
  obtain g u v one where g: "compute_extended_gcd (replicate 130 0) (replicate 130 0) (replicate 130 0) a n = Some (Ok (g, u, v))"
    "from_s32 (replicate 4 0) 1 = Ok one" "cmp_big g one = 0 \<longleftrightarrow> coprime (val a) (val n)"
    "wf_big u" "val u * \<bar>val a\<bar> + val v * \<bar>val n\<bar> = gcd (val a) (val n)" "\<bar>val u\<bar> \<le> max 1 \<bar>val n\<bar>"
    using gcd_one [OF assms(1,2,4,5)] .
  have i: "inv_mod dest a n = Some (if coprime (val a) (val n) then modulo_big dest u n else Ok (init_big dest))"
    using g(1-3) by (simp add: inv_mod_def)
  show ?thesis
  proof (cases "coprime (val a) (val n)")
    case True
    have "count u \<le> count n" using count_le_abs [OF g(4) assms(2)] g(6) assms(3) by simp
    then have "count u \<le> 127" "2 + count u \<le> length dest" "2 + count n \<le> length dest" using assms(5,6) by simp_all
    from modulo_big_Ok [OF g(4) assms(2,3) this(1) assms(5) this(2,3) assms(7)] obtain d where
      d: "modulo_big dest u n = Ok d" "wf_big d" "val d = val u mod val n" .
    have "val d * \<bar>val a\<bar> mod val n = val u * \<bar>val a\<bar> mod val n" unfolding d(3) by (rule mod_mult_left_eq)
    also have "\<dots> = (val u * \<bar>val a\<bar> + val v * val n) mod val n" by simp
    also have "val u * \<bar>val a\<bar> + val v * val n = 1" using g(5) True assms(3) by (simp add: coprime_iff_gcd_eq_1)
    finally have m: "val d * \<bar>val a\<bar> mod val n = 1 mod val n" .
    have "0 \<le> val d" "val d < val n" unfolding d(3) using assms(3) by simp_all
    with that [of d] m True d(2) show ?thesis unfolding i d(1) by (simp only: if_True simp_thms)
  next
    case False
    then show ?thesis using that [of "init_big dest"] i wf_init [of dest] assms(3,6,7) by simp
  qed
qed

section \<open>The primality test\<close>

lemma sint_nonneg:
  assumes "0 \<le> sint (v::u32)"
  shows "int (unat v) = sint v"
proof -
  have s: "sint v = signed_take_bit 31 (uint v)" by (simp add: sint_uint)
  then have b: "\<not> bit (uint v) 31" using assms by (simp add: signed_take_bit_nonnegative_iff)
  have "take_bit (Suc 31) (uint v) = uint v" using uint_lt2p [of v] by (simp add: take_bit_int_eq_self_iff)
  then have "uint v = take_bit (Suc 31) (uint v)" by (rule sym)
  also have "\<dots> = take_bit 31 (uint v)" unfolding take_bit_Suc_from_most using b by simp
  finally show ?thesis unfolding s signed_take_bit_eq_if_positive [OF b] by simp
qed

lemma sint_of_nat_small:
  assumes "k < 2 ^ 31"
  shows "sint (word_of_nat k :: u32) = int k"
proof -
  have "take_bit 32 k = k" using assms by (simp add: take_bit_nat_eq_self_iff)
  then have "uint (word_of_nat k :: u32) = int k" by (simp add: unsigned_of_nat)
  then show ?thesis using assms by (simp add: sint_uint signed_take_bit_int_eq_self_iff)
qed

lemma from_s32_pos:
  assumes "2 < length d" and "length d < BASE" and "0 < sint v"
  obtains x where "from_s32 d v = Ok x" "wf_big x" "length x = length d" "val x = sint v"
proof -
  let ?x = "(init_big d)[1 := 1, 2 := v]"
  have v: "v \<noteq> 0" "\<not> sint v < 0" "int (unat v) = sint v"
    using assms(3) sint_nonneg [of v] by auto
  have l: "0 < length d" "1 < length d" using assms(1) by linarith+
  have "?x ! 0 = 0" "?x ! 1 = 1" "?x ! 2 = v" using l assms(1) by (simp_all add: init_big_def)
  then have x: "count ?x = 1" "?x ! 0 = 0" "?x ! Suc (Suc 0) = v" by (simp_all add: count_def numeral_2_eq_2)
  have "wf_big ?x" using x v(1) assms by (simp add: wf_big_def)
  moreover have "mag ?x = unat v" unfolding mag_def x(1) using x(3) by (simp add: lsum_def numeral_2_eq_2)
  then have "val ?x = sint v" using x(2) v(3) by (simp add: val_def)
  moreover have "from_s32 d v = Ok ?x" using l assms(1) v(1,2) by (simp add: from_s32_def Let_def)
  ultimately show ?thesis using that [of ?x] by simp
qed

text \<open>The bases tried are \<open>2 + r\<close> for the rounds left, as far as they are below the number.\<close>

definition fermat :: "int \<Rightarrow> nat \<Rightarrow> nat \<Rightarrow> bool" where
  "fermat n r k \<longleftrightarrow> (\<forall>a \<in> {r + 2..<r + k + 2}. int a < n \<longrightarrow> int a ^ nat (n - 1) mod n = 1)"

lemma fermat_0 [simp]: "fermat n r 0"
  by (simp add: fermat_def)

lemma fermat_Suc:
  "fermat n r (Suc k) \<longleftrightarrow> n \<le> int (r + 2) \<or> int (r + 2) ^ nat (n - 1) mod n = 1 \<and> fermat n (Suc r) k"
proof -
  have "{r + 2..<r + Suc k + 2} = insert (r + 2) {Suc r + 2..<Suc r + k + 2}" by auto
  then show ?thesis by (auto simp: fermat_def not_less)
qed

lemma prime_rounds_Ok:
  assumes "wf_big n" and "count n \<le> 63" and "1 < val n" and "wf_big n1" and "val n1 = val n - 1"
    and "wf_big one" and "val one = 1" and "r + k \<le> 100"
  shows "prime_rounds n n1 one r k = Ok (if fermat (val n) r k then 1 else 0)"
  using assms(8)
proof (induction k arbitrary: r)
  case (Suc k)
  let ?b = "2 + word_of_nat r :: u32" and ?z = "replicate 130 0 :: big"
  have "r + 2 < 2 ^ 31" using Suc.prems by simp
  from sint_of_nat_small [OF this] have sb: "sint ?b = int (r + 2)" by (simp add: add.commute)
  have "2 < length (replicate 4 (0 :: u32))" "length (replicate 4 (0 :: u32)) < BASE" by (simp_all add: BASE_def)
  then obtain a where a: "from_s32 (replicate 4 0) ?b = Ok a" "wf_big a" "length a = length (replicate 4 (0 :: u32))" "val a = int (r + 2)"
    using from_s32_pos [of "replicate 4 0" ?b] sb by (metis of_nat_0_less_iff add_2_eq_Suc' zero_less_Suc)
  have m: "int (mag a) = int (r + 2)" "int (mag n) = val n" using val_mag a(2,4) assms(1,3) by simp_all
  have c: "cmp_mag a n \<ge> 0 \<longleftrightarrow> val n \<le> int (r + 2)"
    unfolding cmp_mag_eq [OF a(2) assms(1)] using m by auto
  have ca: "count a \<le> 127" using a(2,3) by (simp add: wf_big_def)
  have "count n1 \<le> count n" using count_le_abs [OF assms(4,1)] assms(3,5) by simp
  then have l: "32 * count n1 < BASE" "2 + count n \<le> length ?z" "length ?z < BASE" using assms(2) by (simp_all add: BASE_def)
  obtain x where x: "exp_mod ?z a n1 n = Ok x" "wf_big x" "length x = length ?z" "val x = val a ^ mag n1 mod val n"
    using exp_mod_Ok [OF a(2) assms(4,1,3,2) ca l] .
  have "mag n1 = nat (val n - 1)" using val_mag [OF assms(4)] assms(3,5) by simp
  then have "cmp_big x one = 0 \<longleftrightarrow> int (r + 2) ^ nat (val n - 1) mod val n = 1"
    unfolding cmp_big_eq [OF x(2) assms(6)] using x(4) a(4) assms(7) by auto
  then show ?case using a(1) c x(1) Suc.IH [of "Suc r"] Suc.prems unfolding fermat_Suc by simp
qed simp

lemma is_probable_prime_Ok:
  assumes "wf_big n" and "count n \<le> 63"
  shows "is_probable_prime n k = Ok
    (if val n = 2 \<or> 2 < val n \<and> odd (val n) \<and> fermat (val n) 0 (max 1 (min (unat k) 8)) then 1 else 0)"
proof -
  let ?w = "replicate 4 0 :: big" and ?z = "replicate 130 0 :: big"
  have w: "2 < length ?w" "length ?w < BASE" by (simp_all add: BASE_def)
  have s2: "sint (2 :: u32) = 2" using sint_of_nat_small [of 2] by simp
  then have "0 < sint (2 :: u32)" by (simp only: zero_less_numeral)
  from from_s32_pos [OF w this] obtain two where
    "from_s32 ?w 2 = Ok two" "wf_big two" "length two = length ?w" "val two = sint (2 :: u32)" .
  note two = this(1,2) this(4) [unfolded s2]
  obtain one where one: "from_s32 ?w 1 = Ok one" "wf_big one" "length one = 4" "val one = 1"
    using from_s32_one [OF w(1)] wf_one [OF w] by simp
  have neg: "first_or_0 n AND FLAG_NEG \<noteq> 0 \<longleftrightarrow> val n < 0" using assms(1) val_sign by simp
  have z: "is_zero n \<longleftrightarrow> val n = 0" using assms(1) by (rule is_zero_iff)
  note c = cmp_big_eq [OF assms(1) two(2), unfolded two(3)]
  show ?thesis
  proof (cases "2 < val n")
    case True
    have odd: "get_bit n 0 \<longleftrightarrow> odd (val n)"
    proof -
      have "count n \<noteq> 0" using True mag_eq_0 [OF assms(1)] by (auto simp: val_def split: if_splits)
      then have "get_bit n 0 \<longleftrightarrow> odd (mag n)" using get_bit_eq [OF assms(1), of 0] by (simp add: BASE_def bit_0)
      also have "\<dots> \<longleftrightarrow> odd (val n)" using val_mag [OF assms(1)] True by (metis even_of_nat less_imp_le order_trans zero_le_numeral)
      finally show ?thesis .
    qed
    have "count one \<le> 128" "2 + max (count n) (count one) + 1 \<le> length ?z" "length ?z < BASE"
      using one(2,3) assms(2) by (simp_all add: wf_big_def BASE_def)
    from sub_big_Ok [OF assms(1) one(2) this] obtain n1 where
      n1: "sub_big ?z n one = Ok n1" "length n1 = length ?z" "wf_big n1" "val n1 = val n - val one" .
    have "prime_rounds n n1 one 0 (max 1 (min (unat k) 8)) =
        Ok (if fermat (val n) 0 (max 1 (min (unat k) 8)) then 1 else 0)"
      using True n1(4) one(4) by (intro prime_rounds_Ok assms n1(3) one(2)) simp_all
    then show ?thesis
      using True neg z c two(1) one(1) n1(1) odd by (simp add: is_probable_prime_def Let_def)
  next
    case False
    then show ?thesis using neg z c two(1) by (simp add: is_probable_prime_def)
  qed
qed

section \<open>The properties\<close>

text \<open>One-limb numbers, for the examples.\<close>

lemma one_limb [simp]:
  "count [f, 1, w] = 1" "mag [f, 1, w] = unat w" "val [0, 1, w] = int (unat w)" "val [1, 1, w] = - int (unat w)"
  by (simp_all add: count_def mag_def lsum_def val_def)

lemma wf_one_limb [simp]: "wf_big [f, 1, w] \<longleftrightarrow> f \<in> {0, 1} \<and> w \<noteq> 0"
  by (simp add: wf_big_def BASE_def)

text \<open>C27. Addition, subtraction and multiplication of well-formed numbers succeed when the destination has a word
  for every limb of both operands and one more, leave a well-formed number there, and compute the sum, the
  difference and the product of the integers that the operands denote; in particular no carry, borrow or sign is
  lost. Subtraction negates its second operand in a scratch array of 130 words, hence its bound.\<close>

theorem arith_ring_exact:
  assumes "wf_big a" and "wf_big b" and "count b \<le> 128" and "3 + count a + count b \<le> length d" and "length d < BASE"
  shows "(\<exists>s. add_big d a b = Ok s \<and> wf_big s \<and> val s = val a + val b) \<and>
    (\<exists>s. sub_big d a b = Ok s \<and> wf_big s \<and> val s = val a - val b) \<and>
    (\<exists>s. mul_big d a b = Ok s \<and> wf_big s \<and> val s = val a * val b)"
proof -
  have l: "2 + max (count a) (count b) + 1 \<le> length d" "count a + count b + 3 < BASE" "2 \<le> length d"
    using assms(4,5) by linarith+
  have "mag a * mag b < BASE ^ count a * BASE ^ count b"
    using mag_less [of a] mag_less [of b] by (intro mult_strict_mono) simp_all
  also have "\<dots> \<le> BASE ^ (length d - 2)" using assms(4) by (simp flip: power_add add: power_increasing)
  finally have "mag a * mag b < BASE ^ (length d - 2)" .
  note mul = mul_big_Ok [OF assms(1,2) l(2,3) assms(5) this]
  show ?thesis
    using add_big_Ok [OF assms(1,2) l(1) assms(5)] sub_big_Ok [OF assms(1-3) l(1) assms(5)] mul by metis
qed

theorem arith_ring_exact_witness:
  "(\<exists>s. add_big (replicate 5 0) [0, 1, 5] [1, 1, 7] = Ok s \<and> wf_big s \<and> val s = - 2) \<and>
   (\<exists>s. sub_big (replicate 5 0) [0, 1, 5] [1, 1, 7] = Ok s \<and> wf_big s \<and> val s = 12) \<and>
   (\<exists>s. mul_big (replicate 5 0) [0, 1, 5] [1, 1, 7] = Ok s \<and> wf_big s \<and> val s = - 35)"
  using arith_ring_exact [of "[0, 1, 5]" "[1, 1, 7]" "replicate 5 0"] by (simp add: BASE_def)

text \<open>C28. Division by a non-zero number, for dividends of at most 127 limbs, returns the quotient rounded towards
  zero and the remainder with the sign of the dividend, both well formed, although the routine only ever shifts,
  compares and subtracts: the shift-and-subtract loop over the bit positions is long division.\<close>

theorem arith_div_exact:
  assumes "wf_big a" and "wf_big b" and "val b \<noteq> 0" and "count a \<le> 127" and "count b \<le> 128"
    and "2 + count a \<le> length q" and "length q < BASE" and "2 + count a \<le> length r" and "length r < BASE"
  shows "\<exists>q' r'. div_big q r a b = Ok (q', r') \<and> wf_big q' \<and> wf_big r' \<and>
    val q' = val a sdiv val b \<and> val r' = val a smod val b"
  using div_big_Ok [OF assms] by metis

theorem arith_div_exact_witness:
  "\<exists>q' r'. div_big (replicate 3 0) (replicate 3 0) [1, 1, 17] [0, 1, 5] = Ok (q', r') \<and> wf_big q' \<and> wf_big r' \<and>
    val q' = - 3 \<and> val r' = - 2"
  using arith_div_exact [of "[1, 1, 17]" "[0, 1, 5]" "replicate 3 0" "replicate 3 0"]
  by (simp add: BASE_def signed_divide_int_def signed_modulo_int_def)

text \<open>C29. Square-and-multiply exponentiation computes the power modulo \<open>n\<close>, for moduli above 1 of at most 63 limbs:
  then every intermediate product fits the arrays of 130 words.\<close>

theorem arith_exp_mod_exact:
  assumes "wf_big op" and "wf_big e" and "wf_big n" and "1 < val n" and "count n \<le> 63" and "count op \<le> 127"
    and "32 * count e < BASE" and "2 + count n \<le> length dest" and "length dest < BASE"
  shows "\<exists>d. exp_mod dest op e n = Ok d \<and> wf_big d \<and> val d = val op ^ mag e mod val n"
  using exp_mod_Ok [OF assms] by metis

theorem arith_exp_mod_exact_witness:
  "\<exists>d. exp_mod (replicate 3 0) [1, 1, 3] [0, 1, 5] [0, 1, 7] = Ok d \<and> wf_big d \<and> val d = 2"
  using arith_exp_mod_exact [of "[1, 1, 3]" "[0, 1, 5]" "[0, 1, 7]" "replicate 3 0"] by (simp add: BASE_def)

text \<open>C30. The extended Euclidean loop ends for all operands of at most 127 limbs: it returns the greatest common
  divisor and two coefficients that combine the absolute values of the operands to it, with magnitudes bounded by
  the operands, so that no intermediate value outgrows the arrays.\<close>

theorem arith_extended_gcd_returns:
  assumes "wf_big a" and "wf_big b" and "count a \<le> 127" and "count b \<le> 127"
    and "length g = 130" and "length u = 130" and "length v = 130"
  shows "\<exists>g' u' v'. compute_extended_gcd g u v a b = Some (Ok (g', u', v')) \<and>
    val g' = gcd (val a) (val b) \<and> val u' * \<bar>val a\<bar> + val v' * \<bar>val b\<bar> = gcd (val a) (val b) \<and>
    \<bar>val u'\<bar> \<le> max 1 \<bar>val b\<bar> \<and> \<bar>val v'\<bar> \<le> max 1 \<bar>val a\<bar>"
proof -
  have l: "2 + max 1 (max (count a) (count b)) \<le> length x \<and> length x < BASE" if "length x = 130" for x :: big
    using that assms(3,4) by (simp add: BASE_def)
  from compute_extended_gcd_Ok [OF assms(1-4)
      conjunct1 [OF l [OF assms(5)]] conjunct2 [OF l [OF assms(5)]] conjunct1 [OF l [OF assms(6)]]
      conjunct2 [OF l [OF assms(6)]] conjunct1 [OF l [OF assms(7)]] conjunct2 [OF l [OF assms(7)]]]
  show ?thesis by metis
qed

theorem arith_extended_gcd_returns_witness:
  "\<exists>g' u' v'. compute_extended_gcd (replicate 130 0) (replicate 130 0) (replicate 130 0) [0, 1, 12] [1, 1, 18] = Some (Ok (g', u', v')) \<and>
    val g' = 6 \<and> val u' * 12 + val v' * 18 = 6 \<and> \<bar>val u'\<bar> \<le> 18 \<and> \<bar>val v'\<bar> \<le> 12"
proof -
  have "gcd 12 (- 18) = (6 :: int)" by (simp add: gcd_non_0_int)
  then show ?thesis
    using arith_extended_gcd_returns [of "[0, 1, 12]" "[1, 1, 18]" "replicate 130 0" "replicate 130 0" "replicate 130 0"] by simp
qed

text \<open>The modular inverse exists exactly when the relative-primality test says so, and is then an inverse of the
  absolute value of the operand in the range of the modulus; otherwise the result is 0.\<close>

lemma arith_inverse_exact:
  assumes "wf_big a" and "wf_big n" and "0 < val n" and "count a \<le> 127" and "count n \<le> 127"
    and "3 + count n \<le> length dest" and "length dest < BASE"
  shows "\<exists>d. inv_mod dest a n = Some (Ok d) \<and> wf_big d \<and> 0 \<le> val d \<and> val d < val n \<and>
    relative_prime a n = Some (Ok (coprime (val a) (val n))) \<and>
    (if coprime (val a) (val n) then val d * \<bar>val a\<bar> mod val n = 1 mod val n else val d = 0)"
  using inv_mod_Ok [OF assms] relative_prime_Ok [OF assms(1,2,4,5)] by metis

text \<open>C31. The primality test on numbers of at most 63 limbs is Fermat's test, to the bases from 2 on, one per round and at
  most 8: it answers 1 for 2, and for an odd number above 2 if and only if every base below it passes. (A composite
  number may pass; a comment in the code speaks of Miller-Rabin rounds.)\<close>

theorem arith_prime_test_is_fermat:
  assumes "wf_big n" and "count n \<le> 63"
  shows "is_probable_prime n k = Ok
    (if val n = 2 \<or> 2 < val n \<and> odd (val n) \<and> fermat (val n) 0 (max 1 (min (unat k) 8)) then 1 else 0)"
  by (rule is_probable_prime_Ok [OF assms])

theorem arith_prime_test_is_fermat_witness:
  "is_probable_prime [0, 1, 15] 1 = Ok 0 \<and> is_probable_prime [0, 1, 341] 1 = Ok 1 \<and> (341 :: int) = 11 * 31"
proof -
  have 15: "fermat 15 0 (Suc 0) \<longleftrightarrow> False" by (simp add: fermat_def)
  have "(2 :: int) ^ 10 mod 341 = 1" by simp
  then have "((2 :: int) ^ 10 mod 341) ^ 34 mod 341 = 1" by simp
  then have "((2 :: int) ^ 10) ^ 34 mod 341 = 1" by (simp only: power_mod)
  then have "(2 :: int) ^ 340 mod 341 = 1" unfolding power_mult [symmetric] by simp
  then have 341: "fermat 341 0 (Suc 0)" by (simp add: fermat_def)
  show ?thesis
    using arith_prime_test_is_fermat [of "[0, 1, 15]" 1] arith_prime_test_is_fermat [of "[0, 1, 341]" 1] 15 341 by simp
qed

text \<open>C32. An octet string read into a number large enough for it, and written back, comes out without its leading
  zeros; a buffer too short for that is refused, and the bytes behind the result are left alone. The number read
  denotes the big-endian value of the string with the given sign.\<close>

theorem arith_octet_roundtrip:
  assumes "length buf * 8 \<le> USIZE_MAX" and "2 + (length buf + 3) div 4 \<le> length op" and "length op < BASE"
  shows "\<exists>x. from_octet_string op buf sign = (Ok (), x) \<and> wf_big x \<and>
    val x = (if sint sign < 0 then - int (be_val buf) else int (be_val buf)) \<and>
    to_octet_string x out =
      (if length out < length (strip0 buf) then Err ShortBuffer
       else Ok (length (strip0 buf), strip0 buf @ drop (length (strip0 buf)) out))"
proof -
  obtain x where x: "from_octet_string op buf sign = (Ok (), x)" "wf_big x" "length x = length op"
    "val x = (if sint sign < 0 then - int (be_val buf) else int (be_val buf))" using from_octet_Ok [OF assms] .
  have "int (mag x) = int (be_val buf)" unfolding abs_val [symmetric] x(4) by simp
  then have "mag x = be_val buf" by (simp only: of_nat_eq_iff)
  from to_octet_Ok [OF x(2) this] x show ?thesis by blast
qed

theorem arith_octet_roundtrip_witness:
  "\<exists>x. from_octet_string (replicate 4 0) [0, 1, 2, 3, 4] 1 = (Ok (), x) \<and> wf_big x \<and> val x = 16909060 \<and>
    to_octet_string x (replicate 5 9) = Ok (length [1, 2, 3, 4 :: u8], [1, 2, 3, 4, 9])"
  using arith_octet_roundtrip [of "[0, 1, 2, 3, 4]" "replicate 4 0" 1 "replicate 5 9"]
  by (simp add: USIZE_MAX_def BASE_def strip0_def)

end
