(* ===== verification/Crypto_Sw.thy ===== *)
theory Crypto_Sw
  imports Hal_Iface Ta_Elf
begin

text \<open>
  The software provider of \<open>crates/rustee-crypto\<close>: \<open>lib.rs\<close> (keys, the entropy gate, the provider the kernel
  and the storage use) and \<open>provider.rs\<close> (digests, block modes, the wrappers of the RSA and P-256 crates).

  The third-party crates are parameters: \<open>prims\<close> holds the digests, the block cipher, GCM and HKDF, \<open>rsa_crate\<close>
  and \<open>p256_crate\<close> the public-key operations. Their fixed-size arrays are byte lists. A function that fills
  \<open>&mut [u8]\<close> after a length check takes the length of that slice and returns the new contents; one that fills a
  prefix takes the old contents. \<open>check_entropy\<close> depends on the build feature \<open>allow-ree-entropy\<close>, a parameter.
\<close>

section \<open>Keys, errors, entropy (lib.rs)\<close>

datatype crypto_error =
    Crypto_Unsupported | Crypto_InvalidLength | Crypto_InvalidNonce | Crypto_AuthFailure | Crypto_KeyRejected
  | Crypto_Entropy | Crypto_ReeEntropyNotAllowed | Crypto_ReeHukNotAllowed

type_synonym 'a cres = "('a, crypto_error) res"

definition AES_ECB_NOPAD :: u32 where "AES_ECB_NOPAD = 0x10000010"
definition AES_CBC_NOPAD :: u32 where "AES_CBC_NOPAD = 0x10000110"
definition AES_CTR :: u32 where "AES_CTR = 0x10000210"
definition AES_GCM :: u32 where "AES_GCM = 0x40000810"
definition SHA1 :: u32 where "SHA1 = 0x50000002"
definition SHA256 :: u32 where "SHA256 = 0x50000004"
definition HMAC_SHA1 :: u32 where "HMAC_SHA1 = 0x30000002"
definition HMAC_SHA256 :: u32 where "HMAC_SHA256 = 0x30000004"
definition RSASSA_PKCS1_V1_5_SHA256 :: u32 where "RSASSA_PKCS1_V1_5_SHA256 = 0x70004830"
definition RSASSA_PKCS1_PSS_MGF1_SHA256 :: u32 where "RSASSA_PKCS1_PSS_MGF1_SHA256 = 0x70414930"
definition RSAES_PKCS1_OAEP_MGF1_SHA256 :: u32 where "RSAES_PKCS1_OAEP_MGF1_SHA256 = 0x60410230"
definition ECDSA_SHA256 :: u32 where "ECDSA_SHA256 = 0x70003042"
definition HKDF :: u32 where "HKDF = 0x80000047"
definition ELEMENT_NONE :: u32 where "ELEMENT_NONE = 0"
definition ECC_NIST_P256 :: u32 where "ECC_NIST_P256 = 3"

definition is_supported :: "u32 \<Rightarrow> bool" where
  "is_supported a \<longleftrightarrow>
     a \<in> {AES_ECB_NOPAD, AES_CBC_NOPAD, AES_CTR, AES_GCM, SHA1, SHA256, HMAC_SHA1, HMAC_SHA256,
          RSASSA_PKCS1_V1_5_SHA256, RSASSA_PKCS1_PSS_MGF1_SHA256, RSAES_PKCS1_OAEP_MGF1_SHA256, ECDSA_SHA256}"

definition is_supported_element :: "u32 \<Rightarrow> u32 \<Rightarrow> bool" where
  "is_supported_element a element =
     (if a = ECDSA_SHA256 then element = ECC_NIST_P256 else element = ELEMENT_NONE \<and> is_supported a)"

datatype aes_bits = Aes128 | Aes256
datatype aes_key_bytes = K128 bytes | K256 bytes

record aes_key =
  ak_bits :: aes_bits
  ak_bytes :: aes_key_bytes

definition AesKey_from_bytes :: "bytes \<Rightarrow> aes_key cres" where
  "AesKey_from_bytes b =
     (if length b = 16 then Ok \<lparr>ak_bits = Aes128, ak_bytes = K128 b\<rparr>
      else if length b = 32 then Ok \<lparr>ak_bits = Aes256, ak_bytes = K256 b\<rparr>
      else Err Crypto_InvalidLength)"

definition as_slice :: "aes_key \<Rightarrow> bytes" where
  "as_slice k = (case ak_bytes k of K128 b \<Rightarrow> b | K256 b \<Rightarrow> b)"

datatype rsa_bits = Rsa2048 | Rsa3072

definition rsa_nbits :: "rsa_bits \<Rightarrow> usize" where
  "rsa_nbits b = (case b of Rsa2048 \<Rightarrow> 2048 | Rsa3072 \<Rightarrow> 3072)"

definition check_entropy :: "bool \<Rightarrow> entropy_origin \<Rightarrow> unit cres" where
  "check_entropy allow_ree origin =
     (case origin of
        Isolated \<Rightarrow> Ok ()
      | ReeHost \<Rightarrow> if allow_ree then Ok () else Err Crypto_ReeEntropyNotAllowed)"

text \<open>The trait \<open>Entropy\<close>: \<open>fill\<close> gives as many bytes as the buffer has.\<close>

record 'e entropy_ops =
  en_fill :: "'e \<Rightarrow> usize \<Rightarrow> bytes \<times> 'e"
  en_origin :: "'e \<Rightarrow> entropy_origin"

definition fill_random :: "bool \<Rightarrow> 'e entropy_ops \<Rightarrow> 'e \<Rightarrow> usize \<Rightarrow> bytes cres \<times> 'e" where
  "fill_random allow_ree en e n =
     (case check_entropy allow_ree (en_origin en e) of
        Ok _ \<Rightarrow> (case en_fill en e n of (b, e) \<Rightarrow> (Ok b, e))
      | Err x \<Rightarrow> (Err x, e)
      | Panic \<Rightarrow> (Panic, e))"

text \<open>\<open>RngCore for ERng\<close>.\<close>

record 'e rng_core =
  rng_next_u32 :: "'e \<Rightarrow> u32 \<times> 'e"
  rng_next_u64 :: "'e \<Rightarrow> u64 \<times> 'e"
  rng_fill_bytes :: "'e \<Rightarrow> usize \<Rightarrow> bytes \<times> 'e"

definition ERng :: "'e entropy_ops \<Rightarrow> 'e rng_core" where
  "ERng en = \<lparr>rng_next_u32 = (\<lambda>e. case en_fill en e 4 of (b, e) \<Rightarrow> (from_le_bytes b, e)),
             rng_next_u64 = (\<lambda>e. case en_fill en e 8 of (b, e) \<Rightarrow> (from_le_bytes b, e)),
             rng_fill_bytes = en_fill en\<rparr>"

section \<open>Digests, MACs, block modes (provider.rs)\<close>

record prims =
  sha1_digest :: "bytes \<Rightarrow> bytes"
  sha256_digest :: "bytes \<Rightarrow> bytes"
  hmac_sha1_mac :: "bytes \<Rightarrow> bytes \<Rightarrow> bytes option"
  hmac_sha256_mac :: "bytes \<Rightarrow> bytes \<Rightarrow> bytes option"
  aes_encrypt_block :: "aes_bits \<Rightarrow> bytes \<Rightarrow> bytes \<Rightarrow> bytes"
  aes_decrypt_block :: "aes_bits \<Rightarrow> bytes \<Rightarrow> bytes \<Rightarrow> bytes"
  gcm_encrypt :: "aes_bits \<Rightarrow> bytes \<Rightarrow> bytes \<Rightarrow> bytes \<Rightarrow> bytes \<Rightarrow> bytes option"
  gcm_decrypt :: "aes_bits \<Rightarrow> bytes \<Rightarrow> bytes \<Rightarrow> bytes \<Rightarrow> bytes \<Rightarrow> bytes option"
  hkdf_expand :: "bytes \<Rightarrow> bytes \<Rightarrow> usize \<Rightarrow> bytes option"

definition hash_sha1 :: "prims \<Rightarrow> bytes \<Rightarrow> bytes cres" where
  "hash_sha1 pr data = Ok (sha1_digest pr data)"

definition hash_sha256 :: "prims \<Rightarrow> bytes \<Rightarrow> bytes cres" where
  "hash_sha256 pr data = Ok (sha256_digest pr data)"

definition hmac_sha1 :: "prims \<Rightarrow> bytes \<Rightarrow> bytes \<Rightarrow> bytes cres" where
  "hmac_sha1 pr key data = ok_or (hmac_sha1_mac pr key data) Crypto_KeyRejected"

definition hmac_sha256 :: "prims \<Rightarrow> bytes \<Rightarrow> bytes \<Rightarrow> bytes cres" where
  "hmac_sha256 pr key data = ok_or (hmac_sha256_mac pr key data) Crypto_KeyRejected"

definition hkdf_sha256 :: "prims \<Rightarrow> bytes \<Rightarrow> bytes \<Rightarrow> usize \<Rightarrow> bytes cres" where
  "hkdf_sha256 pr ikm info n = ok_or (hkdf_expand pr ikm info n) Crypto_InvalidLength"

text \<open>\<open>data.chunks(16)\<close>.\<close>

fun chunks16 :: "bytes \<Rightarrow> bytes list" where
  "chunks16 xs = (if xs = [] then [] else take 16 xs # chunks16 (drop 16 xs))"

definition xor_bytes :: "bytes \<Rightarrow> bytes \<Rightarrow> bytes" where
  "xor_bytes a b = map2 (XOR) a b"

definition aes_crypt :: "prims \<Rightarrow> aes_key \<Rightarrow> bytes \<Rightarrow> usize \<Rightarrow> bool \<Rightarrow> bytes cres" where
  "aes_crypt pr key data out_len encrypt =
     (if length data mod 16 \<noteq> 0 \<or> out_len \<noteq> length data then Err Crypto_InvalidLength
      else case (ak_bytes key, encrypt) of
        (K128 k, True) \<Rightarrow> Ok (concat (map (aes_encrypt_block pr Aes128 k) (chunks16 data)))
      | (K128 k, False) \<Rightarrow> Ok (concat (map (aes_decrypt_block pr Aes128 k) (chunks16 data)))
      | (K256 k, True) \<Rightarrow> Ok (concat (map (aes_encrypt_block pr Aes256 k) (chunks16 data)))
      | (K256 k, False) \<Rightarrow> Ok (concat (map (aes_decrypt_block pr Aes256 k) (chunks16 data))))"

definition aes_ecb_encrypt :: "prims \<Rightarrow> aes_key \<Rightarrow> bytes \<Rightarrow> usize \<Rightarrow> bytes cres" where
  "aes_ecb_encrypt pr key pt ct_len = aes_crypt pr key pt ct_len True"

definition aes_ecb_decrypt :: "prims \<Rightarrow> aes_key \<Rightarrow> bytes \<Rightarrow> usize \<Rightarrow> bytes cres" where
  "aes_ecb_decrypt pr key ct pt_len = aes_crypt pr key ct pt_len False"

fun cbc_encrypt_loop :: "prims \<Rightarrow> aes_key \<Rightarrow> bytes \<Rightarrow> bytes list \<Rightarrow> bytes cres" where
  "cbc_encrypt_loop pr key prev [] = Ok []"
| "cbc_encrypt_loop pr key prev (chunk # cs) =
     res_bind (aes_crypt pr key (xor_bytes chunk prev) 16 True) (\<lambda>outb.
     res_bind (cbc_encrypt_loop pr key outb cs) (\<lambda>rst. Ok (outb @ rst)))"

definition aes_cbc_encrypt :: "prims \<Rightarrow> aes_key \<Rightarrow> bytes \<Rightarrow> bytes \<Rightarrow> usize \<Rightarrow> bytes cres" where
  "aes_cbc_encrypt pr key iv pt ct_len =
     (if length pt mod 16 \<noteq> 0 \<or> ct_len \<noteq> length pt then Err Crypto_InvalidLength
      else cbc_encrypt_loop pr key iv (chunks16 pt))"

fun cbc_decrypt_loop :: "prims \<Rightarrow> aes_key \<Rightarrow> bytes \<Rightarrow> bytes list \<Rightarrow> bytes cres" where
  "cbc_decrypt_loop pr key prev [] = Ok []"
| "cbc_decrypt_loop pr key prev (chunk # cs) =
     res_bind (aes_crypt pr key chunk 16 False) (\<lambda>dec.
     res_bind (cbc_decrypt_loop pr key chunk cs) (\<lambda>rst. Ok (xor_bytes dec prev @ rst)))"

definition aes_cbc_decrypt :: "prims \<Rightarrow> aes_key \<Rightarrow> bytes \<Rightarrow> bytes \<Rightarrow> usize \<Rightarrow> bytes cres" where
  "aes_cbc_decrypt pr key iv ct pt_len =
     (if length ct mod 16 \<noteq> 0 \<or> pt_len \<noteq> length ct then Err Crypto_InvalidLength
      else cbc_decrypt_loop pr key iv (chunks16 ct))"

text \<open>The big-endian increment, from the last byte on.\<close>

fun inc_le :: "bytes \<Rightarrow> bytes" where
  "inc_le [] = []"
| "inc_le (b # bs) = (if b + 1 \<noteq> 0 then (b + 1) # bs else (b + 1) # inc_le bs)"

definition inc_ctr :: "bytes \<Rightarrow> bytes" where
  "inc_ctr ctr = rev (inc_le (rev ctr))"

text \<open>The part of \<open>inout\<close> from \<open>off\<close> on.\<close>

fun ctr_loop :: "prims \<Rightarrow> aes_key \<Rightarrow> bytes \<Rightarrow> bytes \<Rightarrow> bytes cres" where
  "ctr_loop pr key ctr inout =
     (if inout = [] then Ok []
      else
        res_bind (aes_crypt pr key ctr 16 True) (\<lambda>ks.
        let n = min 16 (length inout) in
        res_bind (ctr_loop pr key (inc_ctr ctr) (drop n inout)) (\<lambda>rst.
          Ok (xor_bytes (take n inout) (take n ks) @ rst))))"

declare ctr_loop.simps [simp del] chunks16.simps [simp del]

definition aes_ctr :: "prims \<Rightarrow> aes_key \<Rightarrow> bytes \<Rightarrow> bytes \<Rightarrow> bytes cres" where
  "aes_ctr pr key iv inout = ctr_loop pr key iv inout"

definition aes_gcm_encrypt :: "prims \<Rightarrow> aes_key \<Rightarrow> bytes \<Rightarrow> bytes \<Rightarrow> bytes \<Rightarrow> usize \<Rightarrow> (bytes \<times> bytes) cres" where
  "aes_gcm_encrypt pr key nonce aad pt ct_len =
     (if ct_len \<noteq> length pt then Err Crypto_InvalidLength
      else
        res_bind
          (case ak_bits key of
             Aes128 \<Rightarrow> res_bind (AesKey_from_bytes (as_slice key)) (\<lambda>_.
               ok_or (gcm_encrypt pr Aes128 (as_slice key) nonce aad pt) Crypto_AuthFailure)
           | Aes256 \<Rightarrow> ok_or (gcm_encrypt pr Aes256 (as_slice key) nonce aad pt) Crypto_AuthFailure)
          (\<lambda>out. if length out \<noteq> length pt + 16 then Err Crypto_InvalidLength
                 else Ok (take (length pt) out, drop (length pt) out)))"

text \<open>\<open>copy_from_slice\<close> of a plaintext of another length than the buffer panics.\<close>

definition aes_gcm_decrypt :: "prims \<Rightarrow> aes_key \<Rightarrow> bytes \<Rightarrow> bytes \<Rightarrow> bytes \<Rightarrow> bytes \<Rightarrow> usize \<Rightarrow> bytes cres" where
  "aes_gcm_decrypt pr key nonce aad ct tag pt_len =
     (if pt_len \<noteq> length ct then Err Crypto_InvalidLength
      else
        res_bind (ok_or (gcm_decrypt pr (ak_bits key) (as_slice key) nonce aad (ct @ tag)) Crypto_AuthFailure)
          (\<lambda>out. if length out = pt_len then Ok out else Panic))"

definition generate_aes :: "bool \<Rightarrow> 'e entropy_ops \<Rightarrow> 'e \<Rightarrow> aes_bits \<Rightarrow> aes_key cres \<times> 'e" where
  "generate_aes allow_ree en e bits =
     (case check_entropy allow_ree (en_origin en e) of
        Ok _ \<Rightarrow>
          (case en_fill en e (case bits of Aes128 \<Rightarrow> 16 | Aes256 \<Rightarrow> 32) of (b, e) \<Rightarrow> (AesKey_from_bytes b, e))
      | Err x \<Rightarrow> (Err x, e)
      | Panic \<Rightarrow> (Panic, e))"

section \<open>RSA and P-256 (provider.rs)\<close>

record rsa_public =
  rp_n :: bytes
  rp_e :: bytes

record ('pk, 'sk, 'e) rsa_crate =
  rc_from_pkcs1_der :: "bytes \<Rightarrow> 'pk option"
  rc_from_public_key_der :: "bytes \<Rightarrow> 'pk option"
  rc_n :: "'pk \<Rightarrow> bytes"
  rc_e :: "'pk \<Rightarrow> bytes"
  rc_public_new :: "bytes \<Rightarrow> bytes \<Rightarrow> 'pk option"
  rc_private_new :: "'e rng_core \<Rightarrow> 'e \<Rightarrow> usize \<Rightarrow> 'sk option \<times> 'e"
  rc_to_public_key :: "'sk \<Rightarrow> 'pk"
  rc_sign_pss :: "'e rng_core \<Rightarrow> 'e \<Rightarrow> 'sk \<Rightarrow> bytes \<Rightarrow> bytes option \<times> 'e"
  rc_sign_pkcs1 :: "'sk \<Rightarrow> bytes \<Rightarrow> bytes option"
  rc_verify_pkcs1 :: "'pk \<Rightarrow> bytes \<Rightarrow> bytes \<Rightarrow> bool"
  rc_verify_pss :: "'pk \<Rightarrow> bytes \<Rightarrow> bytes \<Rightarrow> bool"
  rc_encrypt_oaep :: "'e rng_core \<Rightarrow> 'e \<Rightarrow> 'pk \<Rightarrow> bytes \<Rightarrow> bytes option \<times> 'e"
  rc_decrypt_oaep :: "'sk \<Rightarrow> bytes \<Rightarrow> bytes option"

definition rsa_public_of :: "('pk, 'sk, 'e) rsa_crate \<Rightarrow> 'pk \<Rightarrow> rsa_public" where
  "rsa_public_of rc k = \<lparr>rp_n = rc_n rc k, rp_e = rc_e rc k\<rparr>"

definition parse_rsa_der :: "('pk, 'sk, 'e) rsa_crate \<Rightarrow> bytes \<Rightarrow> rsa_public option" where
  "parse_rsa_der rc b =
     (if b \<noteq> [] \<and> hd b = 0x30 then
        case rc_from_pkcs1_der rc b of
          Some k \<Rightarrow> Some (rsa_public_of rc k)
        | None \<Rightarrow> map_option (rsa_public_of rc) (rc_from_public_key_der rc b)
      else None)"

definition parse_rsa_public :: "('pk, 'sk, 'e) rsa_crate \<Rightarrow> bytes \<Rightarrow> rsa_public cres" where
  "parse_rsa_public rc b =
     (case parse_rsa_der rc b of
        Some k \<Rightarrow> Ok k
      | None \<Rightarrow>
          if length b = 256 \<or> length b = 384 then Ok \<lparr>rp_n = b, rp_e = [0x01, 0x00, 0x01]\<rparr>
          else if length b = 259 \<or> length b = 387 then
            let nlen = length b - 3 in Ok \<lparr>rp_n = take nlen b, rp_e = drop nlen b\<rparr>
          else Err Crypto_KeyRejected)"

definition rsa_pub :: "('pk, 'sk, 'e) rsa_crate \<Rightarrow> rsa_public \<Rightarrow> 'pk cres" where
  "rsa_pub rc pk = ok_or (rc_public_new rc (rp_n pk) (rp_e pk)) Crypto_KeyRejected"

text \<open>\<open>buf[..out.len()].copy_from_slice(&out)\<close> after the length check, with the number of bytes.\<close>

definition put_prefix :: "bytes \<Rightarrow> bytes \<Rightarrow> (usize \<times> bytes) cres" where
  "put_prefix buf out =
     (if length buf < length out then Err Crypto_InvalidLength
      else res_bind (put_range buf 0 out) (\<lambda>buf. Ok (length out, buf)))"

definition generate_rsa ::
  "bool \<Rightarrow> 'e entropy_ops \<Rightarrow> ('pk, 'sk, 'e) rsa_crate \<Rightarrow> 'e \<Rightarrow> rsa_bits \<Rightarrow> (rsa_public \<times> 'sk) cres \<times> 'e" where
  "generate_rsa allow_ree en rc e bits =
     (case check_entropy allow_ree (en_origin en e) of
        Ok _ \<Rightarrow>
          (case rc_private_new rc (ERng en) e (rsa_nbits bits) of
             (sk, e) \<Rightarrow> (res_bind (ok_or sk Crypto_KeyRejected)
               (\<lambda>sk. Ok (rsa_public_of rc (rc_to_public_key rc sk), sk)), e))
      | Err x \<Rightarrow> (Err x, e)
      | Panic \<Rightarrow> (Panic, e))"

definition rsa_pss_sign ::
  "bool \<Rightarrow> 'e entropy_ops \<Rightarrow> ('pk, 'sk, 'e) rsa_crate \<Rightarrow> 'e \<Rightarrow> 'sk \<Rightarrow> bytes \<Rightarrow> bytes \<Rightarrow> (usize \<times> bytes) cres \<times> 'e" where
  "rsa_pss_sign allow_ree en rc e sk digest sig =
     (case check_entropy allow_ree (en_origin en e) of
        Ok _ \<Rightarrow>
          (case rc_sign_pss rc (ERng en) e sk digest of
             (out, e) \<Rightarrow> (res_bind (ok_or out Crypto_KeyRejected) (put_prefix sig), e))
      | Err x \<Rightarrow> (Err x, e)
      | Panic \<Rightarrow> (Panic, e))"

definition rsa_pkcs1_sign :: "('pk, 'sk, 'e) rsa_crate \<Rightarrow> 'sk \<Rightarrow> bytes \<Rightarrow> bytes \<Rightarrow> (usize \<times> bytes) cres" where
  "rsa_pkcs1_sign rc sk digest sig = res_bind (ok_or (rc_sign_pkcs1 rc sk digest) Crypto_KeyRejected) (put_prefix sig)"

definition rsa_pkcs1_verify_key :: "('pk, 'sk, 'e) rsa_crate \<Rightarrow> rsa_public \<Rightarrow> bytes \<Rightarrow> bytes \<Rightarrow> unit cres" where
  "rsa_pkcs1_verify_key rc pk digest sig =
     res_bind (rsa_pub rc pk) (\<lambda>key. if rc_verify_pkcs1 rc key digest sig then Ok () else Err Crypto_AuthFailure)"

definition rsa_pss_verify :: "('pk, 'sk, 'e) rsa_crate \<Rightarrow> rsa_public \<Rightarrow> bytes \<Rightarrow> bytes \<Rightarrow> unit cres" where
  "rsa_pss_verify rc pk digest sig =
     res_bind (rsa_pub rc pk) (\<lambda>key. if rc_verify_pss rc key digest sig then Ok () else Err Crypto_AuthFailure)"

definition rsa_oaep_encrypt ::
  "bool \<Rightarrow> 'e entropy_ops \<Rightarrow> ('pk, 'sk, 'e) rsa_crate \<Rightarrow> 'e \<Rightarrow> rsa_public \<Rightarrow> bytes \<Rightarrow> bytes \<Rightarrow> (usize \<times> bytes) cres \<times> 'e" where
  "rsa_oaep_encrypt allow_ree en rc e pk pt ct =
     (case res_bind (check_entropy allow_ree (en_origin en e)) (\<lambda>_. rsa_pub rc pk) of
        Ok key \<Rightarrow>
          (case rc_encrypt_oaep rc (ERng en) e key pt of
             (out, e) \<Rightarrow> (res_bind (ok_or out Crypto_KeyRejected) (put_prefix ct), e))
      | Err x \<Rightarrow> (Err x, e)
      | Panic \<Rightarrow> (Panic, e))"

definition rsa_oaep_decrypt :: "('pk, 'sk, 'e) rsa_crate \<Rightarrow> 'sk \<Rightarrow> bytes \<Rightarrow> bytes \<Rightarrow> (usize \<times> bytes) cres" where
  "rsa_oaep_decrypt rc sk ct pt = res_bind (ok_or (rc_decrypt_oaep rc sk ct) Crypto_AuthFailure) (put_prefix pt)"

text \<open>The point and the scalar of a fresh key; a signing key and a signature read from bytes.\<close>

record ('k, 'v, 's, 'e) p256_crate =
  pc_random :: "'e rng_core \<Rightarrow> 'e \<Rightarrow> (bytes \<times> bytes) \<times> 'e"
  pc_signing_key :: "bytes \<Rightarrow> 'k option"
  pc_sign_prehash :: "'k \<Rightarrow> bytes \<Rightarrow> bytes option"
  pc_verifying_key :: "bytes \<Rightarrow> 'v option"
  pc_signature :: "bytes \<Rightarrow> 's option"
  pc_verify_prehash :: "'v \<Rightarrow> bytes \<Rightarrow> 's \<Rightarrow> bool"

definition generate_p256 ::
  "bool \<Rightarrow> 'e entropy_ops \<Rightarrow> ('k, 'v, 's, 'e) p256_crate \<Rightarrow> 'e \<Rightarrow> (bytes \<times> bytes) cres \<times> 'e" where
  "generate_p256 allow_ree en pc e =
     (case check_entropy allow_ree (en_origin en e) of
        Ok _ \<Rightarrow>
          (case pc_random pc (ERng en) e of
             ((sl, sec), e) \<Rightarrow> (if length sl \<noteq> 65 then Err Crypto_KeyRejected else Ok (sl, sec), e))
      | Err x \<Rightarrow> (Err x, e)
      | Panic \<Rightarrow> (Panic, e))"

definition ecdsa_p256_sign :: "('k, 'v, 's, 'e) p256_crate \<Rightarrow> bytes \<Rightarrow> bytes \<Rightarrow> bytes cres" where
  "ecdsa_p256_sign pc sk digest =
     res_bind (ok_or (pc_signing_key pc sk) Crypto_KeyRejected) (\<lambda>key.
       ok_or (pc_sign_prehash pc key digest) Crypto_KeyRejected)"

definition ecdsa_p256_verify :: "('k, 'v, 's, 'e) p256_crate \<Rightarrow> bytes \<Rightarrow> bytes \<Rightarrow> bytes \<Rightarrow> unit cres" where
  "ecdsa_p256_verify pc pk digest sig =
     res_bind (ok_or (pc_verifying_key pc pk) Crypto_KeyRejected) (\<lambda>vk.
     res_bind (ok_or (pc_signature pc sig) Crypto_AuthFailure) (\<lambda>s.
       if pc_verify_prehash pc vk digest s then Ok () else Err Crypto_AuthFailure))"

section \<open>The provider of the kernel (lib.rs)\<close>

text \<open>\<open>sha256\<close> starts from zeros and ignores the result of \<open>hash_sha256\<close>.\<close>

definition sw_sha256 :: "prims \<Rightarrow> bytes \<Rightarrow> bytes" where
  "sw_sha256 pr data = (case hash_sha256 pr data of Ok d \<Rightarrow> d | _ \<Rightarrow> replicate 32 0)"

definition sw_rsa_pkcs1_verify :: "('pk, 'sk, 'e) rsa_crate \<Rightarrow> bytes \<Rightarrow> bytes \<Rightarrow> bytes \<Rightarrow> bool" where
  "sw_rsa_pkcs1_verify rc pubkey digest sig =
     (case parse_rsa_public rc pubkey of
        Ok pk \<Rightarrow> is_Ok (rsa_pkcs1_verify_key rc pk digest sig)
      | _ \<Rightarrow> False)"

definition software_provider :: "prims \<Rightarrow> ('pk, 'sk, 'e) rsa_crate \<Rightarrow> crypto_ops" where
  "software_provider pr rc = \<lparr>sha256 = sw_sha256 pr, rsa_pkcs1_verify = sw_rsa_pkcs1_verify rc\<rparr>"

end
