(* ===== verification/Storage_Model.thy ===== *)
theory Storage_Model
  imports Crypto_Sw Msg_Proto
begin

text \<open>
  The encrypted object store of \<open>crates/rustee-storage\<close>: \<open>ReeFs\<close> with its directory and object formats
  (\<open>lib.rs\<close>), the in-memory backend \<open>MemFs\<close>, and the backend \<open>RpcFs\<close> over the file RPCs (\<open>rpc.rs\<close>).

  An operation takes the state and returns a result with the new state, or \<open>None\<close> when it never returns: the
  loops of \<open>RpcFs\<close> go on as long as the host answers with full chunks. Paths are byte strings, the
  traits \<open>Entropy\<close>, \<open>FsRpc\<close> and \<open>FsClient\<close> records of functions, and the cipher comes from the software provider.
\<close>

section \<open>Results with a state\<close>

datatype storage_error = Storage_Corrupt | Storage_NotFound | Storage_TooBig | Storage_Crypto | Storage_Fs

type_synonym 'a sres = "('a, storage_error) res"
type_synonym ('a, 's) sm = "'s \<Rightarrow> ('a sres \<times> 's) option"

definition sret :: "'a \<Rightarrow> ('a, 's) sm" where "sret x s = Some (Ok x, s)"

definition slift :: "'a sres \<Rightarrow> ('a, 's) sm" where "slift r s = Some (r, s)"

text \<open>\<open>?\<close> after a call, and a call whose error the caller looks at or drops; a panic is never caught.\<close>

definition sbind :: "('a, 's) sm \<Rightarrow> ('a \<Rightarrow> ('b, 's) sm) \<Rightarrow> ('b, 's) sm" where
  "sbind m k s =
     (case m s of
        None \<Rightarrow> None
      | Some (r, s) \<Rightarrow> (case r of Ok x \<Rightarrow> k x s | Err e \<Rightarrow> Some (Err e, s) | Panic \<Rightarrow> Some (Panic, s)))"

definition stry :: "('a, 's) sm \<Rightarrow> ('a option \<Rightarrow> ('b, 's) sm) \<Rightarrow> ('b, 's) sm" where
  "stry m k s =
     (case m s of
        None \<Rightarrow> None
      | Some (r, s) \<Rightarrow> (case r of Ok x \<Rightarrow> k (Some x) s | Err e \<Rightarrow> k None s | Panic \<Rightarrow> Some (Panic, s)))"

definition smap_err :: "(storage_error \<Rightarrow> storage_error) \<Rightarrow> ('a, 's) sm \<Rightarrow> ('a, 's) sm" where
  "smap_err f m s = map_option (\<lambda>(r, s). (map_err f r, s)) (m s)"

definition from_crypto :: "'a cres \<Rightarrow> 'a sres" where
  "from_crypto r = map_err (\<lambda>_. Storage_Crypto) r"

definition MAX_OBJECT :: usize where "MAX_OBJECT = 1024 * 1024"

section \<open>Backends\<close>

record 'f fs_rpc =
  fr_create :: "bytes \<Rightarrow> bytes \<Rightarrow> (unit, 'f) sm"
  fr_read :: "bytes \<Rightarrow> (bytes, 'f) sm"
  fr_write :: "bytes \<Rightarrow> bytes \<Rightarrow> (unit, 'f) sm"
  fr_delete :: "bytes \<Rightarrow> (unit, 'f) sm"
  fr_mkdir :: "bytes \<Rightarrow> (unit, 'f) sm"

type_synonym mem_fs = "bytes \<rightharpoonup> bytes"

definition MemFs_new :: mem_fs where "MemFs_new = Map.empty"

definition mem_create :: "bytes \<Rightarrow> bytes \<Rightarrow> (unit, mem_fs) sm" where
  "mem_create path data f = Some (Ok (), f(path \<mapsto> data))"

definition mem_read :: "bytes \<Rightarrow> (bytes, mem_fs) sm" where
  "mem_read path f = Some (ok_or (f path) Storage_NotFound, f)"

definition mem_write :: "bytes \<Rightarrow> bytes \<Rightarrow> (unit, mem_fs) sm" where
  "mem_write path data f = Some (Ok (), f(path \<mapsto> data))"

definition mem_delete :: "bytes \<Rightarrow> (unit, mem_fs) sm" where
  "mem_delete path f = Some (Ok (), f(path := None))"

definition mem_mkdir :: "bytes \<Rightarrow> (unit, mem_fs) sm" where
  "mem_mkdir path f = Some (Ok (), f)"

definition MemFs :: "mem_fs fs_rpc" where
  "MemFs = \<lparr>fr_create = mem_create, fr_read = mem_read, fr_write = mem_write, fr_delete = mem_delete,
            fr_mkdir = mem_mkdir\<rparr>"

text \<open>\<open>rpc_fs(op, name, fd, off, data)\<close> of the trait \<open>FsClient\<close>.\<close>

type_synonym 'c fs_client = "u32 \<Rightarrow> bytes \<Rightarrow> u32 \<Rightarrow> u32 \<Rightarrow> bytes \<Rightarrow> (u32 \<times> bytes, 'c) sm"

definition CHUNK :: usize where "CHUNK = 4096"

definition with_fd :: "'c fs_client \<Rightarrow> bytes \<Rightarrow> bool \<Rightarrow> (u32 \<Rightarrow> ('a, 'c) sm) \<Rightarrow> ('a, 'c) sm" where
  "with_fd rpc path create f =
     sbind (rpc (if create then RPC_FS_CREATE else RPC_FS_OPEN) path 0 0 []) (\<lambda>(fd, _) c.
       case f fd c of
         None \<Rightarrow> None
       | Some (Panic, c) \<Rightarrow> Some (Panic, c)
       | Some (r, c) \<Rightarrow> stry (rpc RPC_FS_CLOSE [] fd 0 []) (\<lambda>_. slift r) c)"

text \<open>The two loops. \<open>end as u32\<close> and \<open>out.len() as u32\<close> truncate.\<close>

partial_function (option) put_loop :: "'c fs_client \<Rightarrow> u32 \<Rightarrow> bytes \<Rightarrow> u32 \<Rightarrow> 'c \<Rightarrow> (unit sres \<times> 'c) option" where
  "put_loop rpc fd data off c =
     (if unat off < length data then
        let e = min (unat off + CHUNK) (length data) in
        (case rpc RPC_FS_WRITE [] fd off (take (e - unat off) (drop (unat off) data)) c of
           None \<Rightarrow> None
         | Some (r, c) \<Rightarrow> (case r of Ok _ \<Rightarrow> put_loop rpc fd data (word_of_nat e) c | Err x \<Rightarrow> Some (Err x, c) | Panic \<Rightarrow> Some (Panic, c)))
      else Some (Ok (), c))"

declare put_loop.simps [code]

definition put :: "'c fs_client \<Rightarrow> u32 \<Rightarrow> bytes \<Rightarrow> (unit, 'c) sm" where
  "put rpc fd data =
     sbind (put_loop rpc fd data 0) (\<lambda>_.
     sbind (rpc RPC_FS_TRUNCATE [] fd (word_of_nat (length data)) []) (\<lambda>_. sret ()))"

partial_function (option) read_loop :: "'c fs_client \<Rightarrow> u32 \<Rightarrow> bytes \<Rightarrow> 'c \<Rightarrow> (bytes sres \<times> 'c) option" where
  "read_loop rpc fd out c =
     (case rpc RPC_FS_READ [] fd (word_of_nat (length out)) (replicate CHUNK 0) c of
        None \<Rightarrow> None
      | Some (r, c) \<Rightarrow>
          (case r of
             Ok nc \<Rightarrow>
               if unat (fst nc) < CHUNK then Some (Ok (out @ snd nc), c) else read_loop rpc fd (out @ snd nc) c
           | Err x \<Rightarrow> Some (Err x, c)
           | Panic \<Rightarrow> Some (Panic, c)))"

declare read_loop.simps [code]

definition rpc_create :: "'c fs_client \<Rightarrow> bytes \<Rightarrow> bytes \<Rightarrow> (unit, 'c) sm" where
  "rpc_create rpc path data = with_fd rpc path True (\<lambda>fd. put rpc fd data)"

definition rpc_read :: "'c fs_client \<Rightarrow> bytes \<Rightarrow> (bytes, 'c) sm" where
  "rpc_read rpc path = with_fd rpc path False (\<lambda>fd. read_loop rpc fd [])"

definition rpc_write :: "'c fs_client \<Rightarrow> bytes \<Rightarrow> bytes \<Rightarrow> (unit, 'c) sm" where
  "rpc_write rpc path data c =
     (case with_fd rpc path False (\<lambda>fd. put rpc fd data) c of
        None \<Rightarrow> None
      | Some (Err Storage_NotFound, c) \<Rightarrow> with_fd rpc path True (\<lambda>fd. put rpc fd data) c
      | Some (r, c) \<Rightarrow> Some (r, c))"

definition rpc_delete :: "'c fs_client \<Rightarrow> bytes \<Rightarrow> (unit, 'c) sm" where
  "rpc_delete rpc path = sbind (rpc RPC_FS_REMOVE path 0 0 []) (\<lambda>_. sret ())"

definition rpc_mkdir :: "bytes \<Rightarrow> (unit, 'c) sm" where
  "rpc_mkdir path = sret ()"

definition RpcFs :: "'c fs_client \<Rightarrow> 'c fs_rpc" where
  "RpcFs rpc = \<lparr>fr_create = rpc_create rpc, fr_read = rpc_read rpc, fr_write = rpc_write rpc,
                fr_delete = rpc_delete rpc, fr_mkdir = rpc_mkdir\<rparr>"

text \<open>The file table with descriptors that stands for the host in the crate's own test of \<open>RpcFs\<close>.\<close>

record fd_mem =
  fm_files :: "bytes \<rightharpoonup> bytes"
  fm_fds :: "u32 \<rightharpoonup> bytes"
  fm_next :: u32

definition FdMem_new :: fd_mem where
  "FdMem_new = \<lparr>fm_files = Map.empty, fm_fds = Map.empty, fm_next = 1\<rparr>"

definition fd_alloc :: "bytes \<Rightarrow> (u32 \<times> bytes, fd_mem) sm" where
  "fd_alloc name m =
     (if fm_next m = - 1 then Some (Panic, m)
      else Some (Ok (fm_next m, []), m\<lparr>fm_next := fm_next m + 1, fm_fds := (fm_fds m)(fm_next m \<mapsto> name)\<rparr>))"

definition fd_path :: "u32 \<Rightarrow> (bytes, fd_mem) sm" where
  "fd_path fd m = Some (ok_or (fm_fds m fd) Storage_NotFound, m)"

definition resize :: "bytes \<Rightarrow> usize \<Rightarrow> bytes" where
  "resize xs n = take n xs @ replicate (n - length xs) 0"

definition fd_read :: "u32 \<Rightarrow> u32 \<Rightarrow> bytes \<Rightarrow> (u32 \<times> bytes, fd_mem) sm" where
  "fd_read fd off data =
     sbind (fd_path fd) (\<lambda>path m.
       case fm_files m path of
         None \<Rightarrow> Some (Err Storage_NotFound, m)
       | Some file \<Rightarrow>
           let start = unat off in
           if start \<ge> length file then Some (Ok (0, []), m)
           else
             let n = min (max (length data) 1) (length file - start) in
             Some (Ok (word_of_nat n, take n (drop start file)), m))"

definition fd_write :: "u32 \<Rightarrow> u32 \<Rightarrow> bytes \<Rightarrow> (u32 \<times> bytes, fd_mem) sm" where
  "fd_write fd off data =
     sbind (fd_path fd) (\<lambda>path m.
       let file = (case fm_files m path of Some f \<Rightarrow> f | None \<Rightarrow> []);
           start = unat off;
           file = (if length file < start + length data then resize file (start + length data) else file);
           file = take start file @ data @ drop (start + length data) file in
       Some (Ok (word_of_nat (length data), []), m\<lparr>fm_files := (fm_files m)(path \<mapsto> file)\<rparr>))"

definition fd_truncate :: "u32 \<Rightarrow> u32 \<Rightarrow> (u32 \<times> bytes, fd_mem) sm" where
  "fd_truncate fd off =
     sbind (fd_path fd) (\<lambda>path m.
       let file = (case fm_files m path of Some f \<Rightarrow> f | None \<Rightarrow> []) in
       Some (Ok (0, []), m\<lparr>fm_files := (fm_files m)(path \<mapsto> resize file (unat off))\<rparr>))"

definition FdMem_rpc_fs :: "fd_mem fs_client" where
  "FdMem_rpc_fs op name fd off data m =
     (if op = RPC_FS_CREATE then
        fd_alloc name (if fm_files m name = None then m\<lparr>fm_files := (fm_files m)(name \<mapsto> [])\<rparr> else m)
      else if op = RPC_FS_OPEN then
        (if fm_files m name = None then Some (Err Storage_NotFound, m) else fd_alloc name m)
      else if op = RPC_FS_CLOSE then Some (Ok (0, []), m\<lparr>fm_fds := (fm_fds m)(fd := None)\<rparr>)
      else if op = RPC_FS_READ then fd_read fd off data m
      else if op = RPC_FS_WRITE then fd_write fd off data m
      else if op = RPC_FS_TRUNCATE then fd_truncate fd off m
      else if op = RPC_FS_REMOVE then Some (Ok (0, []), m\<lparr>fm_files := (fm_files m)(name := None)\<rparr>)
      else Some (Err Storage_Fs, m))"

section \<open>Keys and paths\<close>

record object_meta =
  om_object_id :: bytes
  om_flags :: u32
  om_data_size :: u64

record object_handle =
  oh_ta :: bytes
  oh_file_id :: bytes
  oh_object_id :: bytes
  oh_flags :: u32
  oh_data :: bytes
  oh_obj_version :: u64

text \<open>What \<open>ReeFs\<close> is generic in, and its state.\<close>

record ('e, 'f) ree_env =
  re_entropy :: "'e entropy_ops"
  re_huk :: bytes
  re_fs :: "'f fs_rpc"
  re_prims :: prims

record ('e, 'f) ree_fs =
  rf_entropy :: 'e
  rf_fs :: 'f

definition on_fs :: "('a, 'f) sm \<Rightarrow> ('a, ('e, 'f) ree_fs) sm" where
  "on_fs m s = map_option (\<lambda>(r, f). (r, s\<lparr>rf_fs := f\<rparr>)) (m (rf_fs s))"

definition fill :: "('e, 'f) ree_env \<Rightarrow> usize \<Rightarrow> (bytes, ('e, 'f) ree_fs) sm" where
  "fill env n s = (case en_fill (re_entropy env) (rf_entropy s) n of (b, e) \<Rightarrow> Some (Ok b, s\<lparr>rf_entropy := e\<rparr>))"

definition tsk :: "('e, 'f) ree_env \<Rightarrow> bytes \<Rightarrow> bytes sres" where
  "tsk env ta =
     res_bind (from_crypto (hkdf_sha256 (re_prims env) (re_huk env) (ascii ''rustee.storage.ssk.v1'') 32)) (\<lambda>ssk.
       from_crypto (hkdf_sha256 (re_prims env) ssk (ascii ''rustee.storage.ta.v1'' @ ta) 32))"

definition derive :: "('e, 'f) ree_env \<Rightarrow> bytes \<Rightarrow> string \<Rightarrow> bytes sres" where
  "derive env k info = from_crypto (hkdf_sha256 (re_prims env) k (ascii info) 32)"

definition hex_char :: "nat \<Rightarrow> u8" where
  "hex_char n = ascii ''0123456789abcdef'' ! n"

definition hex32 :: "bytes \<Rightarrow> bytes" where
  "hex32 b = concat (map (\<lambda>x. [hex_char (unat (drop_bit 4 x)), hex_char (unat (x AND 0xf))]) b)"

definition ta_hex :: "bytes \<Rightarrow> bytes" where "ta_hex ta = hex32 ta"

definition dir_path :: "bytes \<Rightarrow> bytes" where "dir_path ta = ta_hex ta @ ascii ''/dir.v1''"

definition obj_path :: "bytes \<Rightarrow> bytes \<Rightarrow> bytes" where
  "obj_path ta file_id = ta_hex ta @ ascii ''/obj/'' @ hex32 file_id"

section \<open>The object format\<close>

definition object_aad :: "bytes \<Rightarrow> bytes \<Rightarrow> u64 \<Rightarrow> bytes" where
  "object_aad ta file_id ver = ascii ''RSTO'' @ [1] @ ta @ file_id @ to_le_bytes ver"

definition object_plain :: "object_handle \<Rightarrow> bytes" where
  "object_plain h = word_of_nat (length (oh_object_id h)) # oh_object_id h @ oh_data h"

definition object_blob :: "object_handle \<Rightarrow> bytes \<Rightarrow> bytes \<Rightarrow> bytes \<Rightarrow> bytes \<Rightarrow> usize \<Rightarrow> bytes \<Rightarrow> bytes \<Rightarrow> bytes" where
  "object_blob h wrap_nonce body_nonce wrapped wrap_tag pt_len ct body_tag =
     ascii ''RSTO'' @ [1] @ [0] @ to_le_bytes (0 :: u16) @ oh_file_id h @ oh_ta h @ to_le_bytes (oh_obj_version h) @
     wrap_nonce @ body_nonce @ wrapped @ wrap_tag @ to_le_bytes (word_of_nat pt_len :: u64) @ ct @ body_tag"

definition write_or_create :: "('e, 'f) ree_env \<Rightarrow> bytes \<Rightarrow> bytes \<Rightarrow> (unit, ('e, 'f) ree_fs) sm" where
  "write_or_create env path blob =
     stry (on_fs (fr_write (re_fs env) path blob)) (\<lambda>r.
       case r of Some _ \<Rightarrow> sret () | None \<Rightarrow> on_fs (fr_create (re_fs env) path blob))"

definition write_object :: "('e, 'f) ree_env \<Rightarrow> object_handle \<Rightarrow> (unit, ('e, 'f) ree_fs) sm" where
  "write_object env h =
     sbind (slift (tsk env (oh_ta h))) (\<lambda>k.
     sbind (slift (derive env k ''rustee.storage.wrap.v1'')) (\<lambda>k_wrap.
     sbind (fill env 32) (\<lambda>fek_bytes.
     sbind (slift (from_crypto (AesKey_from_bytes fek_bytes))) (\<lambda>fek.
     sbind (fill env 12) (\<lambda>wrap_nonce.
     sbind (fill env 12) (\<lambda>body_nonce.
     sbind (slift (from_crypto (AesKey_from_bytes k_wrap))) (\<lambda>wrap_key.
     let aad = object_aad (oh_ta h) (oh_file_id h) (oh_obj_version h) in
     sbind (slift (from_crypto (aes_gcm_encrypt (re_prims env) wrap_key wrap_nonce aad fek_bytes 32))) (\<lambda>(wrapped, wrap_tag).
     let pt = object_plain h; baad = aad @ to_le_bytes (word_of_nat (length pt) :: u64) in
     sbind (slift (from_crypto (aes_gcm_encrypt (re_prims env) fek body_nonce baad pt (length pt)))) (\<lambda>(ct, body_tag).
       write_or_create env (obj_path (oh_ta h) (oh_file_id h))
         (object_blob h wrap_nonce body_nonce wrapped wrap_tag (length pt) ct body_tag))))))))))"

definition decrypt_object ::
  "('e, 'f) ree_env \<Rightarrow> bytes \<Rightarrow> bytes \<Rightarrow> bytes \<Rightarrow> u32 \<Rightarrow> u64 \<Rightarrow> bytes \<Rightarrow> object_handle sres" where
  "decrypt_object env ta file_id object_id flags obj_version blob =
     (if length blob < 128 \<or> take 4 blob \<noteq> ascii ''RSTO'' then Err Storage_Corrupt
      else
        res_bind (slice_range blob 48 60) (\<lambda>wrap_nonce.
        res_bind (slice_range blob 60 72) (\<lambda>body_nonce.
        res_bind (slice_range blob 72 104) (\<lambda>wrapped.
        res_bind (slice_range blob 104 120) (\<lambda>wrap_tag.
        res_bind (read_le blob 120) (\<lambda>w :: u64.
        let pt_len = unat w in
        res_bind (usize_add 128 pt_len) (\<lambda>body_end.
        res_bind (usize_add body_end 16) (\<lambda>blob_end.
        if length blob < blob_end then Err Storage_Corrupt
        else
          res_bind (slice_range blob 128 body_end) (\<lambda>ct.
          res_bind (slice_range blob body_end blob_end) (\<lambda>body_tag.
          res_bind (tsk env ta) (\<lambda>k.
          res_bind (derive env k ''rustee.storage.wrap.v1'') (\<lambda>k_wrap.
          res_bind (from_crypto (AesKey_from_bytes k_wrap)) (\<lambda>wrap_key.
          let aad = object_aad ta file_id obj_version in
          res_bind (map_err (\<lambda>_. Storage_Corrupt) (aes_gcm_decrypt (re_prims env) wrap_key wrap_nonce aad wrapped wrap_tag 32)) (\<lambda>fek_bytes.
          res_bind (from_crypto (AesKey_from_bytes fek_bytes)) (\<lambda>fek.
          let baad = aad @ to_le_bytes (word_of_nat pt_len :: u64) in
          res_bind (map_err (\<lambda>_. Storage_Corrupt) (aes_gcm_decrypt (re_prims env) fek body_nonce baad ct body_tag pt_len)) (\<lambda>pt.
          if pt = [] then Err Storage_Corrupt
          else
            let oid_len = unat (hd pt) in
            if length pt < 1 + oid_len then Err Storage_Corrupt
            else
              let oid = take oid_len (drop 1 pt) in
              if oid \<noteq> object_id then Err Storage_Corrupt
              else Ok \<lparr>oh_ta = ta, oh_file_id = file_id, oh_object_id = oid, oh_flags = flags,
                       oh_data = drop (1 + oid_len) pt, oh_obj_version = obj_version\<rparr>))))))))))))))))"

section \<open>The directory format\<close>

type_synonym file_ref = "bytes \<times> u64"

definition dir_entry :: "object_meta \<Rightarrow> file_ref \<Rightarrow> bytes" where
  "dir_entry e fv =
     fst fv @ [word_of_nat (length (om_object_id e))] @ om_object_id e @ to_le_bytes (om_flags e) @
     to_le_bytes (om_data_size e) @ to_le_bytes (snd fv)"

text \<open>The entries from index \<open>i\<close> on; a missing file reference is 16 zeros with version 1.\<close>

fun dir_entries :: "object_meta list \<Rightarrow> file_ref list \<Rightarrow> nat \<Rightarrow> bytes" where
  "dir_entries [] files i = []"
| "dir_entries (e # es) files i =
     dir_entry e (if i < length files then files ! i else (replicate 16 0, 1)) @ dir_entries es files (Suc i)"

definition dir_plain :: "object_meta list \<Rightarrow> file_ref list \<Rightarrow> bytes" where
  "dir_plain entries files =
     ascii ''RSTD'' @ [1] @ [0, 0, 0] @ to_le_bytes (1 :: u64) @
     to_le_bytes (word_of_nat (length entries) :: u32) @ dir_entries entries files 0"

text \<open>The offsets stay below the length of a slice plus 300, so their sums do not overflow.\<close>

fun parse_entries :: "bytes \<Rightarrow> nat \<Rightarrow> usize \<Rightarrow> (object_meta list \<times> file_ref list) sres" where
  "parse_entries pt 0 off = Ok ([], [])"
| "parse_entries pt (Suc n) off =
     (if off + 16 + 1 > length pt then Err Storage_Corrupt
      else
        res_bind (slice_range pt off (off + 16)) (\<lambda>fid.
        res_bind (index pt (off + 16)) (\<lambda>l.
        let oid_len = unat l; off = off + 16 + 1 in
        if off + oid_len + 4 + 8 + 8 > length pt then Err Storage_Corrupt
        else
          res_bind (slice_range pt off (off + oid_len)) (\<lambda>oid.
          res_bind (read_le pt (off + oid_len)) (\<lambda>flags.
          res_bind (read_le pt (off + oid_len + 4)) (\<lambda>data_size.
          res_bind (read_le pt (off + oid_len + 4 + 8)) (\<lambda>ver.
          res_bind (parse_entries pt n (off + oid_len + 4 + 8 + 8)) (\<lambda>(entries, files).
            Ok (\<lparr>om_object_id = oid, om_flags = flags, om_data_size = data_size\<rparr> # entries, (fid, ver) # files)))))))))"

definition parse_dir :: "bytes \<Rightarrow> (object_meta list \<times> file_ref list) sres" where
  "parse_dir pt =
     (if length pt < 20 \<or> take 4 pt \<noteq> ascii ''RSTD'' then Err Storage_Corrupt
      else res_bind (read_le pt 16) (\<lambda>n :: u32. parse_entries pt (unat n) 20))"

definition dir_aad :: "bytes \<Rightarrow> bytes" where
  "dir_aad ta = ascii ''RSTE-dir-v1'' @ ta"

definition open_dir :: "('e, 'f) ree_env \<Rightarrow> bytes \<Rightarrow> bytes \<Rightarrow> (object_meta list \<times> file_ref list) sres" where
  "open_dir env ta blob =
     (if length blob < 12 + 16 + 32 then Err Storage_Corrupt
      else
        res_bind (tsk env ta) (\<lambda>k.
        res_bind (derive env k ''rustee.storage.dir.v1'') (\<lambda>k_dir.
        res_bind (derive env k ''rustee.storage.mac.v1'') (\<lambda>k_mac.
        let nonce = take 12 blob; rest = drop 12 blob in
        if length rest < 16 + 32 then Err Storage_Corrupt
        else
          let ct_and_tag = take (length rest - 32) rest; mac = drop (length rest - 32) rest in
          res_bind (map_err (\<lambda>_. Storage_Corrupt) (hmac_sha256 (re_prims env) k_mac ct_and_tag)) (\<lambda>expect.
          if expect \<noteq> mac then Err Storage_Corrupt
          else if length ct_and_tag < 16 then Err Storage_Corrupt
          else
            let ct = take (length ct_and_tag - 16) ct_and_tag; tag = drop (length ct_and_tag - 16) ct_and_tag in
            res_bind (from_crypto (AesKey_from_bytes k_dir)) (\<lambda>key.
            res_bind (map_err (\<lambda>_. Storage_Corrupt) (aes_gcm_decrypt (re_prims env) key nonce (dir_aad ta) ct tag (length ct)))
              parse_dir))))))"

definition load_dir_full :: "('e, 'f) ree_env \<Rightarrow> bytes \<Rightarrow> (object_meta list \<times> file_ref list, ('e, 'f) ree_fs) sm" where
  "load_dir_full env ta =
     sbind (smap_err (\<lambda>_. Storage_NotFound) (on_fs (fr_read (re_fs env) (dir_path ta)))) (\<lambda>blob. slift (open_dir env ta blob))"

definition load_dir :: "('e, 'f) ree_env \<Rightarrow> bytes \<Rightarrow> (object_meta list, ('e, 'f) ree_fs) sm" where
  "load_dir env ta = sbind (load_dir_full env ta) (\<lambda>(entries, _). sret entries)"

definition store_dir_full ::
  "('e, 'f) ree_env \<Rightarrow> bytes \<Rightarrow> object_meta list \<Rightarrow> file_ref list \<Rightarrow> (unit, ('e, 'f) ree_fs) sm" where
  "store_dir_full env ta entries files =
     (let pt = dir_plain entries files in
      sbind (slift (tsk env ta)) (\<lambda>k.
      sbind (slift (derive env k ''rustee.storage.dir.v1'')) (\<lambda>k_dir.
      sbind (slift (derive env k ''rustee.storage.mac.v1'')) (\<lambda>k_mac.
      sbind (fill env 12) (\<lambda>nonce.
      sbind (slift (from_crypto (AesKey_from_bytes k_dir))) (\<lambda>key.
      sbind (slift (from_crypto (aes_gcm_encrypt (re_prims env) key nonce (dir_aad ta) pt (length pt)))) (\<lambda>(ct, tag).
      sbind (slift (from_crypto (hmac_sha256 (re_prims env) k_mac (ct @ tag)))) (\<lambda>mac.
        write_or_create env (dir_path ta) (nonce @ (ct @ tag) @ mac)))))))))"

text \<open>\<open>for (i, e) in extra.iter().enumerate()\<close>.\<close>

fun overlay :: "file_ref list \<Rightarrow> nat \<Rightarrow> file_ref list \<Rightarrow> file_ref list" where
  "overlay files i [] = files"
| "overlay files i (e # es) = overlay (if i < length files then files[i := e] else files @ [e]) (Suc i) es"

definition store_dir ::
  "('e, 'f) ree_env \<Rightarrow> bytes \<Rightarrow> object_meta list \<Rightarrow> file_ref list \<Rightarrow> (unit, ('e, 'f) ree_fs) sm" where
  "store_dir env ta entries extra =
     stry (load_dir_full env ta) (\<lambda>r.
       let files = (case r of Some (_, existing) \<Rightarrow> existing | None \<Rightarrow> []) in
       store_dir_full env ta entries (overlay files 0 extra))"

section \<open>Operations on objects\<close>

definition position :: "object_meta list \<Rightarrow> bytes \<Rightarrow> usize option" where
  "position entries oid =
     (let i = length (takeWhile (\<lambda>e. om_object_id e \<noteq> oid) entries) in
      if i < length entries then Some i else None)"

definition reefs_create ::
  "('e, 'f) ree_env \<Rightarrow> bytes \<Rightarrow> bytes \<Rightarrow> u32 \<Rightarrow> bytes \<Rightarrow> (object_handle, ('e, 'f) ree_fs) sm" where
  "reefs_create env ta object_id flags data =
     (if length data > MAX_OBJECT then slift (Err Storage_TooBig)
      else
        stry (on_fs (fr_mkdir (re_fs env) (ta_hex ta))) (\<lambda>_.
        stry (on_fs (fr_mkdir (re_fs env) (ta_hex ta @ ascii ''/obj''))) (\<lambda>_.
        stry (load_dir env ta) (\<lambda>r.
        let entries = (case r of Some es \<Rightarrow> es | None \<Rightarrow> []) in
        if \<exists>e \<in> set entries. om_object_id e = object_id then slift (Err Storage_Fs)
        else
          sbind (fill env 16) (\<lambda>file_id.
          let handle = \<lparr>oh_ta = ta, oh_file_id = file_id, oh_object_id = object_id, oh_flags = flags, oh_data = data,
                        oh_obj_version = 1\<rparr> in
          sbind (write_object env handle) (\<lambda>_.
          let entries = entries @ [\<lparr>om_object_id = object_id, om_flags = flags, om_data_size = word_of_nat (length data)\<rparr>] in
          sbind (store_dir env ta entries [(file_id, oh_obj_version handle)]) (\<lambda>_. sret handle)))))))"

definition reefs_list :: "('e, 'f) ree_env \<Rightarrow> bytes \<Rightarrow> (object_meta list, ('e, 'f) ree_fs) sm" where
  "reefs_list env ta = load_dir env ta"

definition reefs_open :: "('e, 'f) ree_env \<Rightarrow> bytes \<Rightarrow> bytes \<Rightarrow> (object_handle, ('e, 'f) ree_fs) sm" where
  "reefs_open env ta object_id =
     sbind (load_dir_full env ta) (\<lambda>(entries, files).
     sbind (slift (ok_or (position entries object_id) Storage_NotFound)) (\<lambda>idx.
     sbind (slift (index files idx)) (\<lambda>(file_id, ver).
     sbind (smap_err (\<lambda>_. Storage_Corrupt) (on_fs (fr_read (re_fs env) (obj_path ta file_id)))) (\<lambda>blob.
       slift (decrypt_object env ta file_id object_id (om_flags (entries ! idx)) ver blob)))))"

definition reefs_read :: "object_handle \<Rightarrow> u64 \<Rightarrow> bytes \<Rightarrow> (usize \<times> bytes) sres" where
  "reefs_read h off buf =
     (let start = unat off in
      if start > length (oh_data h) then Ok (0, buf)
      else
        let n = min (length buf) (length (oh_data h) - start) in
        res_bind (slice_range (oh_data h) start (start + n)) (\<lambda>d.
        res_bind (put_range buf 0 d) (\<lambda>buf. Ok (n, buf))))"

definition upsert_dir :: "('e, 'f) ree_env \<Rightarrow> object_handle \<Rightarrow> (unit, ('e, 'f) ree_fs) sm" where
  "upsert_dir env h =
     stry (load_dir_full env (oh_ta h)) (\<lambda>r.
       let (entries, files) = (case r of Some d \<Rightarrow> d | None \<Rightarrow> ([], []));
           e = \<lparr>om_object_id = oh_object_id h, om_flags = oh_flags h, om_data_size = word_of_nat (length (oh_data h))\<rparr> in
       case position entries (oh_object_id h) of
         Some i \<Rightarrow>
           if i < length files
           then store_dir_full env (oh_ta h) (entries[i := e]) (files[i := (oh_file_id h, oh_obj_version h)])
           else slift Panic
       | None \<Rightarrow> store_dir_full env (oh_ta h) (entries @ [e]) (files @ [(oh_file_id h, oh_obj_version h)]))"

text \<open>The handle is changed in place and keeps the change when the write fails.\<close>

definition save_handle :: "('e, 'f) ree_env \<Rightarrow> object_handle \<Rightarrow> 'a \<Rightarrow> ('e, 'f) ree_fs \<Rightarrow> (('a sres \<times> object_handle) \<times> ('e, 'f) ree_fs) option" where
  "save_handle env h x s =
     map_option (\<lambda>(r, s). ((r, h), s)) (sbind (write_object env h) (\<lambda>_. sbind (upsert_dir env h) (\<lambda>_. sret x)) s)"

definition reefs_write ::
  "('e, 'f) ree_env \<Rightarrow> object_handle \<Rightarrow> u64 \<Rightarrow> bytes \<Rightarrow> ('e, 'f) ree_fs \<Rightarrow>
   ((usize sres \<times> object_handle) \<times> ('e, 'f) ree_fs) option" where
  "reefs_write env h off buf s =
     (let start = unat off in
      case (usize_add start (length buf) :: usize sres) of
        Ok e \<Rightarrow>
          if e > MAX_OBJECT then Some ((Err Storage_TooBig, h), s)
          else
            let data = (if e > length (oh_data h) then resize (oh_data h) e else oh_data h);
                data = take start data @ buf @ drop e data in
            save_handle env (h\<lparr>oh_data := data, oh_obj_version := oh_obj_version h + 1\<rparr>) (length buf) s
      | Err x \<Rightarrow> Some ((Err x, h), s)
      | Panic \<Rightarrow> Some ((Panic, h), s))"

definition reefs_truncate ::
  "('e, 'f) ree_env \<Rightarrow> object_handle \<Rightarrow> u64 \<Rightarrow> ('e, 'f) ree_fs \<Rightarrow> ((unit sres \<times> object_handle) \<times> ('e, 'f) ree_fs) option" where
  "reefs_truncate env h sz s =
     (if unat sz > MAX_OBJECT then Some ((Err Storage_TooBig, h), s)
      else save_handle env (h\<lparr>oh_data := resize (oh_data h) (unat sz), oh_obj_version := oh_obj_version h + 1\<rparr>) () s)"

definition remove_at :: "'a list \<Rightarrow> usize \<Rightarrow> 'a list" where
  "remove_at xs i = take i xs @ drop (Suc i) xs"

definition reefs_delete :: "('e, 'f) ree_env \<Rightarrow> bytes \<Rightarrow> bytes \<Rightarrow> (unit, ('e, 'f) ree_fs) sm" where
  "reefs_delete env ta object_id =
     sbind (load_dir_full env ta) (\<lambda>(entries, files).
     sbind (slift (ok_or (position entries object_id) Storage_NotFound)) (\<lambda>idx.
     sbind (slift (index files idx)) (\<lambda>(file_id, _).
     stry (on_fs (fr_delete (re_fs env) (obj_path ta file_id))) (\<lambda>_.
       store_dir_full env ta (remove_at entries idx) (remove_at files idx)))))"

definition reefs_rename :: "('e, 'f) ree_env \<Rightarrow> bytes \<Rightarrow> bytes \<Rightarrow> bytes \<Rightarrow> (unit, ('e, 'f) ree_fs) sm" where
  "reefs_rename env ta old new =
     sbind (reefs_open env ta old) (\<lambda>h.
     let h = h\<lparr>oh_object_id := new, oh_obj_version := oh_obj_version h + 1\<rparr> in
     sbind (write_object env h) (\<lambda>_.
     sbind (reefs_delete env ta old) (\<lambda>_.
     stry (load_dir env ta) (\<lambda>r.
     let entries = (case r of Some es \<Rightarrow> es | None \<Rightarrow> []) in
       store_dir env ta
         (entries @ [\<lparr>om_object_id = new, om_flags = oh_flags h, om_data_size = word_of_nat (length (oh_data h))\<rparr>])
         [(oh_file_id h, oh_obj_version h)]))))"

end
