(* ===== verification/Storage_Fs.thy ===== *)
theory Storage_Fs
  imports Storage_Model
begin

text \<open>What \<open>ReeFs\<close> relies on in its backend, as a locale, and that both backends provide it: \<open>MemFs\<close>, and
  \<open>RpcFs\<close> over any client of the file RPCs that behaves like a file system with descriptors, which is a locale of its
  own. The only client in the sources, the file table of the crate's tests, is an instance of it.\<close>

section \<open>The contract of a backend\<close>

text \<open>\<open>files\<close> is the abstract contents, \<open>fs_good\<close> an invariant of the backend, and \<open>room\<close> bounds the number of calls
  that can still be made (a descriptor per call, for a backend that numbers them).\<close>

locale fs_contract =
  fixes fs :: "'f fs_rpc" and files :: "'f \<Rightarrow> bytes \<Rightarrow> bytes option" and fs_good :: "'f \<Rightarrow> bool" and room :: "'f \<Rightarrow> nat"
  assumes fs_read: "fs_good f \<Longrightarrow> 0 < room f \<Longrightarrow>
      \<exists>f'. fr_read fs p f = Some (ok_or (files f p) Storage_NotFound, f') \<and> files f' = files f \<and> fs_good f' \<and> room f \<le> Suc (room f')"
    and fs_write: "fs_good f \<Longrightarrow> 0 < room f \<Longrightarrow> length d < 2 ^ 32 \<Longrightarrow>
      \<exists>f'. fr_write fs p d f = Some (Ok (), f') \<and> files f' = (files f)(p \<mapsto> d) \<and> fs_good f' \<and> room f \<le> Suc (room f')"
    and fs_create: "fs_good f \<Longrightarrow> 0 < room f \<Longrightarrow> length d < 2 ^ 32 \<Longrightarrow>
      \<exists>f'. fr_create fs p d f = Some (Ok (), f') \<and> files f' = (files f)(p \<mapsto> d) \<and> fs_good f' \<and> room f \<le> Suc (room f')"
    and fs_delete: "fs_good f \<Longrightarrow> 0 < room f \<Longrightarrow>
      \<exists>f'. fr_delete fs p f = Some (Ok (), f') \<and> files f' = (files f)(p := None) \<and> fs_good f' \<and> room f \<le> Suc (room f')"
    and fs_mkdir: "fs_good f \<Longrightarrow> 0 < room f \<Longrightarrow>
      \<exists>f'. fr_mkdir fs p f = Some (Ok (), f') \<and> files f' = files f \<and> fs_good f' \<and> room f \<le> Suc (room f')"

section \<open>Memory\<close>

interpretation mem: fs_contract MemFs "\<lambda>f. f" "\<lambda>_. True" "\<lambda>_. n" for n
  by unfold_locales (simp_all add: MemFs_def mem_read_def mem_write_def mem_create_def mem_delete_def mem_mkdir_def)

section \<open>The file RPCs\<close>

lemma sbind_Some [simp]:
  "m s = Some (Ok x, s') \<Longrightarrow> sbind m k s = k x s'"
  "m s = Some (Err e, s') \<Longrightarrow> sbind m k s = Some (Err e, s')"
  "m s = Some (Panic, s') \<Longrightarrow> sbind m k s = Some (Panic, s')"
  by (simp_all add: sbind_def)

lemma stry_Some [simp]:
  "m s = Some (Ok x, s') \<Longrightarrow> stry m k s = k (Some x) s'"
  "m s = Some (Err e, s') \<Longrightarrow> stry m k s = k None s'"
  "m s = Some (Panic, s') \<Longrightarrow> stry m k s = Some (Panic, s')"
  by (simp_all add: stry_def)

lemma slift_eq [simp]: "slift r s = Some (r, s)" "sret x s = Some (Ok x, s)"
  by (simp_all add: slift_def sret_def)

text \<open>What \<open>RpcFs\<close> relies on in the client it sends its file RPCs through: descriptors name open files, reads and writes
  go to the file of the descriptor, and a file that is not there is reported as \<open>NotFound\<close>. Creation may leave any
  contents in the file; \<open>put\<close> replaces and truncates them.\<close>

locale fd_client =
  fixes client :: "'f fs_client" and files :: "'f \<Rightarrow> bytes \<Rightarrow> bytes option" and fds :: "'f \<Rightarrow> u32 \<Rightarrow> bytes option"
    and fs_good :: "'f \<Rightarrow> bool" and room :: "'f \<Rightarrow> nat"
  assumes file_len: "fs_good f \<Longrightarrow> files f p = Some d \<Longrightarrow> length d < 2 ^ 32"
    and open_file: "fs_good f \<Longrightarrow> 0 < room f \<Longrightarrow> files f p = Some d \<Longrightarrow>
      \<exists>fd x f'. client RPC_FS_OPEN p 0 0 [] f = Some (Ok (fd, x), f') \<and> fds f' fd = Some p \<and> files f' = files f \<and>
        fs_good f' \<and> room f \<le> Suc (room f')"
    and open_missing: "fs_good f \<Longrightarrow> files f p = None \<Longrightarrow>
      \<exists>f'. client RPC_FS_OPEN p 0 0 [] f = Some (Err Storage_NotFound, f') \<and> files f' = files f \<and> fs_good f' \<and>
        room f \<le> room f'"
    and create_file: "fs_good f \<Longrightarrow> 0 < room f \<Longrightarrow>
      \<exists>fd x d f'. client RPC_FS_CREATE p 0 0 [] f = Some (Ok (fd, x), f') \<and> fds f' fd = Some p \<and>
        files f' = (files f)(p \<mapsto> d) \<and> fs_good f' \<and> room f \<le> Suc (room f')"
    and read_file: "fs_good f \<Longrightarrow> fds f fd = Some p \<Longrightarrow> files f p = Some d \<Longrightarrow> unat off \<le> length d \<Longrightarrow>
      \<exists>f'. client RPC_FS_READ [] fd off (replicate CHUNK 0) f =
          Some (Ok (word_of_nat (min CHUNK (length d - unat off)), take CHUNK (drop (unat off) d)), f') \<and>
        fds f' = fds f \<and> files f' = files f \<and> fs_good f' \<and> room f \<le> room f'"
    and write_file: "fs_good f \<Longrightarrow> fds f fd = Some p \<Longrightarrow> files f p = Some d \<Longrightarrow> unat off \<le> length d \<Longrightarrow>
      unat off + length c < 2 ^ 32 \<Longrightarrow>
      \<exists>x f'. client RPC_FS_WRITE [] fd off c f = Some (Ok x, f') \<and>
        files f' = (files f)(p \<mapsto> take (unat off) d @ c @ drop (unat off + length c) d) \<and>
        fds f' = fds f \<and> fs_good f' \<and> room f \<le> room f'"
    and truncate_file: "fs_good f \<Longrightarrow> fds f fd = Some p \<Longrightarrow> files f p = Some d \<Longrightarrow> unat n \<le> length d \<Longrightarrow>
      \<exists>x f'. client RPC_FS_TRUNCATE [] fd n [] f = Some (Ok x, f') \<and> files f' = (files f)(p \<mapsto> take (unat n) d) \<and>
        fds f' = fds f \<and> fs_good f' \<and> room f \<le> room f'"
    and close_file: "fs_good f \<Longrightarrow> fds f fd = Some p \<Longrightarrow>
      \<exists>x f'. client RPC_FS_CLOSE [] fd 0 [] f = Some (Ok x, f') \<and> files f' = files f \<and> fs_good f' \<and> room f \<le> room f'"
    and remove_file: "fs_good f \<Longrightarrow> 0 < room f \<Longrightarrow>
      \<exists>x f'. client RPC_FS_REMOVE p 0 0 [] f = Some (Ok x, f') \<and> files f' = (files f)(p := None) \<and> fs_good f' \<and>
        room f \<le> Suc (room f')"
begin

text \<open>Reading the file of an open descriptor to its end.\<close>

lemma read_loop_Ok:
  assumes "fs_good f" and "fds f fd = Some p" and "files f p = Some d" and "k \<le> length d"
  shows "\<exists>f'. read_loop client fd (take k d) f = Some (Ok d, f') \<and> fds f' = fds f \<and> files f' = files f \<and> fs_good f' \<and>
    room f \<le> room f'"
  using assms
proof (induction "length d - k" arbitrary: k f rule: less_induct)
  case less
  have k: "unat (word_of_nat k :: u32) = k"
    using less.prems(4) file_len [OF less.prems(1,3)] by (simp add: unat_of_nat)
  define n where "n = min CHUNK (length d - k)"
  have c: "CHUNK = 4096" by (simp add: CHUNK_def)
  have l: "length (take k d) = k" using less.prems(4) by simp
  obtain f1 where r: "client RPC_FS_READ [] fd (word_of_nat k) (replicate CHUNK 0) f =
      Some (Ok (word_of_nat n, take CHUNK (drop k d)), f1)"
    and f1: "fds f1 = fds f" "files f1 = files f" "fs_good f1" "room f \<le> room f1"
    using read_file [OF less.prems(1-3), of "word_of_nat k"] less.prems(4) by (auto simp: k n_def)
  have n: "unat (word_of_nat n :: u32) = n" by (simp add: unat_of_nat n_def c)
  have t: "take k d @ take CHUNK (drop k d) = take (k + CHUNK) d" by (simp add: take_add)
  show ?case
  proof (cases "n < CHUNK")
    case True
    then have "length d \<le> k + CHUNK" by (simp add: n_def min_def split: if_splits)
    then show ?thesis using True f1 by (subst read_loop.simps) (simp only: l r, simp add: n t)
  next
    case False
    then have n': "k + CHUNK \<le> length d" by (auto simp: n_def min_def c split: if_splits)
    have "length d - (k + CHUNK) < length d - k" using n' by (simp add: c)
    from less.hyps [OF this f1(3), unfolded f1, OF less.prems(2,3) n'] f1(4)
    obtain f2 where "read_loop client fd (take (k + CHUNK) d) f1 = Some (Ok d, f2)" "fds f2 = fds f"
      "files f2 = files f" "fs_good f2" "room f \<le> room f2" by (meson le_trans)
    then show ?thesis using False by (subst read_loop.simps) (simp only: l r, simp add: n t)
  qed
qed

text \<open>Writing all chunks leaves the data in front of what the file had.\<close>

lemma put_loop_Ok:
  assumes "length data < 2 ^ 32" and "fs_good f" and "fds f fd = Some p" and "k \<le> length data"
    and "files f p = Some d" and "take k d = take k data" and "k \<le> length d"
  shows "\<exists>d' f'. put_loop client fd data (word_of_nat k) f = Some (Ok (), f') \<and> files f' = (files f)(p \<mapsto> d') \<and>
    take (length data) d' = data \<and> fds f' = fds f \<and> fs_good f' \<and> room f \<le> room f'"
  using assms(2-)
proof (induction "length data - k" arbitrary: k f d rule: less_induct)
  case less
  have k: "unat (word_of_nat k :: u32) = k" using less.prems(3) assms(1) by (simp add: unat_of_nat)
  show ?case
  proof (cases "k < length data")
    case False
    then have "take (length data) d = data" "(files f)(p \<mapsto> d) = files f"
      using less.prems(3-5) by (simp_all add: fun_upd_idem)
    moreover have "put_loop client fd data (word_of_nat k) f = Some (Ok (), f)"
      using False k by (subst put_loop.simps) simp
    ultimately show ?thesis using less.prems(1) by (intro exI [of _ d] exI [of _ f]) simp
  next
    case True
    define e where "e = min (k + CHUNK) (length data)"
    define c where "c = take (e - k) (drop k data)"
    define g where "g = take k d @ c @ drop (k + length c) d"
    have e: "k < e" "e \<le> length data" "k + length c = e" using True by (auto simp: c_def e_def CHUNK_def min_def)
    obtain x f1 where w: "client RPC_FS_WRITE [] fd (word_of_nat k) c f = Some (Ok x, f1)"
      and f1: "files f1 = (files f)(p \<mapsto> g)" "fds f1 = fds f" "fs_good f1" "room f \<le> room f1"
      using write_file [OF less.prems(1,2,4), of "word_of_nat k" c] less.prems(6) e(2,3) assms(1)
      by (auto simp: k g_def)
    have "length (take k data) = k" using True by simp
    then have "take e g = take k data @ c" "e \<le> length g"
      unfolding g_def less.prems(5) using e(3) by simp_all
    moreover have "take k data @ c = take e data" using take_add [of k "e - k" data] e(1) by (simp add: c_def)
    ultimately have g: "take e g = take e data" "e \<le> length g" by simp_all
    have d: "length data - e < length data - k" "fds f1 fd = Some p" "files f1 p = Some g"
      using e(1) True less.prems(2) f1 by simp_all
    from less.hyps [OF d(1) f1(3) d(2) e(2) d(3) g] f1(1,2,4) obtain d' f2 where
      "put_loop client fd data (word_of_nat e) f1 = Some (Ok (), f2)" "files f2 = (files f)(p \<mapsto> d')"
      "take (length data) d' = data" "fds f2 = fds f" "fs_good f2" "room f \<le> room f2" by fastforce
    then show ?thesis
      using True by (intro exI [of _ d'] exI [of _ f2], subst put_loop.simps) (simp add: k Let_def w flip: e_def c_def)
  qed
qed

lemma put_Ok:
  assumes "length data < 2 ^ 32" and "fs_good f" and "fds f fd = Some p" and "files f p = Some d"
  shows "\<exists>f'. put client fd data f = Some (Ok (), f') \<and> files f' = (files f)(p \<mapsto> data) \<and> fds f' = fds f \<and>
    fs_good f' \<and> room f \<le> room f'"
proof -
  from put_loop_Ok [OF assms(1-3) _ assms(4), of 0] obtain d' f1 where
    l: "put_loop client fd data 0 f = Some (Ok (), f1)" "files f1 = (files f)(p \<mapsto> d')" "take (length data) d' = data"
      "fds f1 = fds f" "fs_good f1" "room f \<le> room f1" by auto
  have "length (take (length data) d') = length data" unfolding l(3) ..
  then have le: "length data \<le> length d'" by simp
  have n: "unat (word_of_nat (length data) :: u32) = length data" using assms(1) by (simp add: unat_of_nat)
  have "fds f1 fd = Some p" "files f1 p = Some d'" using l(2,4) assms(3) by simp_all
  from truncate_file [OF l(5) this, of "word_of_nat (length data)"] obtain x f2 where
    "client RPC_FS_TRUNCATE [] fd (word_of_nat (length data)) [] f1 = Some (Ok x, f2)"
    "files f2 = (files f)(p \<mapsto> data)" "fds f2 = fds f" "fs_good f2" "room f1 \<le> room f2"
    using le by (auto simp: n l)
  then show ?thesis using l(1,6) by (auto simp: put_def)
qed

text \<open>A descriptor around an operation on it.\<close>

lemma with_fd_Ok:
  assumes "client (if create then RPC_FS_CREATE else RPC_FS_OPEN) p 0 0 [] f = Some (Ok (fd, x), f1)"
    and "g fd f1 = Some (Ok y, f2)" and "fds f2 fd = Some p" and "fs_good f2"
  shows "\<exists>f3. with_fd client p create g f = Some (Ok y, f3) \<and> files f3 = files f2 \<and> fs_good f3 \<and> room f2 \<le> room f3"
proof -
  obtain z f3 where "client RPC_FS_CLOSE [] fd 0 [] f2 = Some (Ok z, f3)" "files f3 = files f2" "fs_good f3" "room f2 \<le> room f3"
    using close_file [OF assms(4,3)] by blast
  then show ?thesis using assms(1,2) by (simp add: with_fd_def)
qed

lemma with_fd_put:
  assumes "fs_good f" and "0 < room f" and "length d < 2 ^ 32" and "create \<or> files f p \<noteq> None"
  shows "\<exists>f'. with_fd client p create (\<lambda>fd. put client fd d) f = Some (Ok (), f') \<and>
    files f' = (files f)(p \<mapsto> d) \<and> fs_good f' \<and> room f \<le> Suc (room f')"
proof -
  obtain fd x d0 f1 where o: "client (if create then RPC_FS_CREATE else RPC_FS_OPEN) p 0 0 [] f = Some (Ok (fd, x), f1)"
    "fds f1 fd = Some p" "files f1 = (files f)(p \<mapsto> d0)" "fs_good f1" "room f \<le> Suc (room f1)"
  proof (cases create)
    case True
    then show ?thesis using create_file [OF assms(1,2), of p] that by auto
  next
    case False
    then obtain d1 where d1: "files f p = Some d1" using assms(4) by auto
    then have "(files f)(p \<mapsto> d1) = files f" by (simp add: fun_upd_idem)
    then show ?thesis using open_file [OF assms(1,2) d1] False that [of _ _ _ d1] by auto
  qed
  have "files f1 p = Some d0" using o(3) by simp
  from put_Ok [OF assms(3) o(4,2) this] o(3) obtain f2 where
    p: "put client fd d f1 = Some (Ok (), f2)" "files f2 = (files f)(p \<mapsto> d)" "fds f2 fd = Some p" "fs_good f2" "room f1 \<le> room f2"
    using o(2) by auto
  from with_fd_Ok [OF o(1), of "\<lambda>fd. put client fd d", OF p(1,3,4)] p(2,5) o(5) show ?thesis by fastforce
qed

lemma is_fs_contract: "fs_contract (RpcFs client) files fs_good room"
proof (unfold_locales, goal_cases)
  case (1 f p)
  show ?case
  proof (cases "files f p")
    case None
    then obtain f' where "client RPC_FS_OPEN p 0 0 [] f = Some (Err Storage_NotFound, f')" "files f' = files f" "fs_good f'"
      "room f \<le> room f'" using open_missing [OF 1(1)] by blast
    then show ?thesis using None by (simp add: RpcFs_def rpc_read_def with_fd_def)
  next
    case (Some d)
    obtain fd x f1 where o: "client (if False then RPC_FS_CREATE else RPC_FS_OPEN) p 0 0 [] f = Some (Ok (fd, x), f1)"
      "fds f1 fd = Some p" "files f1 = files f" "fs_good f1" "room f \<le> Suc (room f1)"
      using open_file [OF 1 Some] by auto
    have "files f1 p = Some d" using o(3) Some by simp
    from read_loop_Ok [OF o(4,2) this, of 0] o(2,3) obtain f2 where
      r: "read_loop client fd [] f1 = Some (Ok d, f2)" "fds f2 fd = Some p" "files f2 = files f" "fs_good f2" "room f1 \<le> room f2"
      by auto
    from with_fd_Ok [OF o(1), of "\<lambda>fd. read_loop client fd []", OF r(1,2,4)] r(3,5) o(5) Some show ?thesis
      by (fastforce simp: RpcFs_def rpc_read_def)
  qed
next
  case (2 f d p)
  show ?case
  proof (cases "files f p")
    case None
    then obtain f' where m: "client RPC_FS_OPEN p 0 0 [] f = Some (Err Storage_NotFound, f')" "files f' = files f" "fs_good f'"
      "room f \<le> room f'" using open_missing [OF 2(1)] by blast
    then have w: "with_fd client p False (\<lambda>fd. put client fd d) f = Some (Err Storage_NotFound, f')"
      by (simp add: with_fd_def)
    have "0 < room f'" using m(4) 2(2) by simp
    from with_fd_put [OF m(3) this 2(3), of True p] m(2,4) w show ?thesis
      by (fastforce simp: RpcFs_def rpc_write_def)
  next
    case (Some x)
    then show ?thesis using with_fd_put [OF 2, of False p] by (auto simp: RpcFs_def rpc_write_def)
  qed
next
  case (3 f d p)
  then show ?case using with_fd_put [OF 3, of True p] by (simp add: RpcFs_def rpc_create_def)
next
  case (4 f p)
  then show ?case using remove_file [OF 4, of p] by (auto simp: RpcFs_def rpc_delete_def)
next
  case (5 f p)
  then show ?case by (simp add: RpcFs_def rpc_mkdir_def)
qed

end

sublocale fd_client \<subseteq> fs_contract "RpcFs client" files fs_good room
  by (rule is_fs_contract)

section \<open>The file table of the tests\<close>

definition fd_room :: "fd_mem \<Rightarrow> nat" where
  "fd_room m = 2 ^ 32 - 1 - unat (fm_next m)"

definition fd_good :: "fd_mem \<Rightarrow> bool" where
  "fd_good m \<longleftrightarrow> (\<forall>p d. fm_files m p = Some d \<longrightarrow> length d < 2 ^ 32)"

lemma fd_alloc_Ok:
  assumes "0 < fd_room m"
  shows "fd_alloc name m = Some (Ok (fm_next m, []), m\<lparr>fm_next := fm_next m + 1, fm_fds := (fm_fds m)(fm_next m \<mapsto> name)\<rparr>)"
    and "unat (fm_next m + 1) = Suc (unat (fm_next m))"
proof -
  have l: "unat (fm_next m) < 2 ^ 32 - 1" using assms by (simp add: fd_room_def)
  have "unat (- 1 :: u32) = 2 ^ 32 - 1" by (simp add: unsigned_minus_1_eq_mask mask_eq_exp_minus_1)
  then have ne: "fm_next m \<noteq> - 1" using l by auto
  then show "fd_alloc name m = Some (Ok (fm_next m, []), m\<lparr>fm_next := fm_next m + 1, fm_fds := (fm_fds m)(fm_next m \<mapsto> name)\<rparr>)"
    by (simp add: fd_alloc_def)
  have "unat (fm_next m + 1) = (unat (fm_next m) + 1) mod 2 ^ 32" by (simp add: unat_word_ariths)
  then show "unat (fm_next m + 1) = Suc (unat (fm_next m))" using l by simp
qed

lemmas rpc_defs = FdMem_rpc_fs_def RPC_FS_OPEN_def RPC_FS_CREATE_def RPC_FS_CLOSE_def RPC_FS_READ_def RPC_FS_WRITE_def
  RPC_FS_TRUNCATE_def RPC_FS_REMOVE_def

lemma fd_ops:
  "FdMem_rpc_fs RPC_FS_READ n fd off d m = fd_read fd off d m"
  "FdMem_rpc_fs RPC_FS_WRITE n fd off d m = fd_write fd off d m"
  "FdMem_rpc_fs RPC_FS_TRUNCATE n fd off d m = fd_truncate fd off m"
  "FdMem_rpc_fs RPC_FS_CLOSE n fd off d m = Some (Ok (0, []), m\<lparr>fm_fds := (fm_fds m)(fd := None)\<rparr>)"
  "FdMem_rpc_fs RPC_FS_REMOVE n fd off d m = Some (Ok (0, []), m\<lparr>fm_files := (fm_files m)(n := None)\<rparr>)"
  by (simp_all add: rpc_defs)

interpretation rpc: fd_client FdMem_rpc_fs fm_files fm_fds fd_good fd_room
proof (unfold_locales, goal_cases)
  case (1 f p d)
  then show ?case by (simp add: fd_good_def)
next
  case (2 f p d)
  then show ?case using fd_alloc_Ok(1) [OF 2(2), of p] fd_alloc_Ok(2) [OF 2(2)] by (simp add: rpc_defs fd_good_def fd_room_def)
next
  case (3 f p)
  then show ?case by (simp add: rpc_defs)
next
  case (4 f p)
  let ?f = "if fm_files f p = None then f\<lparr>fm_files := (fm_files f)(p \<mapsto> [])\<rparr> else f"
  have r: "fd_room ?f = fd_room f" "fm_next ?f = fm_next f" by (simp_all add: fd_room_def)
  have d: "fm_files ?f = (fm_files f)(p \<mapsto> case fm_files f p of None \<Rightarrow> [] | Some d \<Rightarrow> d)"
    by (auto simp: fun_upd_idem)
  have "fd_good ?f" using 4(1) by (auto simp: fd_good_def)
  with fd_alloc_Ok(1) [of ?f p] fd_alloc_Ok(2) [of ?f] 4(2) d show ?case
    unfolding r by (auto simp: rpc_defs fd_good_def fd_room_def)
next
  case (5 f fd p d off)
  then show ?case by (auto simp: fd_ops fd_read_def fd_path_def Let_def CHUNK_def min_def)
next
  case (6 f fd p d off c)
  have "take (unat off) (resize d (unat off + length c)) = take (unat off) d"
    "drop (unat off + length c) (resize d (unat off + length c)) = []" if "length d < unat off + length c"
    using 6(4) that by (simp_all add: resize_def)
  then have w: "FdMem_rpc_fs RPC_FS_WRITE [] fd off c f = Some (Ok (word_of_nat (length c), []),
      f\<lparr>fm_files := (fm_files f)(p \<mapsto> take (unat off) d @ c @ drop (unat off + length c) d)\<rparr>)"
    using 6(2,3) by (simp add: fd_ops fd_write_def fd_path_def Let_def)
  have "length d < 2 ^ 32" using 6(1,3) by (simp add: fd_good_def)
  then have "length (take (unat off) d @ c @ drop (unat off + length c) d) < 2 ^ 32" using 6(4,5) by simp
  then show ?case using 6(1) unfolding w by (simp add: fd_good_def fd_room_def)
next
  case (7 f fd p d n)
  have "length d < 2 ^ 32" using 7(1,3) by (simp add: fd_good_def)
  then have "unat n < 4294967296" using 7(4) by simp
  then show ?case using 7 by (auto simp: fd_ops fd_truncate_def fd_path_def Let_def resize_def fd_good_def fd_room_def)
next
  case (8 f fd p)
  then show ?case by (simp add: fd_ops fd_good_def fd_room_def)
next
  case (9 f p)
  then show ?case by (auto simp: fd_ops fd_good_def fd_room_def)
qed

end
