(* ===== verification/Crypto_Props.thy ===== *)
theory Crypto_Props
  imports Crypto_Sw
begin

text \<open>The block modes of the software provider, and the laws of the third-party primitives they rely on.\<close>

section \<open>Laws of the primitives\<close>

text \<open>A block cipher maps blocks to blocks and decryption undoes encryption.\<close>

definition block_laws :: "prims \<Rightarrow> bool" where
  "block_laws pr \<longleftrightarrow> (\<forall>bits k b. length b = 16 \<longrightarrow>
     length (aes_encrypt_block pr bits k b) = 16 \<and> aes_decrypt_block pr bits k (aes_encrypt_block pr bits k b) = b)"

text \<open>GCM is deterministic in key, nonce, associated data and message: the ciphertext is 16 bytes longer than the
  message, and decryption accepts exactly the ciphertexts of messages.\<close>

definition gcm_laws :: "prims \<Rightarrow> bool" where
  "gcm_laws pr \<longleftrightarrow> (\<forall>bits k n a m c.
     (gcm_decrypt pr bits k n a c = Some m \<longleftrightarrow> gcm_encrypt pr bits k n a m = Some c) \<and>
     (gcm_encrypt pr bits k n a m = Some c \<longrightarrow> length c = length m + 16))"

section \<open>Blocks\<close>

lemma chunks16_Nil [simp]: "chunks16 [] = []"
  by (subst chunks16.simps) simp

lemma chunks16_append: "length b = 16 \<Longrightarrow> chunks16 (b @ xs) = b # chunks16 xs"
  by (subst chunks16.simps) auto

lemma chunks16_concat: "\<forall>b \<in> set bs. length b = 16 \<Longrightarrow> chunks16 (concat bs) = bs"
  by (induction bs) (simp_all add: chunks16_append)

lemma chunks16_ex:
  fixes xs :: bytes
  assumes "length xs mod 16 = 0"
  obtains bs where "xs = concat bs" "\<forall>b \<in> set bs. length b = 16"
proof -
  have "\<exists>bs. xs = concat bs \<and> (\<forall>b \<in> set bs. length b = 16)" if "length xs = 16 * n" for n and xs :: bytes
    using that
  proof (induction n arbitrary: xs)
    case (Suc n)
    then have "length (drop 16 xs) = 16 * n" by simp
    from Suc.IH [OF this] obtain bs where "drop 16 xs = concat bs" "\<forall>b \<in> set bs. length b = 16" by blast
    then have "xs = concat (take 16 xs # bs) \<and> (\<forall>b \<in> set (take 16 xs # bs). length b = 16)"
      using Suc.prems append_take_drop_id [of 16 xs] by simp
    then show ?case by blast
  qed (auto intro: exI [of _ "[]"])
  moreover have "length xs = 16 * (length xs div 16)" using assms by (simp add: mult_div_mod_eq mod_eq_0_iff_dvd)
  ultimately show ?thesis using that by blast
qed

lemma length_concat16: "\<forall>b \<in> set bs. length b = 16 \<Longrightarrow> length (concat bs) = 16 * length bs"
  by (induction bs) simp_all

text \<open>The block functions of a key.\<close>

definition key_enc :: "prims \<Rightarrow> aes_key \<Rightarrow> bytes \<Rightarrow> bytes" where
  "key_enc pr key = (case ak_bytes key of K128 k \<Rightarrow> aes_encrypt_block pr Aes128 k | K256 k \<Rightarrow> aes_encrypt_block pr Aes256 k)"

definition key_dec :: "prims \<Rightarrow> aes_key \<Rightarrow> bytes \<Rightarrow> bytes" where
  "key_dec pr key = (case ak_bytes key of K128 k \<Rightarrow> aes_decrypt_block pr Aes128 k | K256 k \<Rightarrow> aes_decrypt_block pr Aes256 k)"

lemma key_laws:
  assumes "block_laws pr" and "length b = 16"
  shows "length (key_enc pr key b) = 16" "key_dec pr key (key_enc pr key b) = b"
  using assms by (auto simp: block_laws_def key_enc_def key_dec_def split: aes_key_bytes.splits)

lemma aes_crypt_blocks:
  assumes "\<forall>b \<in> set bs. length b = 16" and "n = 16 * length bs"
  shows "aes_crypt pr key (concat bs) n True = Ok (concat (map (key_enc pr key) bs))"
    "aes_crypt pr key (concat bs) n False = Ok (concat (map (key_dec pr key) bs))"
  using assms by (auto simp: aes_crypt_def length_concat16 chunks16_concat key_enc_def key_dec_def split: aes_key_bytes.splits)

lemma aes_crypt_block:
  assumes "length b = 16"
  shows "aes_crypt pr key b 16 True = Ok (key_enc pr key b)" "aes_crypt pr key b 16 False = Ok (key_dec pr key b)"
  using aes_crypt_blocks [of "[b]" 16] assms by simp_all

lemma length_xor [simp]: "length (xor_bytes a b) = min (length a) (length b)"
  by (simp add: xor_bytes_def)

lemma xor_append: "length a = length c \<Longrightarrow> xor_bytes (a @ b) (c @ d) = xor_bytes a c @ xor_bytes b d"
  by (simp add: xor_bytes_def)

lemma xor_twice: "length a \<le> length b \<Longrightarrow> xor_bytes (xor_bytes a b) b = a"
  by (rule nth_equalityI) (simp_all add: xor_bytes_def xor.assoc)

section \<open>CBC\<close>

fun cbc_blocks :: "prims \<Rightarrow> aes_key \<Rightarrow> bytes \<Rightarrow> bytes list \<Rightarrow> bytes list" where
  "cbc_blocks pr key prev [] = []"
| "cbc_blocks pr key prev (b # bs) = (let c = key_enc pr key (xor_bytes b prev) in c # cbc_blocks pr key c bs)"

lemma cbc_blocks_count [simp]: "length (cbc_blocks pr key prev bs) = length bs"
  by (induction bs arbitrary: prev) (simp_all add: Let_def)

lemma cbc_blocks_length:
  assumes "block_laws pr" and "length prev = 16" and "\<forall>b \<in> set bs. length b = 16"
  shows "\<forall>c \<in> set (cbc_blocks pr key prev bs). length c = 16"
  using assms(2,3)
proof (induction bs arbitrary: prev)
  case (Cons b bs)
  define c where "c = key_enc pr key (xor_bytes b prev)"
  have b: "length b = 16" "\<forall>b \<in> set bs. length b = 16" using Cons.prems(2) by simp_all
  then have c: "length c = 16" unfolding c_def using Cons.prems(1) by (intro key_laws(1) [OF assms(1)]) simp
  have "cbc_blocks pr key prev (b # bs) = c # cbc_blocks pr key c bs" by (simp add: Let_def c_def)
  then show ?case using c Cons.IH [OF c b(2)] by (simp only: list.set ball_simps simp_thms)
qed simp

lemma cbc_encrypt_loop_eq:
  assumes "block_laws pr" and "length prev = 16" and "\<forall>b \<in> set bs. length b = 16"
  shows "cbc_encrypt_loop pr key prev bs = Ok (concat (cbc_blocks pr key prev bs))"
  using assms(2,3)
proof (induction bs arbitrary: prev)
  case (Cons b bs)
  define c where "c = key_enc pr key (xor_bytes b prev)"
  have b: "length b = 16" "\<forall>b \<in> set bs. length b = 16" using Cons.prems(2) by simp_all
  then have x: "length (xor_bytes b prev) = 16" using Cons.prems(1) by simp
  have c: "length c = 16" unfolding c_def by (rule key_laws(1) [OF assms(1) x])
  have "aes_crypt pr key (xor_bytes b prev) 16 True = Ok c" unfolding c_def by (rule aes_crypt_block(1) [OF x])
  then show ?case using Cons.IH [OF c b(2)] by (simp add: Let_def flip: c_def)
qed simp

lemma cbc_decrypt_loop_eq:
  assumes "block_laws pr" and "length prev = 16" and "\<forall>b \<in> set bs. length b = 16"
  shows "cbc_decrypt_loop pr key prev (cbc_blocks pr key prev bs) = Ok (concat bs)"
  using assms(2,3)
proof (induction bs arbitrary: prev)
  case (Cons b bs)
  define c where "c = key_enc pr key (xor_bytes b prev)"
  have b: "length b = 16" "\<forall>b \<in> set bs. length b = 16" using Cons.prems(2) by simp_all
  then have "length (xor_bytes b prev) = 16" using Cons.prems(1) by simp
  from key_laws [OF assms(1) this] have c: "length c = 16" "key_dec pr key c = xor_bytes b prev" by (simp_all add: c_def)
  have "aes_crypt pr key c 16 False = Ok (xor_bytes b prev)" using aes_crypt_block(2) [OF c(1)] c(2) by simp
  moreover have "xor_bytes (xor_bytes b prev) prev = b" using b(1) Cons.prems(1) by (simp add: xor_twice)
  moreover note Cons.IH [OF c(1) b(2)]
  ultimately show ?case by (simp add: Let_def flip: c_def)
qed simp

section \<open>CTR\<close>

lemma inc_le_le_bytes: "inc_le (le_bytes k c) = le_bytes k (c + 1)"
proof (induction k arbitrary: c)
  case (Suc k)
  have w: "(word_of_nat c + 1 :: u8) = word_of_nat (c + 1)" by simp
  have z: "(word_of_nat (c + 1) :: u8) = 0 \<longleftrightarrow> (c + 1) mod 256 = 0"
    by (simp only: word_of_nat_eq_0_iff) (simp add: dvd_eq_mod_eq_0)
  have "(c + 1) div 256 = (if (c + 1) mod 256 = 0 then c div 256 + 1 else c div 256)"
    using div_Suc [of c 256] by simp
  then show ?case using Suc [of "c div 256"] z by (simp add: w del: of_nat_Suc of_nat_add)
qed simp

lemma inc_ctr_le_bytes: "inc_ctr (rev (le_bytes 16 c)) = rev (le_bytes 16 (c + 1))"
  by (simp add: inc_ctr_def inc_le_le_bytes)

text \<open>The key stream from the counter value \<open>c\<close> on, for \<open>n\<close> blocks.\<close>

definition keystream :: "prims \<Rightarrow> aes_key \<Rightarrow> nat \<Rightarrow> nat \<Rightarrow> bytes" where
  "keystream pr key c n = concat (map (\<lambda>i. key_enc pr key (rev (le_bytes 16 (c + i)))) [0..<n])"

lemma keystream_Suc: "keystream pr key c (Suc n) = key_enc pr key (rev (le_bytes 16 c)) @ keystream pr key (c + 1) n"
proof -
  have "[0..<Suc n] = 0 # map Suc [0..<n]" by (simp add: map_Suc_upt upt_conv_Cons)
  then show ?thesis by (simp add: keystream_def comp_def del: upt_Suc)
qed

lemma length_keystream: "block_laws pr \<Longrightarrow> length (keystream pr key c n) = 16 * n"
  by (induction n arbitrary: c) (simp_all add: keystream_Suc key_laws, simp add: keystream_def)

lemma ctr_loop_eq:
  assumes "block_laws pr" and "length xs \<le> 16 * n"
  shows "ctr_loop pr key (rev (le_bytes 16 c)) xs = Ok (xor_bytes xs (keystream pr key c n))"
  using assms(2)
proof (induction n arbitrary: c xs)
  case 0
  then show ?case by (simp add: ctr_loop.simps xor_bytes_def)
next
  case (Suc n)
  let ?k = "key_enc pr key (rev (le_bytes 16 c))" and ?m = "min 16 (length xs)"
  have k: "length ?k = 16" by (rule key_laws [OF assms(1)]) simp
  show ?case
  proof (cases "xs = []")
    case False
    have "length (drop ?m xs) \<le> 16 * n" using Suc.prems by simp
    note ih = Suc.IH [OF this, of "c + 1"]
    have "xor_bytes xs (?k @ keystream pr key (c + 1) n) =
        xor_bytes (take ?m xs) (take ?m ?k) @ xor_bytes (drop ?m xs) (keystream pr key (c + 1) n)"
    proof (cases "16 \<le> length xs")
      case True
      then show ?thesis using xor_append [of "take 16 xs" ?k "drop 16 xs"] k by simp
    next
      case False
      then show ?thesis using k by (intro nth_equalityI) (simp_all add: xor_bytes_def nth_append)
    qed
    then show ?thesis using False ih k
      by (subst ctr_loop.simps) (simp add: aes_crypt_block inc_ctr_le_bytes keystream_Suc Let_def del: le_bytes.simps)
  qed (simp add: ctr_loop.simps xor_bytes_def)
qed

lemma aes_ctr_eq:
  assumes "block_laws pr" and "length iv = 16"
  shows "aes_ctr pr key iv xs = Ok (xor_bytes xs (keystream pr key (le_val (rev iv)) (length xs)))"
proof -
  have "le_bytes 16 (le_val (rev iv)) = rev iv" using le_bytes_le_val [of "rev iv"] assms(2) by simp
  then have i: "rev (le_bytes 16 (le_val (rev iv))) = iv" by simp
  have "length xs \<le> 16 * length xs" by simp
  from ctr_loop_eq [OF assms(1) this, of key "le_val (rev iv)"] show ?thesis unfolding i aes_ctr_def .
qed

text \<open>C35. The block modes, for any cipher that maps blocks to blocks and whose decryption undoes encryption. On
  whole blocks ECB and CBC decryption return the plaintext of what the encryption produced, which has the same
  length; anything else is refused. CTR combines the data with the encryptions of the successive values, modulo
  \<open>2 ^ 128\<close>, of the big-endian counter that starts at the initial vector, so that applying it twice is the identity.\<close>

theorem block_modes_invert:
  assumes "block_laws pr" and "length iv = 16"
  shows "(if length pt mod 16 = 0
      then \<exists>ecb cbc. aes_ecb_encrypt pr key pt (length pt) = Ok ecb \<and> aes_ecb_decrypt pr key ecb (length pt) = Ok pt \<and>
        aes_cbc_encrypt pr key iv pt (length pt) = Ok cbc \<and> aes_cbc_decrypt pr key iv cbc (length pt) = Ok pt
      else aes_ecb_encrypt pr key pt (length pt) = Err Crypto_InvalidLength \<and>
        aes_cbc_encrypt pr key iv pt (length pt) = Err Crypto_InvalidLength) \<and>
    (\<exists>ctr. aes_ctr pr key iv pt = Ok ctr \<and> aes_ctr pr key iv ctr = Ok pt \<and>
      ctr = xor_bytes pt (concat (map (\<lambda>i. key_enc pr key (rev (le_bytes 16 (le_val (rev iv) + i)))) [0..<length pt])))"
proof -
  have "\<exists>ecb cbc. aes_ecb_encrypt pr key pt (length pt) = Ok ecb \<and> aes_ecb_decrypt pr key ecb (length pt) = Ok pt \<and>
      aes_cbc_encrypt pr key iv pt (length pt) = Ok cbc \<and> aes_cbc_decrypt pr key iv cbc (length pt) = Ok pt"
    if m: "length pt mod 16 = 0"
  proof -
    obtain bs where bs: "pt = concat bs" "\<forall>b \<in> set bs. length b = 16" using chunks16_ex [OF m] .
    have l: "length pt = 16 * length bs" using bs length_concat16 by blast
    let ?e = "map (key_enc pr key) bs" and ?c = "cbc_blocks pr key iv bs"
    have e: "\<forall>b \<in> set ?e. length b = 16" "map (key_dec pr key) ?e = bs"
      using bs(2) key_laws [OF assms(1)] by (auto intro: map_idI)
    have c: "\<forall>b \<in> set ?c. length b = 16" using cbc_blocks_length [OF assms bs(2)] .
    have "aes_ecb_encrypt pr key pt (length pt) = Ok (concat ?e)"
      using aes_crypt_blocks(1) [OF bs(2)] l bs(1) by (simp add: aes_ecb_encrypt_def)
    moreover have "aes_ecb_decrypt pr key (concat ?e) (length pt) = Ok pt"
      using aes_crypt_blocks(2) [OF e(1)] l bs(1) e(2) by (simp add: aes_ecb_decrypt_def)
    moreover have "aes_cbc_encrypt pr key iv pt (length pt) = Ok (concat ?c)"
      using m cbc_encrypt_loop_eq [OF assms bs(2)] chunks16_concat [OF bs(2)] bs(1) by (simp add: aes_cbc_encrypt_def)
    moreover have "aes_cbc_decrypt pr key iv (concat ?c) (length pt) = Ok pt"
      using l cbc_decrypt_loop_eq [OF assms bs(2)] chunks16_concat [OF c] length_concat16 [OF c] bs(1)
      by (simp add: aes_cbc_decrypt_def)
    ultimately show ?thesis by blast
  qed
  moreover have "aes_ctr pr key iv (xor_bytes pt (keystream pr key (le_val (rev iv)) (length pt))) = Ok pt"
    unfolding aes_ctr_eq [OF assms] by (simp add: xor_twice length_keystream [OF assms(1)])
  ultimately show ?thesis
    using aes_ctr_eq [OF assms] by (auto simp: aes_ecb_encrypt_def aes_cbc_encrypt_def aes_crypt_def keystream_def)
qed

text \<open>Primitives that satisfy the laws, for the examples.\<close>

definition demo_prims :: prims where
  "demo_prims = \<lparr>sha1_digest = (\<lambda>_. replicate 20 0), sha256_digest = (\<lambda>_. replicate 32 0),
     hmac_sha1_mac = (\<lambda>_ _. Some (replicate 20 2)), hmac_sha256_mac = (\<lambda>_ _. Some (replicate 32 2)),
     aes_encrypt_block = (\<lambda>_ _. map (\<lambda>x. x + 1)), aes_decrypt_block = (\<lambda>_ _. map (\<lambda>x. x - 1)),
     gcm_encrypt = (\<lambda>_ _ _ _ m. Some (m @ replicate 16 1)),
     gcm_decrypt = (\<lambda>_ _ _ _ c. if 16 \<le> length c \<and> drop (length c - 16) c = replicate 16 1
                              then Some (take (length c - 16) c) else None),
     hkdf_expand = (\<lambda>_ _ n. Some (replicate n 3))\<rparr>"

lemma demo_block_laws: "block_laws demo_prims"
  by (simp add: block_laws_def demo_prims_def comp_def)

lemma demo_gcm_laws: "gcm_laws demo_prims"
proof -
  have "(16 \<le> length c \<and> drop (length c - 16) c = t \<and> take (length c - 16) c = m) \<longleftrightarrow> m @ t = c"
    if "length t = 16" for c m t :: bytes
    using that append_take_drop_id [of "length c - 16" c] by auto
  then show ?thesis by (simp add: gcm_laws_def demo_prims_def) (metis length_append length_replicate)
qed

theorem block_modes_invert_witness:
  "\<exists>cbc. aes_cbc_encrypt demo_prims \<lparr>ak_bits = Aes128, ak_bytes = K128 (replicate 16 0)\<rparr> (replicate 16 9) (replicate 32 7) 32 = Ok cbc \<and>
     aes_cbc_decrypt demo_prims \<lparr>ak_bits = Aes128, ak_bytes = K128 (replicate 16 0)\<rparr> (replicate 16 9) cbc 32 = Ok (replicate 32 7)"
  using block_modes_invert [OF demo_block_laws, of "replicate 16 9" "replicate 32 7" "\<lparr>ak_bits = Aes128, ak_bytes = K128 (replicate 16 0)\<rparr>"]
  by auto

end
