(* ===== verification/Storage_Format.thy ===== *)
theory Storage_Format
  imports Storage_Fs Crypto_Props
begin

text \<open>The formats of objects and directories: what \<open>write_object\<close> and \<open>store_dir_full\<close> put into the files, and that
  \<open>decrypt_object\<close> and \<open>parse_dir\<close> read it back.\<close>

section \<open>What the store relies on\<close>

text \<open>The cipher accepts every message of less than 4 GiB, the key derivation and the MAC give 32 bytes; an entropy
  source fills the buffer.\<close>

definition crypto_ok :: "prims \<Rightarrow> bool" where
  "crypto_ok pr \<longleftrightarrow> gcm_laws pr \<and>
     (\<forall>bits k n a m. length m < 2 ^ 32 \<longrightarrow> gcm_encrypt pr bits k n a m \<noteq> None) \<and>
     (\<forall>k i. \<exists>x. hkdf_expand pr k i 32 = Some x \<and> length x = 32) \<and>
     (\<forall>k d. \<exists>x. hmac_sha256_mac pr k d = Some x \<and> length x = 32)"

definition entropy_ok :: "'e entropy_ops \<Rightarrow> bool" where
  "entropy_ok en \<longleftrightarrow> (\<forall>e n. length (fst (en_fill en e n)) = n)"

abbreviation key32 :: "bytes \<Rightarrow> aes_key" where "key32 k \<equiv> \<lparr>ak_bits = Aes256, ak_bytes = K256 k\<rparr>"

lemma AesKey_32 [simp]: "length k = 32 \<Longrightarrow> AesKey_from_bytes k = Ok (key32 k)"
  by (simp add: AesKey_from_bytes_def)

text \<open>The key for a purpose, of an application.\<close>

definition ta_key :: "('e, 'f) ree_env \<Rightarrow> bytes \<Rightarrow> string \<Rightarrow> bytes" where
  "ta_key env ta info = (case res_bind (tsk env ta) (\<lambda>k. derive env k info) of Ok x \<Rightarrow> x | _ \<Rightarrow> [])"

lemma ta_keys:
  assumes "crypto_ok (re_prims env)"
  obtains k where "tsk env ta = Ok k" "\<forall>info. derive env k info = Ok (ta_key env ta info)"
    "\<forall>info. length (ta_key env ta info) = 32"
proof -
  have h: "\<exists>x. from_crypto (hkdf_sha256 (re_prims env) k i 32) = Ok x \<and> length x = 32" for k i
  proof -
    from assms obtain x where "hkdf_expand (re_prims env) k i 32 = Some x" "length x = 32"
      unfolding crypto_ok_def by blast
    then show ?thesis by (simp add: from_crypto_def hkdf_sha256_def)
  qed
  then obtain k where k: "tsk env ta = Ok k" unfolding tsk_def by (metis res_bind.simps(1))
  have "\<exists>x. derive env k info = Ok x \<and> length x = 32" for info using h by (simp add: derive_def)
  then have "derive env k info = Ok (ta_key env ta info) \<and> length (ta_key env ta info) = 32" for info
    unfolding ta_key_def k res_bind.simps by (metis res.case(1))
  then show ?thesis using that [OF k] by blast
qed

lemma gcm_lawsD:
  assumes "gcm_laws pr" and "gcm_encrypt pr bits k n a m = Some c"
  shows "gcm_decrypt pr bits k n a c = Some m" "length c = length m + 16"
  using assms unfolding gcm_laws_def by blast+

lemma gcm_seal:
  assumes "crypto_ok pr" and "length m < 2 ^ 32" and "length k = 32"
  obtains ct tag where "aes_gcm_encrypt pr (key32 k) n a m (length m) = Ok (ct, tag)" "length ct = length m" "length tag = 16"
    "gcm_encrypt pr Aes256 k n a m = Some (ct @ tag)"
proof -
  obtain c where c: "gcm_encrypt pr Aes256 k n a m = Some c" using assms(1,2) unfolding crypto_ok_def by blast
  then have l: "length c = length m + 16" using assms(1) gcm_lawsD(2) unfolding crypto_ok_def by blast
  have "aes_gcm_encrypt pr (key32 k) n a m (length m) = Ok (take (length m) c, drop (length m) c)"
    using c l by (simp add: aes_gcm_encrypt_def as_slice_def)
  from that [OF this] l c show ?thesis by simp
qed

lemma gcm_open:
  assumes "gcm_laws pr" and "gcm_encrypt pr Aes256 k n a m = Some (ct @ tag)" and "length tag = 16"
  shows "aes_gcm_decrypt pr (key32 k) n a ct tag (length ct) = Ok m"
proof -
  from gcm_lawsD [OF assms(1,2)] show ?thesis using assms(3) by (simp add: aes_gcm_decrypt_def as_slice_def)
qed

lemma gcm_authentic:
  assumes "gcm_laws pr" and "aes_gcm_decrypt pr key n a ct tag l = Ok m"
  shows "gcm_encrypt pr (ak_bits key) (as_slice key) n a m = Some (ct @ tag)" "length m = length ct" "l = length ct"
proof -
  have d: "gcm_decrypt pr (ak_bits key) (as_slice key) n a (ct @ tag) = Some m" "length m = l" "l = length ct"
    using assms(2) by (auto simp: aes_gcm_decrypt_def split: if_splits option.splits elim: ok_or.elims)
  then show "gcm_encrypt pr (ak_bits key) (as_slice key) n a m = Some (ct @ tag)" "length m = length ct" "l = length ct"
    using assms(1) unfolding gcm_laws_def by blast+
qed

section \<open>Objects\<close>

definition wf_handle :: "object_handle \<Rightarrow> bool" where
  "wf_handle h \<longleftrightarrow> length (oh_ta h) = 16 \<and> length (oh_file_id h) = 16 \<and> length (oh_object_id h) \<le> 255 \<and>
     length (oh_data h) \<le> MAX_OBJECT"

definition body_aad :: "object_handle \<Rightarrow> bytes" where
  "body_aad h = object_aad (oh_ta h) (oh_file_id h) (oh_obj_version h) @ to_le_bytes (word_of_nat (length (object_plain h)) :: u64)"

text \<open>The contents of an object file: the file key sealed under the wrapping key of the application, and the body
  under the file key, both bound to application, file and version.\<close>

definition is_object :: "('e, 'f) ree_env \<Rightarrow> object_handle \<Rightarrow> bytes \<Rightarrow> bool" where
  "is_object env h blob \<longleftrightarrow> (\<exists>fek wn bn wr wt ct bt.
     length fek = 32 \<and> length wn = 12 \<and> length bn = 12 \<and> length wr = 32 \<and> length wt = 16 \<and> length bt = 16 \<and>
     length ct = length (object_plain h) \<and>
     gcm_encrypt (re_prims env) Aes256 (ta_key env (oh_ta h) ''rustee.storage.wrap.v1'') wn
       (object_aad (oh_ta h) (oh_file_id h) (oh_obj_version h)) fek = Some (wr @ wt) \<and>
     gcm_encrypt (re_prims env) Aes256 fek bn (body_aad h) (object_plain h) = Some (ct @ bt) \<and>
     blob = object_blob h wn bn wr wt (length (object_plain h)) ct bt)"

lemma plain_length: "wf_handle h \<Longrightarrow> length (object_plain h) < 2 ^ 32 - 200"
  by (simp add: wf_handle_def object_plain_def MAX_OBJECT_def)

lemma length_ascii [simp]: "length (ascii s) = length s"
  by (simp add: ascii_def)

lemma slice_append:
  "off = length a \<Longrightarrow> n = off + length b \<Longrightarrow> slice_range (a @ b @ c) off n = Ok b"
  by (simp add: slice_range_Ok)

lemma is_object_length: "wf_handle h \<Longrightarrow> is_object env h blob \<Longrightarrow> length blob < 2 ^ 32"
  using plain_length [of h] by (auto simp: is_object_def object_blob_def wf_handle_def)

text \<open>Reading an object back under its own application, file and version, whatever identifier the caller asks for.\<close>

lemma decrypt_is_object:
  assumes "crypto_ok (re_prims env)" and "wf_handle h" and "is_object env h blob"
  shows "decrypt_object env (oh_ta h) (oh_file_id h) oid flags (oh_obj_version h) blob =
    (if oid = oh_object_id h then Ok (h\<lparr>oh_flags := flags\<rparr>) else Err Storage_Corrupt)"
proof -
  obtain fek wn bn wr wt ct bt where b: "length fek = 32" "length wn = 12" "length bn = 12" "length wr = 32" "length wt = 16"
    "length bt = 16" "length ct = length (object_plain h)"
    "gcm_encrypt (re_prims env) Aes256 (ta_key env (oh_ta h) ''rustee.storage.wrap.v1'') wn
       (object_aad (oh_ta h) (oh_file_id h) (oh_obj_version h)) fek = Some (wr @ wt)"
    "gcm_encrypt (re_prims env) Aes256 fek bn (body_aad h) (object_plain h) = Some (ct @ bt)"
    "blob = object_blob h wn bn wr wt (length (object_plain h)) ct bt"
    using assms(3) unfolding is_object_def by blast
  define n where "n = length (object_plain h)"
  define L where "L = to_le_bytes (word_of_nat n :: u64)"
  define H where "H = ascii ''RSTO'' @ [1] @ [0] @ to_le_bytes (0 :: u16) @ oh_file_id h @ oh_ta h @ to_le_bytes (oh_obj_version h)"
  have nl: "n < 2 ^ 32 - 200" using plain_length [OF assms(2)] by (simp add: n_def)
  have H: "length H = 48" "take 4 H = ascii ''RSTO''" using assms(2) by (simp_all add: H_def wf_handle_def)
  have l: "length L = 8" "unat (from_le_bytes L :: u64) = n" using nl by (simp_all add: L_def unat_of_nat)
  have blob: "blob = H @ wn @ bn @ wr @ wt @ L @ ct @ bt" by (simp add: b(10) object_blob_def H_def L_def n_def)
  have len: "length blob = 128 + n + 16" by (simp add: blob H l b n_def)
  have s: "slice_range blob 48 60 = (Ok wn :: bytes sres)" "slice_range blob 60 72 = (Ok bn :: bytes sres)"
    "slice_range blob 72 104 = (Ok wr :: bytes sres)" "slice_range blob 104 120 = (Ok wt :: bytes sres)"
    "read_le blob 120 = (Ok (from_le_bytes L) :: u64 sres)"
    "slice_range blob 128 (128 + n) = (Ok ct :: bytes sres)" "slice_range blob (128 + n) (128 + n + 16) = (Ok bt :: bytes sres)"
    using len by (simp_all add: slice_range_Ok read_le_Ok) (simp_all add: blob H l b n_def)
  have u: "usize_add 128 n = (Ok (128 + n) :: usize sres)" "usize_add (128 + n) 16 = (Ok (128 + n + 16) :: usize sres)"
    using nl by (simp_all add: usize_add_def USIZE_MAX_def)
  have g: "gcm_laws (re_prims env)" using assms(1) by (simp add: crypto_ok_def)
  obtain k where k: "tsk env (oh_ta h) = Ok k" "\<forall>info. derive env k info = Ok (ta_key env (oh_ta h) info)"
    "\<forall>info. length (ta_key env (oh_ta h) info) = 32" using ta_keys [OF assms(1), of "oh_ta h"] .
  have d: "aes_gcm_decrypt (re_prims env) (key32 (ta_key env (oh_ta h) ''rustee.storage.wrap.v1'')) wn
      (object_aad (oh_ta h) (oh_file_id h) (oh_obj_version h)) wr wt 32 = Ok fek"
    using gcm_open [OF g b(8,5)] b(4) by simp
  have e: "aes_gcm_decrypt (re_prims env) (key32 fek) bn
      (object_aad (oh_ta h) (oh_file_id h) (oh_obj_version h) @ to_le_bytes (word_of_nat n :: u64)) ct bt n = Ok (object_plain h)"
    using gcm_open [OF g b(9,6)] b(7) by (simp add: body_aad_def n_def)
  have o: "object_plain h = word_of_nat (length (oh_object_id h)) # oh_object_id h @ oh_data h" by (simp add: object_plain_def)
  have w: "unat (word_of_nat (length (oh_object_id h)) :: u8) = length (oh_object_id h)"
    using assms(2) by (simp add: wf_handle_def unat_of_nat)
  have t: "take 4 blob = ascii ''RSTO''" using H by (simp add: blob)
  show ?thesis
    unfolding decrypt_object_def Let_def s res_bind.simps l(2) u k(1) k(2) [rule_format] d e AesKey_32 [OF k(3) [rule_format]] AesKey_32 [OF b(1)] from_crypto_def map_err.simps
    using len t w by (simp add: o)
qed

text \<open>Conversely, an object that can be read was sealed for this application, file and version, under the identifier
  asked for; the 48 bytes in front are not part of that.\<close>

definition sealed :: "('e, 'f) ree_env \<Rightarrow> object_handle \<Rightarrow> bytes \<Rightarrow> bool" where
  "sealed env h blob \<longleftrightarrow> (\<exists>front fek wn bn wr wt ct bt rest.
     length front = 48 \<and> length wn = 12 \<and> length bn = 12 \<and> length wr = 32 \<and> length wt = 16 \<and> length bt = 16 \<and>
     gcm_encrypt (re_prims env) Aes256 (ta_key env (oh_ta h) ''rustee.storage.wrap.v1'') wn
       (object_aad (oh_ta h) (oh_file_id h) (oh_obj_version h)) fek = Some (wr @ wt) \<and>
     gcm_encrypt (re_prims env) Aes256 fek bn (body_aad h) (object_plain h) = Some (ct @ bt) \<and>
     blob = front @ wn @ bn @ wr @ wt @ to_le_bytes (word_of_nat (length (object_plain h)) :: u64) @ ct @ bt @ rest)"

lemma take_drop_cut: "a \<le> b \<Longrightarrow> drop a xs = take (b - a) (drop a xs) @ drop b xs"
  by (metis add_diff_inverse_nat append_take_drop_id drop_drop le_add_diff_inverse2 not_less)

lemma cut_blob:
  assumes "128 + n + 16 \<le> length (b :: bytes)"
  shows "b = take 48 b @ take 12 (drop 48 b) @ take 12 (drop 60 b) @ take 32 (drop 72 b) @ take 16 (drop 104 b) @
    take 8 (drop 120 b) @ take n (drop 128 b) @ take 16 (drop (128 + n) b) @ drop (128 + n + 16) b"
  using take_drop_cut [of 48 60 b] take_drop_cut [of 60 72 b] take_drop_cut [of 72 104 b] take_drop_cut [of 104 120 b]
    take_drop_cut [of 120 128 b] take_drop_cut [of 128 "128 + n" b] take_drop_cut [of "128 + n" "128 + n + 16" b]
    append_take_drop_id [of 48 b]
  by simp

lemma decrypt_authentic:
  assumes "crypto_ok (re_prims env)" and "decrypt_object env ta fid oid flags ver blob = Ok h"
  shows "oh_ta h = ta" "oh_file_id h = fid" "oh_object_id h = oid" "oh_flags h = flags" "oh_obj_version h = ver" "sealed env h blob"
proof -
  have len: "128 \<le> length blob" using assms(2) by (simp add: decrypt_object_def split: if_splits)
  define n where "n = unat (from_le_bytes (take 8 (drop 120 blob)) :: u64)"
  have g: "gcm_laws (re_prims env)" using assms(1) by (simp add: crypto_ok_def)
  obtain k where k: "tsk env ta = Ok k" "\<forall>info. derive env k info = Ok (ta_key env ta info)"
    "\<forall>info. length (ta_key env ta info) = 32" using ta_keys [OF assms(1), of ta] .
  let ?wn = "take 12 (drop 48 blob)" and ?bn = "take 12 (drop 60 blob)" and ?wr = "take 32 (drop 72 blob)" and ?wt = "take 16 (drop 104 blob)"
    and ?ct = "take n (drop 128 blob)" and ?bt = "take 16 (drop (128 + n) blob)" and ?aad = "object_aad ta fid ver"
  have s: "slice_range blob 48 60 = (Ok ?wn :: bytes sres)" "slice_range blob 60 72 = (Ok ?bn :: bytes sres)"
    "slice_range blob 72 104 = (Ok ?wr :: bytes sres)" "slice_range blob 104 120 = (Ok ?wt :: bytes sres)"
    "read_le blob 120 = (Ok (from_le_bytes (take 8 (drop 120 blob))) :: u64 sres)"
    using len by (simp_all add: slice_range_Ok read_le_Ok)
  note D = assms(2) [unfolded decrypt_object_def Let_def s res_bind.simps n_def [symmetric] k(1) k(2) [rule_format]
    AesKey_32 [OF k(3) [rule_format]] from_crypto_def map_err.simps]
  have fit: "128 + n + 16 \<le> length blob" "usize_add 128 n = (Ok (128 + n) :: usize sres)"
    "usize_add (128 + n) 16 = (Ok (128 + n + 16) :: usize sres)"
    using D by (auto simp: usize_add_def split: if_splits)
  have s': "slice_range blob 128 (128 + n) = (Ok ?ct :: bytes sres)" "slice_range blob (128 + n) (128 + n + 16) = (Ok ?bt :: bytes sres)"
    using fit(1) by (simp_all add: slice_range_Ok)
  obtain fek where fek: "aes_gcm_decrypt (re_prims env) (key32 (ta_key env ta ''rustee.storage.wrap.v1'')) ?wn ?aad ?wr ?wt 32 = Ok fek"
    using D [unfolded fit(2,3) s' res_bind.simps] by (cases "aes_gcm_decrypt (re_prims env) (key32 (ta_key env ta ''rustee.storage.wrap.v1'')) ?wn ?aad ?wr ?wt 32")
      (auto split: if_splits)
  note w = gcm_authentic [OF g fek]
  have lf: "length fek = 32" using w(2,3) by simp
  obtain pt where pt: "aes_gcm_decrypt (re_prims env) (key32 fek) ?bn (?aad @ to_le_bytes (word_of_nat n :: u64)) ?ct ?bt n = Ok pt"
    using D [unfolded fit(2,3) s' res_bind.simps fek map_err.simps AesKey_32 [OF lf]]
    by (cases "aes_gcm_decrypt (re_prims env) (key32 fek) ?bn (?aad @ to_le_bytes (word_of_nat n :: u64)) ?ct ?bt n")
      (auto split: if_splits)
  note b = gcm_authentic [OF g pt]
  have lp: "length pt = n" using b(2,3) by simp
  have F: "pt \<noteq> []" "1 + unat (hd pt) \<le> length pt" "oid = take (unat (hd pt)) (drop 1 pt)"
    "h = \<lparr>oh_ta = ta, oh_file_id = fid, oh_object_id = oid, oh_flags = flags, oh_data = drop (1 + unat (hd pt)) pt, oh_obj_version = ver\<rparr>"
    using D [unfolded fit(2,3) s' res_bind.simps fek map_err.simps AesKey_32 [OF lf] pt] by (auto split: if_splits)
  then have hf: "oh_ta h = ta" "oh_file_id h = fid" "oh_object_id h = oid" "oh_flags h = flags" "oh_obj_version h = ver"
    by simp_all
  then show "oh_ta h = ta" "oh_file_id h = fid" "oh_object_id h = oid" "oh_flags h = flags" "oh_obj_version h = ver" .
  have "length oid = unat (hd pt)" using F(2,3) by simp
  then have pl: "object_plain h = pt"
    using F(1) unfolding object_plain_def F(4) F(3) by (cases pt) simp_all
  have L: "take 8 (drop 120 blob) = to_le_bytes (word_of_nat n :: u64)" using len by (simp add: n_def)
  have ls: "length (take 48 blob) = 48" "length ?wn = 12" "length ?bn = 12" "length ?wr = 32" "length ?wt = 16" "length ?bt = 16"
    using len fit(1) by simp_all
  note eq = cut_blob [OF fit(1), unfolded L]
  have hw: "gcm_encrypt (re_prims env) Aes256 (ta_key env (oh_ta h) ''rustee.storage.wrap.v1'') ?wn
      (object_aad (oh_ta h) (oh_file_id h) (oh_obj_version h)) fek = Some (?wr @ ?wt)"
    using w(1) unfolding hf by (simp add: as_slice_def)
  have hb: "gcm_encrypt (re_prims env) Aes256 fek ?bn (body_aad h) (object_plain h) = Some (?ct @ ?bt)"
    using b(1) unfolding body_aad_def pl lp hf by (simp add: as_slice_def)
  show "sealed env h blob"
    unfolding sealed_def
    by (rule exI [of _ "take 48 blob"], rule exI [of _ fek], rule exI [of _ ?wn], rule exI [of _ ?bn], rule exI [of _ ?wr],
      rule exI [of _ ?wt], rule exI [of _ ?ct], rule exI [of _ ?bt], rule exI [of _ "drop (128 + n + 16) blob"])
      (intro conjI ls hw hb, unfold pl lp, rule eq)
qed

section \<open>Directories\<close>

definition ref_at :: "file_ref list \<Rightarrow> nat \<Rightarrow> file_ref" where
  "ref_at files i = (if i < length files then files ! i else (replicate 16 0, 1))"

text \<open>One file reference per entry, the missing ones filled in.\<close>

definition refs :: "object_meta list \<Rightarrow> file_ref list \<Rightarrow> file_ref list" where
  "refs entries files = map (ref_at files) [0..<length entries]"

definition wf_dir :: "object_meta list \<Rightarrow> file_ref list \<Rightarrow> bool" where
  "wf_dir entries files \<longleftrightarrow> length entries < 2 ^ 20 \<and> (\<forall>e \<in> set entries. length (om_object_id e) \<le> 255) \<and>
     (\<forall>r \<in> set files. length (fst r) = 16)"

lemma ref_at_length: "\<forall>r \<in> set files. length (fst r) = 16 \<Longrightarrow> length (fst (ref_at files i)) = 16"
  by (simp add: ref_at_def)

lemma parse_entry:
  assumes "length fid = 16" and "length oid \<le> 255" and "off = length pre"
    and "pt = pre @ (fid @ [word_of_nat (length oid)] @ oid @ to_le_bytes (fl :: u32) @ to_le_bytes (sz :: u64) @ to_le_bytes (ver :: u64)) @ post"
  shows "parse_entries pt (Suc n) off =
    res_bind (parse_entries pt n (off + 37 + length oid)) (\<lambda>(es, fs).
      Ok (\<lparr>om_object_id = oid, om_flags = fl, om_data_size = sz\<rparr> # es, (fid, ver) # fs))"
proof -
  have len: "length pt = off + 37 + length oid + length post" using assms(1,3,4) by simp
  have l: "unat (word_of_nat (length oid) :: u8) = length oid" using assms(2) by (simp add: unat_of_nat)
  have s: "slice_range pt off (off + 16) = (Ok fid :: bytes sres)" "index pt (off + 16) = (Ok (word_of_nat (length oid)) :: u8 sres)"
    "slice_range pt (off + 16 + 1) (off + 16 + 1 + length oid) = (Ok oid :: bytes sres)"
    using assms(1,3) len by (simp_all add: slice_range_Ok index_def assms(4) nth_append)
  have r: "read_le pt (off + 16 + 1 + length oid) = (Ok fl :: u32 sres)"
    "read_le pt (off + 16 + 1 + length oid + 4) = (Ok sz :: u64 sres)"
    "read_le pt (off + 16 + 1 + length oid + 4 + 8) = (Ok ver :: u64 sres)"
    using read_le_append [of "off + 16 + 1 + length oid" "pre @ fid @ [word_of_nat (length oid)] @ oid" fl]
      read_le_append [of "off + 16 + 1 + length oid + 4" "pre @ fid @ [word_of_nat (length oid)] @ oid @ to_le_bytes fl" sz]
      read_le_append [of "off + 16 + 1 + length oid + 4 + 8" "pre @ fid @ [word_of_nat (length oid)] @ oid @ to_le_bytes fl @ to_le_bytes sz" ver]
      assms(1,3) by (simp_all add: assms(4))
  have "off + 16 + 1 + length oid + 4 + 8 + 8 = off + 37 + length oid" by simp
  then show ?thesis using len by (simp only: parse_entries.simps s res_bind.simps Let_def l r) simp
qed

lemma parse_entries_plain:
  assumes "\<forall>e \<in> set es. length (om_object_id e) \<le> 255" and "\<forall>r \<in> set files. length (fst r) = 16"
    and "pt = pre @ dir_entries es files i @ post"
  shows "parse_entries pt (length es) (length pre) = Ok (es, map (ref_at files) [i..<i + length es])"
  using assms(1,3)
proof (induction es arbitrary: i pre)
  case (Cons e es)
  obtain fid ver where r: "ref_at files i = (fid, ver)" by fastforce
  have f: "length fid = 16" using ref_at_length [OF assms(2), of i] r by simp
  let ?E = "fid @ [word_of_nat (length (om_object_id e))] @ om_object_id e @ to_le_bytes (om_flags e) @ to_le_bytes (om_data_size e) @ to_le_bytes ver"
  have E: "dir_entries (e # es) files i = ?E @ dir_entries es files (Suc i)"
    using r by (simp add: dir_entry_def ref_at_def split: if_splits)
  have pt: "pt = (pre @ ?E) @ dir_entries es files (Suc i) @ post" using Cons.prems(2) unfolding E by simp
  have L: "length (pre @ ?E) = length pre + 37 + length (om_object_id e)" using f by simp
  have I: "parse_entries pt (length es) (length (pre @ ?E)) = Ok (es, map (ref_at files) [Suc i..<Suc i + length es])"
    using Cons.prems(1) by (intro Cons.IH [OF _ pt]) simp
  have U: "[i..<i + length (e # es)] = i # [Suc i..<Suc i + length es]"
    using upt_conv_Cons [of i "i + length (e # es)"] by (simp del: upt_Suc)
  have P: "parse_entries pt (Suc (length es)) (length pre) =
      res_bind (parse_entries pt (length es) (length pre + 37 + length (om_object_id e))) (\<lambda>(es, fs).
        Ok (\<lparr>om_object_id = om_object_id e, om_flags = om_flags e, om_data_size = om_data_size e\<rparr> # es, (fid, ver) # fs))"
    using Cons.prems(1) f pt by (intro parse_entry) simp_all
  show ?case unfolding U unfolding list.map r list.size add_0_right add_Suc_right P L [symmetric] I res_bind.simps prod.case by simp
qed simp

lemma parse_dir_plain:
  assumes "wf_dir entries files"
  shows "parse_dir (dir_plain entries files) = Ok (entries, refs entries files)"
proof -
  let ?A = "ascii ''RSTD'' @ [1] @ [0, 0, 0] @ to_le_bytes (1 :: u64)" and ?n = "to_le_bytes (word_of_nat (length entries) :: u32)"
  have p: "dir_plain entries files = ?A @ ?n @ dir_entries entries files 0" by (simp add: dir_plain_def)
  have l: "length ?A = 16" "take 4 ?A = ascii ''RSTD''" by simp_all
  have "read_le (dir_plain entries files) 16 = (Ok (word_of_nat (length entries)) :: u32 sres)"
    unfolding p using l(1) by (intro read_le_append) simp_all
  moreover have "unat (word_of_nat (length entries) :: u32) = length entries"
    using assms by (simp add: wf_dir_def unat_of_nat)
  moreover have "parse_entries (dir_plain entries files) (length entries) (length (?A @ ?n)) =
      Ok (entries, map (ref_at files) [0..<0 + length entries])"
    using assms by (intro parse_entries_plain [where post = "[]"]) (simp_all add: wf_dir_def p)
  moreover have "length (?A @ ?n) = 20" "20 \<le> length (dir_plain entries files)" "take 4 (dir_plain entries files) = ascii ''RSTD''"
    unfolding p by simp_all
  ultimately show ?thesis by (simp add: parse_dir_def refs_def)
qed

lemma dir_plain_length: "wf_dir entries files \<Longrightarrow> length (dir_plain entries files) < 2 ^ 32 - 100"
proof -
  assume w: "wf_dir entries files"
  have "length (dir_entries es files i) \<le> 300 * length es"
    if "\<forall>e \<in> set es. length (om_object_id e) \<le> 255" for es i
    using that
  proof (induction es arbitrary: i)
    case (Cons e es)
    have "length (fst (if i < length files then files ! i else (replicate 16 0, 1 :: u64))) = 16"
      using w by (simp add: wf_dir_def)
    then have "length (dir_entry e (if i < length files then files ! i else (replicate 16 0, 1))) \<le> 300"
      using Cons.prems by (simp add: dir_entry_def)
    moreover have "length (dir_entries es files (Suc i)) \<le> 300 * length es" using Cons by simp
    ultimately show ?case by (simp add: dir_entries.simps del: if_split)
  qed simp
  from this [of entries 0] w show ?thesis by (simp add: wf_dir_def dir_plain_def)
qed

text \<open>The contents of a directory file.\<close>

definition is_dir :: "('e, 'f) ree_env \<Rightarrow> bytes \<Rightarrow> object_meta list \<Rightarrow> file_ref list \<Rightarrow> bytes \<Rightarrow> bool" where
  "is_dir env ta entries files blob \<longleftrightarrow> (\<exists>nonce ct tag mac.
     length nonce = 12 \<and> length tag = 16 \<and> length mac = 32 \<and> length ct = length (dir_plain entries files) \<and>
     gcm_encrypt (re_prims env) Aes256 (ta_key env ta ''rustee.storage.dir.v1'') nonce (dir_aad ta) (dir_plain entries files) = Some (ct @ tag) \<and>
     hmac_sha256_mac (re_prims env) (ta_key env ta ''rustee.storage.mac.v1'') (ct @ tag) = Some mac \<and>
     blob = nonce @ (ct @ tag) @ mac)"

lemma is_dir_length: "wf_dir entries files \<Longrightarrow> is_dir env ta entries files blob \<Longrightarrow> length blob < 2 ^ 32"
  using dir_plain_length [of entries files] by (auto simp: is_dir_def)

lemma open_is_dir:
  assumes "crypto_ok (re_prims env)" and "wf_dir entries files" and "is_dir env ta entries files blob"
  shows "open_dir env ta blob = Ok (entries, refs entries files)"
proof -
  obtain nonce ct tag mac where b: "length nonce = 12" "length tag = 16" "length mac = 32" "length ct = length (dir_plain entries files)"
    "gcm_encrypt (re_prims env) Aes256 (ta_key env ta ''rustee.storage.dir.v1'') nonce (dir_aad ta) (dir_plain entries files) = Some (ct @ tag)"
    "hmac_sha256_mac (re_prims env) (ta_key env ta ''rustee.storage.mac.v1'') (ct @ tag) = Some mac"
    "blob = nonce @ (ct @ tag) @ mac"
    using assms(3) unfolding is_dir_def by blast
  obtain k where k: "tsk env ta = Ok k" "\<forall>info. derive env k info = Ok (ta_key env ta info)"
    "\<forall>info. length (ta_key env ta info) = 32" using ta_keys [OF assms(1), of ta] .
  have g: "gcm_laws (re_prims env)" using assms(1) by (simp add: crypto_ok_def)
  note d = gcm_open [OF g b(5,2)]
  have h: "hmac_sha256 (re_prims env) (ta_key env ta ''rustee.storage.mac.v1'') (ct @ tag) = Ok mac"
    using b(6) by (simp add: hmac_sha256_def)
  show ?thesis
    unfolding open_dir_def k(1) k(2) [rule_format] res_bind.simps AesKey_32 [OF k(3) [rule_format]] from_crypto_def map_err.simps
    using b(1-3) h d parse_dir_plain [OF assms(2)] by (simp add: b(7) Let_def)
qed

end
