(* ===== verification/Storage_Ops.thy ===== *)
theory Storage_Ops
  imports Storage_Format
begin

text \<open>The operations of \<open>ReeFs\<close> over any backend that keeps the contract: each one computes a function of the file
  contents, and changes at most the directory file and one object file.\<close>

section \<open>The store as a function of the files\<close>

definition dir_at :: "('e, 'f) ree_env \<Rightarrow> mem_fs \<Rightarrow> bytes \<Rightarrow> (object_meta list \<times> file_ref list) sres" where
  "dir_at env F ta = (case F (dir_path ta) of None \<Rightarrow> Err Storage_NotFound | Some b \<Rightarrow> open_dir env ta b)"

definition obj_at :: "('e, 'f) ree_env \<Rightarrow> mem_fs \<Rightarrow> bytes \<Rightarrow> bytes \<Rightarrow> object_handle sres" where
  "obj_at env F ta oid =
     res_bind (dir_at env F ta) (\<lambda>(entries, fs).
     res_bind (ok_or (position entries oid) Storage_NotFound) (\<lambda>i.
     res_bind (index fs i) (\<lambda>(fid, ver).
       case F (obj_path ta fid) of
         None \<Rightarrow> Err Storage_Corrupt
       | Some b \<Rightarrow> decrypt_object env ta fid oid (om_flags (entries ! i)) ver b)))"

text \<open>Paths of different files differ.\<close>

lemma hex_char_inj:
  assumes "i < 16" and "j < 16" and "hex_char i = hex_char j"
  shows "i = j"
proof -
  have "distinct (ascii ''0123456789abcdef'')" "length (ascii ''0123456789abcdef'') = 16" by (simp_all add: ascii_def)
  then show ?thesis using assms nth_eq_iff_index_eq unfolding hex_char_def by metis
qed

lemma hi4: "unat (drop_bit 4 (w :: u8)) < 16"
proof -
  have "unat w < 256" using unsigned_less [of w, where 'a = nat] by simp
  moreover have "unat (drop_bit 4 w) = drop_bit 4 (take_bit 8 (unat w))" using unsigned_drop_bit_eq [of 4 w, where 'a = nat] by simp
  moreover have "take_bit 8 (unat w) < 256" using take_bit_nat_less_exp [of 8 "unat w"] by simp
  ultimately show ?thesis by (simp only: drop_bit_eq_div) simp
qed

lemma lo4: "unat (w AND 0xf :: u8) < 16"
proof -
  have "w AND 0xf \<le> 0xf" by (rule word_and_le1)
  then show ?thesis by (simp add: word_le_nat_alt)
qed

lemma split4: "drop_bit 4 x = drop_bit 4 y \<Longrightarrow> x AND 0xf = y AND 0xf \<Longrightarrow> x = (y :: u8)"
proof -
  assume a: "drop_bit 4 x = drop_bit 4 y" "x AND 0xf = y AND 0xf"
  have m: "(0xf :: u8) = mask 4" by (simp add: mask_eq_exp_minus_1)
  have "take_bit 4 x = take_bit 4 y" using a(2) unfolding m take_bit_eq_mask .
  then show "x = y" using bits_ident [of 4 x] bits_ident [of 4 y] a(1) by metis
qed

lemma hex32_simps: "hex32 [] = []"
  "hex32 (x # b) = hex_char (unat (drop_bit 4 x)) # hex_char (unat (x AND 0xf)) # hex32 b"
  by (simp_all add: hex32_def)

lemma hex32_inj: "hex32 a = hex32 b \<Longrightarrow> a = b"
proof (induction a arbitrary: b)
  case Nil
  then show ?case by (cases b) (simp_all only: hex32_simps list.distinct)
next
  case (Cons x a)
  obtain y b' where b: "b = y # b'" using Cons.prems by (cases b) (simp_all only: hex32_simps list.distinct)
  have h: "hex_char (unat (drop_bit 4 x)) = hex_char (unat (drop_bit 4 y))" "hex_char (unat (x AND 0xf)) = hex_char (unat (y AND 0xf))"
    "hex32 a = hex32 b'" using Cons.prems unfolding b hex32_simps list.inject by blast+
  have "drop_bit 4 x = drop_bit 4 y" using hex_char_inj [OF hi4 hi4 h(1)] by (simp only: word_unat_eq_iff)
  moreover have "x AND 0xf = y AND 0xf" using hex_char_inj [OF lo4 lo4 h(2)] by (simp only: word_unat_eq_iff)
  ultimately show ?case using split4 Cons.IH [OF h(3)] b by blast
qed

lemma length_hex32 [simp]: "length (hex32 b) = 2 * length b"
  by (induction b) (simp_all add: hex32_simps)

lemma obj_path_inj [simp]: "obj_path ta a = obj_path ta b \<longleftrightarrow> a = b"
  using hex32_inj by (auto simp: obj_path_def)

lemma dir_not_obj [simp]:
  assumes "length a = 16"
  shows "dir_path ta \<noteq> obj_path ta a" "obj_path ta a \<noteq> dir_path ta"
proof -
  have "length (dir_path ta) \<noteq> length (obj_path ta a)" using assms by (simp add: dir_path_def obj_path_def)
  then show "dir_path ta \<noteq> obj_path ta a" "obj_path ta a \<noteq> dir_path ta" by auto
qed

lemma position_iff:
  "position es oid = Some i \<longleftrightarrow> i < length es \<and> om_object_id (es ! i) = oid \<and> (\<forall>j < i. om_object_id (es ! j) \<noteq> oid)"
proof (induction es arbitrary: i)
  case (Cons e es)
  show ?case
  proof (cases "om_object_id e = oid")
    case True
    then show ?thesis by (auto simp: position_def nth_Cons')
  next
    case False
    have "position (e # es) oid = map_option Suc (position es oid)" using False by (simp add: position_def Let_def)
    then show ?thesis using Cons False by (cases i) (auto simp: All_less_Suc2)
  qed
qed (simp add: position_def)

lemma position_None: "position es oid = None \<longleftrightarrow> (\<forall>e \<in> set es. om_object_id e \<noteq> oid)"
proof (induction es)
  case (Cons e es)
  have "position (e # es) oid = (if om_object_id e = oid then Some 0 else map_option Suc (position es oid))"
    by (simp add: position_def Let_def)
  then show ?case using Cons by simp
qed (simp add: position_def)

lemma fill_Ok:
  assumes "entropy_ok (re_entropy env)"
  obtains b s' where "fill env n s = Some (Ok b, s')" "length b = n" "rf_fs s' = rf_fs s" "b = fst (en_fill (re_entropy env) (rf_entropy s) n)"
proof -
  obtain b e where e: "en_fill (re_entropy env) (rf_entropy s) n = (b, e)" by fastforce
  then have l: "length b = n" using assms unfolding entropy_ok_def by (metis fst_conv)
  have "fill env n s = Some (Ok b, s\<lparr>rf_entropy := e\<rparr>)" using e by (simp add: fill_def)
  then show ?thesis by (rule that) (simp_all add: l e)
qed

text \<open>What a directory that can be read looks like.\<close>

lemma parse_entries_Ok:
  assumes "parse_entries pt n off = Ok (es, rs)"
  shows "length es = n" "length rs = n" "\<forall>e \<in> set es. length (om_object_id e) \<le> 255" "\<forall>r \<in> set rs. length (fst r) = 16"
proof -
  have "length es = n \<and> length rs = n \<and> (\<forall>e \<in> set es. length (om_object_id e) \<le> 255) \<and> (\<forall>r \<in> set rs. length (fst r) = 16)"
    using assms
  proof (induction n arbitrary: off es rs)
    case (Suc n)
    have 1: "off + 17 \<le> length pt" using Suc.prems by (simp split: if_splits)
    define l where "l = pt ! (off + 16)"
    have 2: "off + 17 + unat l + 20 \<le> length pt" using Suc.prems 1 by (simp add: index_def slice_range_Ok Let_def l_def split: if_splits)
    let ?fid = "take 16 (drop off pt)" and ?oid = "take (unat l) (drop (off + 17) pt)"
    obtain es' rs' fl sz ver where r: "parse_entries pt n (off + 16 + 1 + unat l + 4 + 8 + 8) = Ok (es', rs')"
      "es = \<lparr>om_object_id = ?oid, om_flags = fl, om_data_size = sz\<rparr> # es'" "rs = (?fid, ver) # rs'"
      using Suc.prems 1 2
      by (cases "parse_entries pt n (off + 16 + 1 + unat l + 4 + 8 + 8)")
        (auto simp: index_def slice_range_Ok read_le_Ok Let_def l_def [symmetric] add.commute add.left_commute split: if_splits)
    have "unat l < 256" using unsigned_less [of l, where 'a = nat] by simp
    then show ?case using Suc.IH [OF r(1)] r(2,3) 1 by auto
  qed simp
  then show "length es = n" "length rs = n" "\<forall>e \<in> set es. length (om_object_id e) \<le> 255" "\<forall>r \<in> set rs. length (fst r) = 16"
    by blast+
qed

lemma open_dir_parses:
  assumes "open_dir env ta blob = Ok d"
  obtains pt where "parse_dir pt = Ok d"
  using assms that unfolding open_dir_def Let_def
  by (auto split: if_splits)

lemma dir_at_Ok:
  assumes "dir_at env F ta = Ok (es, rs)"
  shows "length rs = length es" "\<forall>e \<in> set es. length (om_object_id e) \<le> 255" "\<forall>r \<in> set rs. length (fst r) = 16"
proof -
  obtain b where "open_dir env ta b = Ok (es, rs)" using assms by (cases "F (dir_path ta)") (simp_all add: dir_at_def)
  then obtain pt where pt: "parse_dir pt = Ok (es, rs)" by (rule open_dir_parses)
  then obtain n where "parse_entries pt n 20 = Ok (es, rs)"
    unfolding parse_dir_def by (auto split: if_splits)
  from parse_entries_Ok [OF this]
  show "length rs = length es" "\<forall>e \<in> set es. length (om_object_id e) \<le> 255" "\<forall>r \<in> set rs. length (fst r) = 16" by simp_all
qed

definition new_meta :: "object_handle \<Rightarrow> object_meta" where
  "new_meta h = \<lparr>om_object_id = oh_object_id h, om_flags = oh_flags h, om_data_size = word_of_nat (length (oh_data h))\<rparr>"

lemma dir_at_is_dir:
  assumes "crypto_ok (re_prims env)" and "wf_dir es rs" and "is_dir env ta es rs b" and "F (dir_path ta) = Some b"
  shows "dir_at env F ta = Ok (es, refs es rs)"
  using open_is_dir [OF assms(1-3)] assms(4) by (simp add: dir_at_def)

lemma refs_same: "length rs = length es \<Longrightarrow> refs es rs = rs"
  by (rule nth_equalityI) (simp_all add: refs_def ref_at_def)

lemma obj_at_Ok:
  assumes "crypto_ok (re_prims env)" and "obj_at env F ta oid = Ok h"
  obtains es rs i blob where "dir_at env F ta = Ok (es, rs)" "position es oid = Some i" "i < length rs"
    "rs ! i = (oh_file_id h, oh_obj_version h)" "F (obj_path ta (oh_file_id h)) = Some blob" "oh_ta h = ta" "oh_object_id h = oid"
    "oh_flags h = om_flags (es ! i)" "sealed env h blob" "length (oh_file_id h) = 16" "length oid \<le> 255"
proof -
  obtain es rs where d: "dir_at env F ta = Ok (es, rs)" using assms(2) by (auto simp: obj_at_def)
  obtain i where i: "position es oid = Some i" using assms(2) d by (cases "position es oid") (auto simp: obj_at_def)
  have l: "i < length rs" "i < length es" using i dir_at_Ok(1) [OF d] by (simp_all add: position_iff)
  obtain fid ver where f: "rs ! i = (fid, ver)" by fastforce
  obtain blob where b: "F (obj_path ta fid) = Some blob" "decrypt_object env ta fid oid (om_flags (es ! i)) ver blob = Ok h"
    using assms(2) d i l f by (cases "F (obj_path ta fid)") (auto simp: obj_at_def index_def)
  note a = decrypt_authentic [OF assms(1) b(2)]
  have "(fid, ver) \<in> set rs" "es ! i \<in> set es" using l f nth_mem by metis+
  then have "length fid = 16" "length (om_object_id (es ! i)) \<le> 255" using dir_at_Ok(2,3) [OF d] by force+
  moreover have "om_object_id (es ! i) = oid" using i by (simp add: position_iff)
  ultimately show ?thesis using that [OF d i l(1) _ _ a(1,3) _ a(6)] a f b(1) by simp
qed

context fs_contract
begin

definition ready :: "nat \<Rightarrow> ('e, 'f) ree_fs \<Rightarrow> bool" where
  "ready k s \<longleftrightarrow> fs_good (rf_fs s) \<and> k \<le> room (rf_fs s)"

text \<open>The call leaves the files \<open>F\<close> and uses up at most \<open>n\<close> calls of the backend.\<close>

definition used :: "nat \<Rightarrow> ('e, 'f) ree_fs \<Rightarrow> mem_fs \<Rightarrow> ('e, 'f) ree_fs \<Rightarrow> bool" where
  "used n s F s' \<longleftrightarrow> files (rf_fs s') = F \<and> fs_good (rf_fs s') \<and> room (rf_fs s) \<le> n + room (rf_fs s')"

abbreviation after :: "('e, 'f) ree_fs \<Rightarrow> mem_fs \<Rightarrow> ('e, 'f) ree_fs \<Rightarrow> bool" where
  "after \<equiv> used 1"

lemmas after_def = used_def

lemma ready_used: "ready j s \<Longrightarrow> used n s F s' \<Longrightarrow> n + k \<le> j \<Longrightarrow> ready k s'" "used n s F s' \<Longrightarrow> files (rf_fs s') = F"
  by (auto simp: ready_def used_def)

lemma ready_after: "ready (Suc k) s \<Longrightarrow> after s F s' \<Longrightarrow> ready k s'" "after s F s' \<Longrightarrow> files (rf_fs s') = F"
  by (auto simp: ready_def used_def)

lemma used_trans: "used m s F s' \<Longrightarrow> used n s' G s'' \<Longrightarrow> used (m + n) s G s''"
  by (simp add: used_def)

lemma ready_mono: "ready k s \<Longrightarrow> j \<le> k \<Longrightarrow> ready j s"
  by (simp add: ready_def)

lemma ready_same: "rf_fs s' = rf_fs s \<Longrightarrow> ready k s' = ready k s" "rf_fs s' = rf_fs s \<Longrightarrow> used n s' F t = used n s F t"
  by (simp_all add: ready_def used_def)

lemma on_fs_read:
  assumes "ready 1 s"
  shows "\<exists>s'. on_fs (fr_read fs p) s = Some (ok_or (files (rf_fs s) p) Storage_NotFound, s') \<and> after s (files (rf_fs s)) s'"
proof -
  obtain f' where "fr_read fs p (rf_fs s) = Some (ok_or (files (rf_fs s) p) Storage_NotFound, f')" "files f' = files (rf_fs s)"
    "fs_good f'" "room (rf_fs s) \<le> Suc (room f')"
    using fs_read [of "rf_fs s" p] assms by (auto simp: ready_def)
  then show ?thesis by (simp add: on_fs_def after_def)
qed

lemma on_fs_delete:
  assumes "ready 1 s"
  shows "\<exists>s'. on_fs (fr_delete fs p) s = Some (Ok (), s') \<and> after s ((files (rf_fs s))(p := None)) s'"
proof -
  obtain f' where "fr_delete fs p (rf_fs s) = Some (Ok (), f')" "files f' = (files (rf_fs s))(p := None)"
    "fs_good f'" "room (rf_fs s) \<le> Suc (room f')"
    using fs_delete [of "rf_fs s" p] assms by (auto simp: ready_def)
  then show ?thesis by (simp add: on_fs_def after_def)
qed

lemma on_fs_mkdir:
  assumes "ready 1 s"
  shows "\<exists>s'. on_fs (fr_mkdir fs p) s = Some (Ok (), s') \<and> after s (files (rf_fs s)) s'"
proof -
  obtain f' where "fr_mkdir fs p (rf_fs s) = Some (Ok (), f')" "files f' = files (rf_fs s)"
    "fs_good f'" "room (rf_fs s) \<le> Suc (room f')"
    using fs_mkdir [of "rf_fs s" p] assms by (auto simp: ready_def)
  then show ?thesis by (simp add: on_fs_def after_def)
qed

lemma write_or_create_Ok:
  assumes "re_fs env = fs" and "ready 1 s" and "length blob < 2 ^ 32"
  shows "\<exists>s'. write_or_create env p blob s = Some (Ok (), s') \<and> after s ((files (rf_fs s))(p \<mapsto> blob)) s'"
proof -
  obtain f' where "fr_write fs p blob (rf_fs s) = Some (Ok (), f')" "files f' = (files (rf_fs s))(p \<mapsto> blob)"
    "fs_good f'" "room (rf_fs s) \<le> Suc (room f')"
    using fs_write [of "rf_fs s" blob p] assms(2,3) by (auto simp: ready_def)
  then show ?thesis using assms(1) by (simp add: write_or_create_def on_fs_def after_def stry_def)
qed

lemma load_dir_full_eq:
  assumes "re_fs env = fs" and "ready 1 s"
  shows "\<exists>s'. load_dir_full env ta s = Some (dir_at env (files (rf_fs s)) ta, s') \<and> after s (files (rf_fs s)) s'"
proof -
  obtain s' where s: "on_fs (fr_read fs (dir_path ta)) s = Some (ok_or (files (rf_fs s) (dir_path ta)) Storage_NotFound, s')"
    "after s (files (rf_fs s)) s'" using on_fs_read [OF assms(2)] by blast
  then show ?thesis
    by (cases "files (rf_fs s) (dir_path ta)") (simp_all add: load_dir_full_def assms(1) dir_at_def smap_err_def sbind_def)
qed

lemma load_dir_eq:
  assumes "re_fs env = fs" and "ready 1 s"
  shows "\<exists>s'. load_dir env ta s = Some (res_bind (dir_at env (files (rf_fs s)) ta) (\<lambda>(es, _). Ok es), s') \<and> after s (files (rf_fs s)) s'"
proof -
  obtain s' where "load_dir_full env ta s = Some (dir_at env (files (rf_fs s)) ta, s')" "after s (files (rf_fs s)) s'"
    using load_dir_full_eq [OF assms] by blast
  then show ?thesis by (cases "dir_at env (files (rf_fs s)) ta") (auto simp: load_dir_def sbind_def)
qed

lemma reefs_open_eq:
  assumes "re_fs env = fs" and "ready 2 s"
  shows "\<exists>s'. reefs_open env ta oid s = Some (obj_at env (files (rf_fs s)) ta oid, s') \<and> used 2 s (files (rf_fs s)) s'"
proof -
  let ?F = "files (rf_fs s)"
  obtain s1 where s1: "load_dir_full env ta s = Some (dir_at env ?F ta, s1)" "after s ?F s1"
    using load_dir_full_eq [OF assms(1) ready_mono [OF assms(2)]] by auto
  have r: "ready 1 s1" "files (rf_fs s1) = ?F" using ready_after(1) [OF _ s1(2), of 1] ready_after(2) [OF s1(2)] assms(2) by (simp_all add: numeral_2_eq_2)
  have s1': "used 2 s ?F s1" using s1(2) by (auto simp: used_def)
  show ?thesis
  proof (cases "dir_at env ?F ta")
    case (Ok d)
    obtain entries rs where d: "d = (entries, rs)" by fastforce
    show ?thesis
    proof (cases "position entries oid")
      case None
      then show ?thesis using s1(1) Ok d r s1' by (simp add: reefs_open_def obj_at_def)
    next
      case (Some i)
      show ?thesis
      proof (cases "i < length rs")
        case True
        obtain fid ver where f: "rs ! i = (fid, ver)" by fastforce
        obtain s2 where "on_fs (fr_read fs (obj_path ta fid)) s1 = Some (ok_or (?F (obj_path ta fid)) Storage_NotFound, s2)"
          "after s1 ?F s2" using on_fs_read [OF r(1), of "obj_path ta fid"] r(2) by auto
        then show ?thesis using s1 Ok d Some True f s1' assms(1)
          by (cases "?F (obj_path ta fid)") (auto simp: reefs_open_def obj_at_def index_def smap_err_def sbind_def used_def)
      next
        case False
        then show ?thesis using s1(1) Ok d Some r s1' by (simp add: reefs_open_def obj_at_def index_def)
      qed
    qed
  qed (use s1 r s1' in \<open>simp_all add: reefs_open_def obj_at_def\<close>)
qed

section \<open>Writing\<close>

lemma write_object_Ok:
  assumes "re_fs env = fs" and "crypto_ok (re_prims env)" and "entropy_ok (re_entropy env)" and "wf_handle h" and "ready 1 s"
  shows "\<exists>s' blob. write_object env h s = Some (Ok (), s') \<and> is_object env h blob \<and>
    after s ((files (rf_fs s))(obj_path (oh_ta h) (oh_file_id h) \<mapsto> blob)) s'"
proof -
  let ?ta = "oh_ta h" and ?pr = "re_prims env" and ?pt = "object_plain h"
  let ?aad = "object_aad ?ta (oh_file_id h) (oh_obj_version h)" and ?k = "ta_key env (oh_ta h) ''rustee.storage.wrap.v1''"
  obtain k where k: "tsk env ?ta = Ok k" "\<forall>info. derive env k info = Ok (ta_key env ?ta info)"
    "\<forall>info. length (ta_key env ?ta info) = 32" using ta_keys [OF assms(2), of ?ta] .
  obtain fek s1 where f: "fill env 32 s = Some (Ok fek, s1)" "length fek = 32" "rf_fs s1 = rf_fs s" using fill_Ok [OF assms(3)] by blast
  obtain wn s2 where wn: "fill env 12 s1 = Some (Ok wn, s2)" "length wn = 12" "rf_fs s2 = rf_fs s1" using fill_Ok [OF assms(3)] by blast
  obtain bn s3 where bn: "fill env 12 s2 = Some (Ok bn, s3)" "length bn = 12" "rf_fs s3 = rf_fs s2" using fill_Ok [OF assms(3)] by blast
  have s3: "rf_fs s3 = rf_fs s" using f(3) wn(3) bn(3) by simp
  have l: "length ?k = 32" "length fek < 2 ^ 32" "length ?pt < 2 ^ 32"
    using k(3) f(2) plain_length [OF assms(4)] by (simp_all add: f(2))
  obtain wr wt where w: "aes_gcm_encrypt ?pr (key32 ?k) wn ?aad fek (length fek) = Ok (wr, wt)" "length wr = length fek" "length wt = 16"
    "gcm_encrypt ?pr Aes256 ?k wn ?aad fek = Some (wr @ wt)" using gcm_seal [OF assms(2) l(2,1)] .
  obtain ct bt where c: "aes_gcm_encrypt ?pr (key32 fek) bn (body_aad h) ?pt (length ?pt) = Ok (ct, bt)" "length ct = length ?pt"
    "length bt = 16" "gcm_encrypt ?pr Aes256 fek bn (body_aad h) ?pt = Some (ct @ bt)" using gcm_seal [OF assms(2) l(3) f(2)] .
  let ?blob = "object_blob h wn bn wr wt (length ?pt) ct bt"
  have o: "is_object env h ?blob"
    unfolding is_object_def using f(2) wn(2) bn(2) w(2) [unfolded f(2)] w(3,4) c(2-4) by blast
  obtain s' where s': "write_or_create env (obj_path ?ta (oh_file_id h)) ?blob s3 = Some (Ok (), s')"
    "after s3 ((files (rf_fs s3))(obj_path ?ta (oh_file_id h) \<mapsto> ?blob)) s'"
    using write_or_create_Ok [OF assms(1) _ is_object_length [OF assms(4) o]] assms(5) ready_same(1) [OF s3] by blast
  have "write_object env h s = Some (Ok (), s')"
    using f(1) wn(1) bn(1) k(1) k(2) AesKey_32 [OF f(2)] AesKey_32 [OF l(1)] w(1) c(1) s'(1)
    by (simp add: write_object_def from_crypto_def f(2) Let_def body_aad_def)
  then show ?thesis using o s'(2) ready_same(2) [OF s3] s3 by auto
qed

lemma store_dir_full_Ok:
  assumes "re_fs env = fs" and "crypto_ok (re_prims env)" and "entropy_ok (re_entropy env)" and "wf_dir es rs" and "ready 1 s"
  shows "\<exists>s' blob. store_dir_full env ta es rs s = Some (Ok (), s') \<and> is_dir env ta es rs blob \<and>
    after s ((files (rf_fs s))(dir_path ta \<mapsto> blob)) s'"
proof -
  let ?pr = "re_prims env" and ?pt = "dir_plain es rs"
  let ?k = "ta_key env ta ''rustee.storage.dir.v1''" and ?m = "ta_key env ta ''rustee.storage.mac.v1''"
  obtain k where k: "tsk env ta = Ok k" "\<forall>info. derive env k info = Ok (ta_key env ta info)"
    "\<forall>info. length (ta_key env ta info) = 32" using ta_keys [OF assms(2), of ta] .
  obtain nonce s1 where f: "fill env 12 s = Some (Ok nonce, s1)" "length nonce = 12" "rf_fs s1 = rf_fs s" using fill_Ok [OF assms(3)] by blast
  have l: "length ?k = 32" "length ?pt < 2 ^ 32" using k(3) dir_plain_length [OF assms(4)] by simp_all
  obtain ct tag where c: "aes_gcm_encrypt ?pr (key32 ?k) nonce (dir_aad ta) ?pt (length ?pt) = Ok (ct, tag)" "length ct = length ?pt"
    "length tag = 16" "gcm_encrypt ?pr Aes256 ?k nonce (dir_aad ta) ?pt = Some (ct @ tag)" using gcm_seal [OF assms(2) l(2,1)] .
  obtain mac where m: "hmac_sha256_mac ?pr ?m (ct @ tag) = Some mac" "length mac = 32"
    using assms(2) unfolding crypto_ok_def by blast
  let ?blob = "nonce @ (ct @ tag) @ mac"
  have d: "is_dir env ta es rs ?blob" unfolding is_dir_def using f(2) c(2-4) m by blast
  obtain s' where s': "write_or_create env (dir_path ta) ?blob s1 = Some (Ok (), s')"
    "after s1 ((files (rf_fs s1))(dir_path ta \<mapsto> ?blob)) s'"
    using write_or_create_Ok [OF assms(1) _ is_dir_length [OF assms(4) d]] assms(5) ready_same(1) [OF f(3)] by blast
  have "store_dir_full env ta es rs s = Some (Ok (), s')"
    using f(1) k(1,2) AesKey_32 [OF l(1)] c(1) m(1) s'(1)
    by (simp add: store_dir_full_def from_crypto_def Let_def hmac_sha256_def)
  then show ?thesis using d s'(2) ready_same(2) [OF f(3)] f(3) by auto
qed

section \<open>Creating, saving, deleting\<close>

lemma store_dir_Ok:
  assumes "re_fs env = fs" and "crypto_ok (re_prims env)" and "entropy_ok (re_entropy env)" and "ready 2 s"
    and "dir_at env (files (rf_fs s)) ta = d" and "d \<noteq> Panic" and "rs = overlay (case d of Ok x \<Rightarrow> snd x | _ \<Rightarrow> []) 0 extra" and "wf_dir es rs"
  shows "\<exists>s' blob. store_dir env ta es extra s = Some (Ok (), s') \<and> is_dir env ta es rs blob \<and>
    used 2 s ((files (rf_fs s))(dir_path ta \<mapsto> blob)) s'"
proof -
  have "ready 1 s" using ready_mono [OF assms(4), of 1] by simp
  then obtain s1 where s1: "load_dir_full env ta s = Some (d, s1)" "after s (files (rf_fs s)) s1"
    using load_dir_full_eq [OF assms(1), of s ta] unfolding assms(5) by blast
  have r: "ready 1 s1" "files (rf_fs s1) = files (rf_fs s)"
    using ready_after(1) [OF _ s1(2), of 1] ready_after(2) [OF s1(2)] assms(4) by (simp_all add: numeral_2_eq_2)
  obtain s' blob where s': "store_dir_full env ta es rs s1 = Some (Ok (), s')" "is_dir env ta es rs blob"
    "after s1 ((files (rf_fs s1))(dir_path ta \<mapsto> blob)) s'" using store_dir_full_Ok [OF assms(1-3,8) r(1)] by blast
  have "store_dir env ta es extra s = store_dir_full env ta es rs s1"
    using s1(1) assms(6,7) by (cases d) (auto simp: store_dir_def stry_def)
  moreover have "used 2 s ((files (rf_fs s))(dir_path ta \<mapsto> blob)) s'"
    using used_trans [OF s1(2) s'(3)] r(2) by (simp add: numeral_2_eq_2)
  ultimately show ?thesis using s'(1,2) by auto
qed

text \<open>What a creation leaves: the object file, and the directory with the entry at its end but the file reference at
  the front.\<close>

lemma reefs_create_Ok:
  assumes "re_fs env = fs" and "crypto_ok (re_prims env)" and "entropy_ok (re_entropy env)" and "ready 6 s"
    and "length ta = 16" and "length oid \<le> 255" and "length data \<le> MAX_OBJECT"
    and "dir_at env (files (rf_fs s)) ta = d" and "d \<noteq> Panic" and "(es, rs) = (case d of Ok x \<Rightarrow> x | _ \<Rightarrow> ([], []))"
    and "position es oid = None" and "length es + 1 < 2 ^ 20" and "\<forall>e \<in> set es. length (om_object_id e) \<le> 255"
    and "\<forall>r \<in> set rs. length (fst r) = 16"
  shows "\<exists>s' h blob dblob. reefs_create env ta oid fl data s = Some (Ok h, s') \<and>
    (\<exists>e. oh_file_id h = fst (en_fill (re_entropy env) e 16)) \<and>
    oh_ta h = ta \<and> length (oh_file_id h) = 16 \<and> oh_object_id h = oid \<and> oh_flags h = fl \<and> oh_data h = data \<and> oh_obj_version h = 1 \<and>
    is_object env h blob \<and> is_dir env ta (es @ [new_meta h]) (overlay rs 0 [(oh_file_id h, 1)]) dblob \<and>
    wf_dir (es @ [new_meta h]) (overlay rs 0 [(oh_file_id h, 1)]) \<and>
    used 6 s ((files (rf_fs s))(obj_path ta (oh_file_id h) \<mapsto> blob, dir_path ta \<mapsto> dblob)) s'"
proof -
  let ?F = "files (rf_fs s)"
  have "ready 1 s" using ready_mono [OF assms(4), of 1] by simp
  then obtain s1 where s1: "on_fs (fr_mkdir fs (ta_hex ta)) s = Some (Ok (), s1)" "after s ?F s1"
    using on_fs_mkdir [of s "ta_hex ta"] by blast
  have r1: "ready 5 s1" "ready 1 s1" "files (rf_fs s1) = ?F"
    using s1(2) assms(4) unfolding ready_def after_def by linarith+
  obtain s2 where s2: "on_fs (fr_mkdir fs (ta_hex ta @ ascii ''/obj'')) s1 = Some (Ok (), s2)" "after s1 ?F s2"
    using on_fs_mkdir [OF r1(2), of "ta_hex ta @ ascii ''/obj''"] unfolding r1(3) by blast
  have r2: "ready 4 s2" "ready 1 s2" "files (rf_fs s2) = ?F" using s2(2) r1(1) by (auto simp: ready_def after_def)
  obtain s3 where s3: "load_dir env ta s2 = Some (res_bind d (\<lambda>(es, _). Ok es), s3)" "after s2 ?F s3"
    using load_dir_eq [OF assms(1) r2(2), of ta] unfolding r2(3) assms(8) by blast
  have r3: "ready 3 s3" "files (rf_fs s3) = ?F" using s3(2) r2(1) by (auto simp: ready_def after_def)
  obtain fid s4 where f: "fill env 16 s3 = Some (Ok fid, s4)" "length fid = 16" "rf_fs s4 = rf_fs s3" "fid = fst (en_fill (re_entropy env) (rf_entropy s3) 16)"
    using fill_Ok [OF assms(3)] .
  have r4: "ready 3 s4" "files (rf_fs s4) = ?F" using r3 ready_same(1) [OF f(3)] f(3) by simp_all
  define h where "h = \<lparr>oh_ta = ta, oh_file_id = fid, oh_object_id = oid, oh_flags = fl, oh_data = data, oh_obj_version = 1\<rparr>"
  have h: "wf_handle h" using f(2) assms(5-7) by (simp add: h_def wf_handle_def)
  obtain s5 blob where s5: "write_object env h s4 = Some (Ok (), s5)" "is_object env h blob"
    "after s4 (?F(obj_path ta fid \<mapsto> blob)) s5"
    using write_object_Ok [OF assms(1-3) h ready_mono [OF r4(1), of 1]] unfolding r4(2) by (auto simp: h_def)
  have r5: "ready 2 s5" "files (rf_fs s5) = ?F(obj_path ta fid \<mapsto> blob)"
    using s5(3) r4(1) by (auto simp: ready_def after_def)
  have dir: "dir_at env (files (rf_fs s5)) ta = d" using assms(8) f(2) by (simp add: dir_at_def r5(2))
  have rs: "rs = (case d of Ok x \<Rightarrow> snd x | _ \<Rightarrow> [])" "es = (case d of Ok x \<Rightarrow> fst x | _ \<Rightarrow> [])"
    using assms(10) by (cases d; auto)+
  have "set (overlay rs 0 [(fid, 1)]) \<subseteq> insert (fid, 1) (set rs)" using set_update_subset_insert [of rs 0 "(fid, 1)"] by auto
  then have w: "wf_dir (es @ [new_meta h]) (overlay rs 0 [(fid, 1)])"
    using assms(6,12-14) f(2) by (auto simp: wf_dir_def new_meta_def h_def)
  obtain s6 dblob where s6: "store_dir env ta (es @ [new_meta h]) [(fid, 1)] s5 = Some (Ok (), s6)"
    "is_dir env ta (es @ [new_meta h]) (overlay rs 0 [(fid, 1)]) dblob" "used 2 s5 ((files (rf_fs s5))(dir_path ta \<mapsto> dblob)) s6"
    using store_dir_Ok [OF assms(1-3) r5(1) dir assms(9) _ w] rs(1) by blast
  have "reefs_create env ta oid fl data s = Some (Ok h, s6)"
    using assms(1,7,9,11) s1(1) s2(1) s3(1) f(1) s5(1) s6(1) rs
    by (cases d) (auto simp: reefs_create_def h_def new_meta_def position_None Let_def)
  moreover have "used 6 s (?F(obj_path ta fid \<mapsto> blob, dir_path ta \<mapsto> dblob)) s6"
    using s1(2) s2(2) s3(2) f(3) s5(3) s6(3) r5(2) by (simp add: used_def)
  moreover have "oh_ta h = ta" "oh_file_id h = fid" "oh_object_id h = oid" "oh_flags h = fl" "oh_data h = data" "oh_obj_version h = 1"
    by (simp_all add: h_def)
  ultimately have "reefs_create env ta oid fl data s = Some (Ok h, s6) \<and>
    (\<exists>e. oh_file_id h = fst (en_fill (re_entropy env) e 16)) \<and>
    oh_ta h = ta \<and> length (oh_file_id h) = 16 \<and> oh_object_id h = oid \<and> oh_flags h = fl \<and> oh_data h = data \<and> oh_obj_version h = 1 \<and>
    is_object env h blob \<and> is_dir env ta (es @ [new_meta h]) (overlay rs 0 [(oh_file_id h, 1)]) dblob \<and>
    wf_dir (es @ [new_meta h]) (overlay rs 0 [(oh_file_id h, 1)]) \<and>
    used 6 s (?F(obj_path ta (oh_file_id h) \<mapsto> blob, dir_path ta \<mapsto> dblob)) s6"
    using s5(2) s6(2) w f(2,4) by auto
  then show ?thesis by blast
qed

text \<open>Saving a handle replaces its object file and its line in the directory.\<close>

lemma save_handle_Ok:
  assumes "re_fs env = fs" and "crypto_ok (re_prims env)" and "entropy_ok (re_entropy env)" and "ready 3 s" and "wf_handle h"
    and "dir_at env (files (rf_fs s)) (oh_ta h) = Ok (es, rs)" and "position es (oh_object_id h) = Some i" and "length es < 2 ^ 20"
  shows "\<exists>s' blob dblob. save_handle env h x s = Some ((Ok x, h), s') \<and> is_object env h blob \<and>
    is_dir env (oh_ta h) (es[i := new_meta h]) (rs[i := (oh_file_id h, oh_obj_version h)]) dblob \<and>
    wf_dir (es[i := new_meta h]) (rs[i := (oh_file_id h, oh_obj_version h)]) \<and>
    used 3 s ((files (rf_fs s))(obj_path (oh_ta h) (oh_file_id h) \<mapsto> blob, dir_path (oh_ta h) \<mapsto> dblob)) s'"
proof -
  let ?F = "files (rf_fs s)" and ?ta = "oh_ta h" and ?fid = "oh_file_id h"
  let ?es = "es[i := new_meta h]" and ?rs = "rs[i := (oh_file_id h, oh_obj_version h)]"
  have "ready 1 s" using ready_mono [OF assms(4), of 1] by simp
  then obtain s1 blob where s1: "write_object env h s = Some (Ok (), s1)" "is_object env h blob"
    "after s (?F(obj_path ?ta ?fid \<mapsto> blob)) s1" using write_object_Ok [OF assms(1-3,5)] by blast
  have r1: "ready 2 s1" "ready 1 s1" "files (rf_fs s1) = ?F(obj_path ?ta ?fid \<mapsto> blob)"
    using ready_used(1) [OF assms(4) s1(3)] ready_used(2) [OF s1(3)] by simp_all
  have "dir_at env (files (rf_fs s1)) ?ta = Ok (es, rs)" using assms(5,6) by (simp add: dir_at_def r1(3) wf_handle_def)
  then obtain s2 where s2: "load_dir_full env ?ta s1 = Some (Ok (es, rs), s2)" "after s1 (files (rf_fs s1)) s2"
    using load_dir_full_eq [OF assms(1) r1(2), of ?ta] by auto
  have r2: "ready 1 s2" "files (rf_fs s2) = files (rf_fs s1)" using ready_used(1) [OF r1(1) s2(2)] ready_used(2) [OF s2(2)] by simp_all
  note d = dir_at_Ok [OF assms(6)]
  have i: "i < length es" using assms(7) by (simp add: position_iff)
  have "set ?es \<subseteq> insert (new_meta h) (set es)" "set ?rs \<subseteq> insert (?fid, oh_obj_version h) (set rs)"
    by (rule set_update_subset_insert)+
  then have w: "wf_dir ?es ?rs" using d(2,3) assms(5,8) by (auto simp: wf_dir_def wf_handle_def new_meta_def)
  obtain s3 dblob where s3: "store_dir_full env ?ta ?es ?rs s2 = Some (Ok (), s3)" "is_dir env ?ta ?es ?rs dblob"
    "after s2 ((files (rf_fs s2))(dir_path ?ta \<mapsto> dblob)) s3" using store_dir_full_Ok [OF assms(1-3) w r2(1)] by blast
  have "upsert_dir env h s1 = Some (Ok (), s3)"
    using s2(1) s3(1) assms(7) i d(1) by (simp add: upsert_dir_def new_meta_def Let_def)
  then have "save_handle env h x s = Some ((Ok x, h), s3)" using s1(1) by (simp add: save_handle_def)
  moreover have "used 3 s (?F(obj_path ?ta ?fid \<mapsto> blob, dir_path ?ta \<mapsto> dblob)) s3"
    using s1(3) s2(2) s3(3) r1(3) r2(2) by (simp add: used_def)
  ultimately show ?thesis using s1(2) s3(2) w by blast
qed

lemma reefs_delete_Ok:
  assumes "re_fs env = fs" and "crypto_ok (re_prims env)" and "entropy_ok (re_entropy env)" and "ready 3 s"
    and "dir_at env (files (rf_fs s)) ta = Ok (es, rs)" and "position es oid = Some i" and "length es < 2 ^ 20"
  shows "\<exists>s' dblob. reefs_delete env ta oid s = Some (Ok (), s') \<and> is_dir env ta (remove_at es i) (remove_at rs i) dblob \<and>
    wf_dir (remove_at es i) (remove_at rs i) \<and>
    used 3 s ((files (rf_fs s))(obj_path ta (fst (rs ! i)) := None, dir_path ta \<mapsto> dblob)) s'"
proof -
  let ?F = "files (rf_fs s)" and ?es = "remove_at es i" and ?rs = "remove_at rs i"
  obtain fid ver where f: "rs ! i = (fid, ver)" by fastforce
  note d = dir_at_Ok [OF assms(5)]
  have i: "i < length rs" using assms(6) d(1) by (simp add: position_iff)
  have "ready 1 s" using ready_mono [OF assms(4), of 1] by simp
  then obtain s1 where s1: "load_dir_full env ta s = Some (Ok (es, rs), s1)" "after s ?F s1"
    using load_dir_full_eq [OF assms(1), of s ta] assms(5) by auto
  have r1: "ready 2 s1" "ready 1 s1" "files (rf_fs s1) = ?F" using ready_used(1) [OF assms(4) s1(2)] ready_used(2) [OF s1(2)] by simp_all
  obtain s2 where s2: "on_fs (fr_delete fs (obj_path ta fid)) s1 = Some (Ok (), s2)" "after s1 (?F(obj_path ta fid := None)) s2"
    using on_fs_delete [OF r1(2), of "obj_path ta fid"] unfolding r1(3) by blast
  have r2: "ready 1 s2" "files (rf_fs s2) = ?F(obj_path ta fid := None)" using ready_used(1) [OF r1(1) s2(2)] ready_used(2) [OF s2(2)] by simp_all
  have "set ?es \<subseteq> set es" "set ?rs \<subseteq> set rs" "length ?es \<le> length es"
    by (auto simp: remove_at_def dest: in_set_takeD in_set_dropD)
  then have w: "wf_dir ?es ?rs" using d(2,3) assms(7) by (auto simp: wf_dir_def)
  obtain s3 dblob where s3: "store_dir_full env ta ?es ?rs s2 = Some (Ok (), s3)" "is_dir env ta ?es ?rs dblob"
    "after s2 ((files (rf_fs s2))(dir_path ta \<mapsto> dblob)) s3" using store_dir_full_Ok [OF assms(1-3) w r2(1)] by blast
  have "reefs_delete env ta oid s = Some (Ok (), s3)"
    using s1(1) s2(1) s3(1) assms(1,6) i f by (simp add: reefs_delete_def index_def)
  moreover have "used 3 s (?F(obj_path ta (fst (rs ! i)) := None, dir_path ta \<mapsto> dblob)) s3"
    using s1(2) s2(2) s3(3) r2(2) f by (simp add: used_def)
  ultimately show ?thesis using s3(2) w by blast
qed

text \<open>Renaming writes the object under its old file identifier, and the deletion that follows removes that file.\<close>

lemma reefs_rename_Ok:
  assumes "re_fs env = fs" and "crypto_ok (re_prims env)" and "entropy_ok (re_entropy env)" and "ready 9 s"
    and "dir_at env (files (rf_fs s)) ta = Ok (es, rs)" and "position es old = Some i" and "length es < 2 ^ 20"
    and "obj_at env (files (rf_fs s)) ta old = Ok h" and "length ta = 16" and "length new \<le> 255" and "length (oh_data h) \<le> MAX_OBJECT"
  shows "\<exists>s' dblob rs' e. reefs_rename env ta old new s = Some (Ok (), s') \<and> om_object_id e = new \<and>
    rs' = overlay (remove_at rs i) 0 [(oh_file_id h, oh_obj_version h + 1)] \<and>
    is_dir env ta (remove_at es i @ [e]) rs' dblob \<and> wf_dir (remove_at es i @ [e]) rs' \<and>
    used 9 s ((files (rf_fs s))(obj_path ta (oh_file_id h) := None, dir_path ta \<mapsto> dblob)) s'"
proof -
  let ?F = "files (rf_fs s)" and ?es = "remove_at es i" and ?rs = "remove_at rs i" and ?fid = "oh_file_id h"
  obtain es0 rs0 i0 where o: "dir_at env ?F ta = Ok (es0, rs0)" "position es0 old = Some i0" "i0 < length rs0"
    "rs0 ! i0 = (?fid, oh_obj_version h)" "oh_ta h = ta" "length ?fid = 16" by (rule obj_at_Ok [OF assms(2,8)])
  then have "es0 = es" "rs0 = rs" "i0 = i" using assms(5,6) by auto
  then have b: "rs ! i = (?fid, oh_obj_version h)" "oh_ta h = ta" "length ?fid = 16" "i < length rs" using o(3-6) by simp_all
  define h' where "h' = h\<lparr>oh_object_id := new, oh_obj_version := oh_obj_version h + 1\<rparr>"
  have h': "wf_handle h'" "oh_ta h' = ta" "oh_file_id h' = ?fid" using b assms(9-11) by (simp_all add: h'_def wf_handle_def)
  have "ready 2 s" using ready_mono [OF assms(4), of 2] by simp
  then obtain s1 where s1: "reefs_open env ta old s = Some (Ok h, s1)" "used 2 s ?F s1"
    using reefs_open_eq [OF assms(1), of s ta old] assms(8) by auto
  have r1: "ready 7 s1" "ready 1 s1" "files (rf_fs s1) = ?F" using ready_used(1) [OF assms(4) s1(2)] ready_used(2) [OF s1(2)] by simp_all
  obtain s2 blob where s2: "write_object env h' s1 = Some (Ok (), s2)" "after s1 (?F(obj_path ta ?fid \<mapsto> blob)) s2"
    using write_object_Ok [OF assms(1-3) h'(1) r1(2)] unfolding r1(3) h'(2,3) by blast
  have r2: "ready 6 s2" "ready 3 s2" "files (rf_fs s2) = ?F(obj_path ta ?fid \<mapsto> blob)"
    using ready_used(1) [OF r1(1) s2(2)] ready_used(2) [OF s2(2)] by simp_all
  have d2: "dir_at env (files (rf_fs s2)) ta = Ok (es, rs)" using assms(5) b(3) by (simp add: dir_at_def r2(3))
  obtain s3 dblob where s3: "reefs_delete env ta old s2 = Some (Ok (), s3)" "is_dir env ta ?es ?rs dblob" "wf_dir ?es ?rs"
    "used 3 s2 ((files (rf_fs s2))(obj_path ta ?fid := None, dir_path ta \<mapsto> dblob)) s3"
    using reefs_delete_Ok [OF assms(1-3) r2(2) d2 assms(6,7)] b(1) by auto
  have r3: "ready 3 s3" "ready 1 s3" "files (rf_fs s3) = ?F(obj_path ta ?fid := None, dir_path ta \<mapsto> dblob)"
    using ready_used(1) [OF r2(1) s3(4)] ready_used(2) [OF s3(4)] r2(3) by simp_all
  have d3: "dir_at env (files (rf_fs s3)) ta = Ok (?es, ?rs)"
    using dir_at_is_dir [OF assms(2) s3(3,2), of "files (rf_fs s3)"] refs_same [of ?rs ?es] dir_at_Ok(1) [OF assms(5)]
    by (simp add: r3(3) remove_at_def)
  obtain s4 where s4: "load_dir env ta s3 = Some (Ok ?es, s4)" "after s3 (files (rf_fs s3)) s4"
    using load_dir_eq [OF assms(1) r3(2), of ta] d3 by auto
  have r4: "ready 2 s4" "files (rf_fs s4) = files (rf_fs s3)" using ready_used(1) [OF r3(1) s4(2)] ready_used(2) [OF s4(2)] by simp_all
  let ?rs' = "overlay ?rs 0 [(?fid, oh_obj_version h')]"
  have "set ?rs' \<subseteq> insert (?fid, oh_obj_version h') (set ?rs)" using set_update_subset_insert [of ?rs 0 "(?fid, oh_obj_version h')"] by auto
  moreover have "length ?es < length es" using assms(6) by (auto simp: remove_at_def position_iff)
  ultimately have w: "wf_dir (?es @ [new_meta h']) ?rs'"
    using s3(3) assms(7,10) b(3) by (auto simp: wf_dir_def new_meta_def h'_def)
  have d4: "dir_at env (files (rf_fs s4)) ta = Ok (?es, ?rs)" using d3 r4(2) by simp
  have x: "?rs' = overlay (case Ok (?es, ?rs) of Ok x \<Rightarrow> snd x | _ \<Rightarrow> []) 0 [(?fid, oh_obj_version h')]"
    by (simp only: res.case snd_conv)
  obtain s5 dblob' where s5: "store_dir env ta (?es @ [new_meta h']) [(?fid, oh_obj_version h')] s4 = Some (Ok (), s5)"
    "is_dir env ta (?es @ [new_meta h']) ?rs' dblob'" "used 2 s4 ((files (rf_fs s4))(dir_path ta \<mapsto> dblob')) s5"
    using store_dir_Ok [OF assms(1-3) r4(1) d4 _ x w] by blast
  have "reefs_rename env ta old new s = Some (Ok (), s5)"
    using s1(1) s2(1) s3(1) s4(1) s5(1) h'(3) by (simp add: reefs_rename_def h'_def new_meta_def Let_def)
  moreover have "used 9 s (?F(obj_path ta ?fid := None, dir_path ta \<mapsto> dblob')) s5"
    using s1(2) s2(2) s3(4) s4(2) s5(3) r3(3) r4(2) by (simp add: used_def)
  moreover have "oh_obj_version h' = oh_obj_version h + 1" "om_object_id (new_meta h') = new" by (simp_all add: h'_def new_meta_def)
  ultimately show ?thesis using s5(2) w by metis
qed

end

end
