(* ===== verification/Storage_Props.thy ===== *)
theory Storage_Props
  imports Storage_Ops
begin

text \<open>What the object store promises a trusted application, over the two backends: objects come back as they were
  written, only sealed objects are accepted, and the cases in which objects are lost.\<close>

section \<open>Objects after an operation\<close>

lemma obj_at_index:
  assumes "dir_at env F ta = Ok (es, rs)" and "position es oid = Some i" and "i < length rs" and "rs ! i = (fid, ver)"
  shows "obj_at env F ta oid = (case F (obj_path ta fid) of None \<Rightarrow> Err Storage_Corrupt
    | Some b \<Rightarrow> decrypt_object env ta fid oid (om_flags (es ! i)) ver b)"
  using assms by (simp add: obj_at_def index_def)

lemma obj_at_None: "dir_at env F ta = Ok (es, rs) \<Longrightarrow> position es oid = None \<Longrightarrow> obj_at env F ta oid = Err Storage_NotFound"
  by (simp add: obj_at_def)

lemma position_cong: "map om_object_id es = map om_object_id es' \<Longrightarrow> position es oid = position es' oid"
proof -
  assume m: "map om_object_id es = map om_object_id es'"
  have "position es oid = (let i = length (takeWhile (\<lambda>x. x \<noteq> oid) (map om_object_id es)) in
      if i < length (map om_object_id es) then Some i else None)" for es
    by (simp add: position_def takeWhile_map comp_def)
  from this [of es] this [of es'] show ?thesis unfolding m by simp
qed

lemma position_snoc:
  "position es oid = None \<Longrightarrow> om_object_id e = oid \<Longrightarrow> position (es @ [e]) oid = Some (length es)"
  "position es oid = Some i \<Longrightarrow> position (es @ [e]) oid = Some i"
  by (auto simp: position_None position_iff nth_append)

text \<open>Saving an object changes no other object, as long as no two lines of the directory share a file.\<close>

lemma saved_objects:
  assumes "crypto_ok (re_prims env)" and "dir_at env F ta = Ok (es, rs)" and "position es oid = Some i" and "distinct (map fst rs)"
    and "wf_handle h" and "oh_ta h = ta" and "oh_object_id h = oid" and "oh_file_id h = fst (rs ! i)" and "is_object env h blob"
    and "is_dir env ta (es[i := new_meta h]) (rs[i := (oh_file_id h, oh_obj_version h)]) dblob"
    and "wf_dir (es[i := new_meta h]) (rs[i := (oh_file_id h, oh_obj_version h)])"
    and "G = F(obj_path ta (oh_file_id h) \<mapsto> blob, dir_path ta \<mapsto> dblob)"
  shows "obj_at env G ta oid = Ok h" and "oid' \<noteq> oid \<Longrightarrow> obj_at env G ta oid' = obj_at env F ta oid'"
proof -
  let ?es = "es[i := new_meta h]" and ?rs = "rs[i := (oh_file_id h, oh_obj_version h)]"
  note d = dir_at_Ok [OF assms(2)]
  have i: "i < length es" "om_object_id (es ! i) = oid" using assms(3) by (simp_all add: position_iff)
  have G: "dir_at env G ta = Ok (?es, ?rs)"
    using dir_at_is_dir [OF assms(1,11,10), of G] refs_same [of ?rs ?es] d(1) by (simp add: assms(12))
  have p: "position ?es o' = position es o'" for o'
    using i assms(7) by (intro position_cong) (simp add: map_update new_meta_def list_update_id [of "map om_object_id es" i, simplified] list_update_same_conv)
  have f: "length (oh_file_id h) = 16" using assms(5) by (simp add: wf_handle_def)
  have "obj_at env G ta oid = decrypt_object env ta (oh_file_id h) oid (om_flags (?es ! i)) (oh_obj_version h) blob"
    using obj_at_index [OF G, of oid i "oh_file_id h" "oh_obj_version h"] p assms(3) i d(1) f by (simp add: assms(12))
  also have "\<dots> = Ok h" using decrypt_is_object [OF assms(1,5,9), of oid "oh_flags h"] assms(6,7) i(1) by (simp add: new_meta_def)
  finally show "obj_at env G ta oid = Ok h" .
  show "obj_at env G ta oid' = obj_at env F ta oid'" if o: "oid' \<noteq> oid"
  proof (cases "position es oid'")
    case None
    then show ?thesis using obj_at_None [OF G] obj_at_None [OF assms(2)] p by simp
  next
    case (Some j)
    have j: "j < length rs" "j \<noteq> i" using Some d(1) i(2) o by (auto simp: position_iff)
    obtain fid ver where r: "rs ! j = (fid, ver)" by fastforce
    have "fst (rs ! j) \<noteq> fst (rs ! i)" using assms(4) j i(1) d(1) by (simp add: distinct_conv_nth)
    then have fid: "fid \<noteq> oh_file_id h" "length fid = 16" using r assms(8) d(3) nth_mem [OF j(1)] by auto
    show ?thesis
      using obj_at_index [OF G, of oid' j fid ver] obj_at_index [OF assms(2) Some j(1) r] p Some j j(2) [symmetric] r fid f
      by (simp add: assms(12) cong: option.case_cong)
  qed
qed

lemma nth_remove_at: "i < length xs \<Longrightarrow> k < length xs - 1 \<Longrightarrow> remove_at xs i ! k = (if k < i then xs ! k else xs ! Suc k)"
  by (auto simp: remove_at_def nth_append)

lemma length_remove_at [simp]: "i < length xs \<Longrightarrow> length (remove_at xs i) = length xs - 1"
  by (simp add: remove_at_def)

lemma set_remove_at: "set (remove_at xs i) \<subseteq> set xs"
  by (auto simp: remove_at_def dest: in_set_takeD in_set_dropD)

lemma position_remove:
  assumes "position es oid = Some j" and "i < length es" and "j \<noteq> i"
  shows "position (remove_at es i) oid = Some (if j < i then j else j - 1)"
proof -
  have j: "j < length es" "om_object_id (es ! j) = oid" "\<forall>k < j. om_object_id (es ! k) \<noteq> oid" using assms(1) by (simp_all add: position_iff)
  show ?thesis
  proof (cases "j < i")
    case True
    then show ?thesis using j assms(2) by (auto simp: position_iff nth_remove_at)
  next
    case False
    then have "i < j" using assms(3) by simp
    then show ?thesis using j assms(2) by (auto simp: position_iff nth_remove_at)
  qed
qed

lemma position_removed:
  assumes "distinct (map om_object_id es)" and "i < length es" and "om_object_id (es ! i) = oid"
  shows "position (remove_at es i) oid = None"
proof -
  have "es = take i es @ es ! i # drop (Suc i) es" using assms(2) by (simp add: id_take_nth_drop)
  then have "distinct (map om_object_id (take i es @ es ! i # drop (Suc i) es))" using assms(1) by simp
  then show ?thesis using assms(3) by (auto simp: position_None remove_at_def) (metis imageI)+
qed

lemma deleted_objects:
  assumes "crypto_ok (re_prims env)" and "dir_at env F ta = Ok (es, rs)" and "position es oid = Some i" and "distinct (map fst rs)"
    and "distinct (map om_object_id es)" and "is_dir env ta (remove_at es i) (remove_at rs i) dblob" and "wf_dir (remove_at es i) (remove_at rs i)"
    and "G = F(obj_path ta (fst (rs ! i)) := None, dir_path ta \<mapsto> dblob)"
  shows "obj_at env G ta oid = Err Storage_NotFound" and "oid' \<noteq> oid \<Longrightarrow> obj_at env G ta oid' = obj_at env F ta oid'"
proof -
  let ?es = "remove_at es i" and ?rs = "remove_at rs i"
  note d = dir_at_Ok [OF assms(2)]
  have i: "i < length es" "om_object_id (es ! i) = oid" using assms(3) by (simp_all add: position_iff)
  have G: "dir_at env G ta = Ok (?es, ?rs)"
    using dir_at_is_dir [OF assms(1,7,6), of G] refs_same [of ?rs ?es] d(1) i(1) by (simp add: assms(8))
  show "obj_at env G ta oid = Err Storage_NotFound" by (rule obj_at_None [OF G position_removed [OF assms(5) i]])
  show "obj_at env G ta oid' = obj_at env F ta oid'" if o: "oid' \<noteq> oid"
  proof (cases "position es oid'")
    case None
    then have "position ?es oid' = None" using set_remove_at [of es i] by (auto simp: position_None)
    then show ?thesis using obj_at_None [OF G] obj_at_None [OF assms(2) None] by simp
  next
    case (Some j)
    have j: "j < length rs" "j \<noteq> i" "j < length es" using Some d(1) i(2) o by (auto simp: position_iff)
    let ?k = "if j < i then j else j - 1"
    obtain fid ver where r: "rs ! j = (fid, ver)" by fastforce
    have "fst (rs ! j) \<noteq> fst (rs ! i)" using assms(4) j i(1) d(1) by (simp add: distinct_conv_nth)
    then have fid: "fid \<noteq> fst (rs ! i)" "length fid = 16" using r d(3) nth_mem [OF j(1)] by auto
    have k: "?k < length ?rs" "?rs ! ?k = rs ! j" "?es ! ?k = es ! j" using j i(1) d(1) by (auto simp: nth_remove_at)
    show ?thesis
      using obj_at_index [OF G position_remove [OF Some i(1) j(2)] k(1), of fid ver] obj_at_index [OF assms(2) Some j(1) r] k(2) r fid
      unfolding k(3) by (simp add: assms(8))
  qed
qed

text \<open>The first object of an application.\<close>

lemma created_object:
  assumes "crypto_ok (re_prims env)" and "wf_handle h" and "oh_ta h = ta" and "is_object env h blob"
    and "is_dir env ta [new_meta h] [(oh_file_id h, oh_obj_version h)] dblob" and "wf_dir [new_meta h] [(oh_file_id h, oh_obj_version h)]"
    and "G = F(obj_path ta (oh_file_id h) \<mapsto> blob, dir_path ta \<mapsto> dblob)"
  shows "dir_at env G ta = Ok ([new_meta h], [(oh_file_id h, oh_obj_version h)])" and "obj_at env G ta (oh_object_id h) = Ok h"
proof -
  show d: "dir_at env G ta = Ok ([new_meta h], [(oh_file_id h, oh_obj_version h)])"
    using dir_at_is_dir [OF assms(1,6,5), of G] refs_same [of "[(oh_file_id h, oh_obj_version h)]" "[new_meta h]"] by (simp add: assms(7))
  show "obj_at env G ta (oh_object_id h) = Ok h"
    using obj_at_index [OF d, of "oh_object_id h" 0 "oh_file_id h" "oh_obj_version h"] assms(2,3)
      decrypt_is_object [OF assms(1,2,4), of "oh_object_id h" "oh_flags h"]
    by (simp add: position_def new_meta_def assms(7) wf_handle_def)
qed

section \<open>The memory backend\<close>

lemma mem_open:
  assumes "re_fs env = MemFs"
  shows "\<exists>s'. reefs_open env ta oid s = Some (obj_at env (rf_fs s) ta oid, s') \<and> rf_fs s' = rf_fs s"
  using mem.reefs_open_eq [OF assms, of 9 s ta oid] by (auto simp: mem.ready_def mem.used_def)

lemma mem_list:
  assumes "re_fs env = MemFs" and "reefs_list env ta s = Some (Ok es, s')"
  obtains rs where "dir_at env (rf_fs s) ta = Ok (es, rs)"
  using mem.load_dir_eq [OF assms(1), of 9 s ta] assms(2) that unfolding reefs_list_def
  by (cases "dir_at env (rf_fs s) ta") (auto simp: mem.ready_def)

lemma mem_save:
  assumes "re_fs env = MemFs" and "crypto_ok (re_prims env)" and "entropy_ok (re_entropy env)"
    and "dir_at env (rf_fs s) ta = Ok (es, rs)" and "length es < 2 ^ 20" and "distinct (map fst rs)" and "position es oid = Some i"
    and "wf_handle h" and "oh_ta h = ta" and "oh_object_id h = oid" and "oh_file_id h = fst (rs ! i)"
  shows "\<exists>s'. save_handle env h x s = Some ((Ok x, h), s') \<and> obj_at env (rf_fs s') ta oid = Ok h \<and>
    (\<forall>oid'. oid' \<noteq> oid \<longrightarrow> obj_at env (rf_fs s') ta oid' = obj_at env (rf_fs s) ta oid')"
proof -
  obtain s' blob dblob where s: "save_handle env h x s = Some ((Ok x, h), s')" "is_object env h blob"
    "is_dir env ta (es[i := new_meta h]) (rs[i := (oh_file_id h, oh_obj_version h)]) dblob"
    "wf_dir (es[i := new_meta h]) (rs[i := (oh_file_id h, oh_obj_version h)])"
    "rf_fs s' = (rf_fs s)(obj_path ta (oh_file_id h) \<mapsto> blob, dir_path ta \<mapsto> dblob)"
    using mem.save_handle_Ok [OF assms(1-3), of 9 s h es rs i x] assms(4,5,7-10) by (auto simp: mem.ready_def mem.used_def)
  show ?thesis using s(1) saved_objects [OF assms(2,4,7,6,8-11) s(2-5)] by blast
qed

section \<open>An example store\<close>

definition demo_entropy :: "nat entropy_ops" where
  "demo_entropy = \<lparr>en_fill = (\<lambda>e n. (replicate n 1, Suc e)), en_origin = (\<lambda>_. Isolated)\<rparr>"

definition demo_store :: "'f fs_rpc \<Rightarrow> (nat, 'f) ree_env" where
  "demo_store fs = \<lparr>re_entropy = demo_entropy, re_huk = replicate 32 5, re_fs = fs, re_prims = demo_prims\<rparr>"

lemma demo_store [simp]: "crypto_ok (re_prims (demo_store fs))" "entropy_ok (re_entropy (demo_store fs))" "re_fs (demo_store fs) = fs"
  using demo_gcm_laws by (simp_all add: demo_store_def crypto_ok_def entropy_ok_def demo_entropy_def demo_prims_def)

lemma demo_fill [simp]: "fst (en_fill (re_entropy (demo_store fs)) e n) = replicate n 1"
  by (simp add: demo_store_def demo_entropy_def)

text \<open>The store of the application \<open>3, \<dots>, 3\<close> with one object \<open>7\<close>.\<close>

definition demo_holds :: "(nat, mem_fs) ree_fs \<Rightarrow> object_handle \<Rightarrow> bool" where
  "demo_holds s h \<longleftrightarrow> dir_at (demo_store MemFs) (rf_fs s) (replicate 16 3) = Ok ([new_meta h], [(replicate 16 1, 1)]) \<and>
     obj_at (demo_store MemFs) (rf_fs s) (replicate 16 3) [7] = Ok h \<and> oh_object_id h = [7] \<and> oh_data h = [1, 2] \<and>
     rf_fs s (obj_path (replicate 16 3) (replicate 16 0)) = None"

lemma demo_created: "\<exists>s h. demo_holds s h"
proof -
  let ?env = "demo_store MemFs" and ?ta = "replicate 16 (3 :: u8)" and ?s = "\<lparr>rf_entropy = 1 :: nat, rf_fs = MemFs_new\<rparr>"
  have d: "dir_at ?env (rf_fs ?s) ?ta = Err Storage_NotFound" by (simp add: dir_at_def MemFs_new_def)
  have r: "mem.ready 9 6 ?s" by (simp add: mem.ready_def)
  have H: "demo_holds s h" if c: "oh_file_id h = replicate 16 1" "oh_ta h = ?ta" "oh_object_id h = [7]" "oh_data h = [1, 2]" "oh_obj_version h = 1"
    "is_object ?env h blob" "is_dir ?env ?ta [new_meta h] [(oh_file_id h, 1)] dblob" "wf_dir [new_meta h] [(oh_file_id h, 1)]"
    "rf_fs s = MemFs_new(obj_path ?ta (oh_file_id h) \<mapsto> blob, dir_path ?ta \<mapsto> dblob)" for s h blob dblob
  proof -
    have w: "wf_handle h" using c(1-4) by (simp add: wf_handle_def MAX_OBJECT_def)
    note o = created_object [OF demo_store(1) w c(2,6) _ _ c(9), unfolded c(5), OF c(7,8), unfolded c(3)]
    show ?thesis using o c(1,3,4,9) by (simp add: demo_holds_def MemFs_new_def) 
  qed
  show ?thesis
    using mem.reefs_create_Ok [OF demo_store(3,1,2) r _ _ _ d, of "[7]" "[1, 2]" "[]" "[]" 0]
    by (simp add: mem.used_def position_def MAX_OBJECT_def) (metis H)
qed

lemma demo_open:
  assumes "demo_holds s h"
  shows "\<exists>s'. reefs_open (demo_store MemFs) (replicate 16 3) [7] s = Some (Ok h, s')"
  using mem_open [of "demo_store MemFs" "replicate 16 3" "[7]" s] assms by (auto simp: demo_holds_def)

lemma demo_list:
  assumes "demo_holds s h"
  shows "\<exists>s'. reefs_list (demo_store MemFs) (replicate 16 3) s = Some (Ok [new_meta h], s')"
  using mem.load_dir_eq [of "demo_store MemFs" 9 s "replicate 16 3"] assms by (auto simp: demo_holds_def mem.ready_def reefs_list_def)


section \<open>Properties\<close>



text \<open>The contents after writing \<open>buf\<close> at \<open>off\<close>, byte by byte: a gap is filled with zeros.\<close>

definition overwritten :: "bytes \<Rightarrow> nat \<Rightarrow> bytes \<Rightarrow> bytes" where
  "overwritten d off buf = map (\<lambda>k. if off \<le> k \<and> k < off + length buf then buf ! (k - off) else if k < length d then d ! k else 0)
     [0..<max (length d) (off + length buf)]"

lemma overwritten_eq:
  "(let e = off + length buf; d' = (if e > length d then resize d e else d) in take off d' @ buf @ drop e d') = overwritten d off buf"
  unfolding Let_def overwritten_def
  by (rule nth_equalityI) (auto simp: resize_def nth_append min_def max_def)

text \<open>C37. Changing one object of a store in memory: for an open object whose directory names every object and every file once,
  \<open>write\<close> within the size limit and \<open>truncate\<close> succeed, and opening the object afterwards returns exactly the changed
  handle, with the next version; after \<open>delete\<close> it is not found. Every other object opens as before.\<close>

theorem store_update:
  assumes "re_fs env = MemFs" and "crypto_ok (re_prims env)" and "entropy_ok (re_entropy env)" and "length ta = 16"
    and "dir_at env (rf_fs s) ta = Ok (es, rs)" and "length es < 2 ^ 20" and "distinct (map om_object_id es)" and "distinct (map fst rs)"
    and "reefs_open env ta oid s = Some (Ok h, s0)" and "length (oh_data h) \<le> MAX_OBJECT"
    and "unat off + length buf \<le> MAX_OBJECT" and "unat sz \<le> MAX_OBJECT"
  shows "\<exists>s1 s2 s3. let w = h\<lparr>oh_data := overwritten (oh_data h) (unat off) buf, oh_obj_version := oh_obj_version h + 1\<rparr>;
        t = h\<lparr>oh_data := resize (oh_data h) (unat sz), oh_obj_version := oh_obj_version h + 1\<rparr>;
        same = (\<lambda>s'. \<forall>oid'. oid' \<noteq> oid \<longrightarrow> obj_at env (rf_fs s') ta oid' = obj_at env (rf_fs s) ta oid') in
    reefs_write env h off buf s = Some ((Ok (length buf), w), s1) \<and> obj_at env (rf_fs s1) ta oid = Ok w \<and> same s1 \<and>
    reefs_truncate env h sz s = Some ((Ok (), t), s2) \<and> obj_at env (rf_fs s2) ta oid = Ok t \<and> same s2 \<and>
    reefs_delete env ta oid s = Some (Ok (), s3) \<and> obj_at env (rf_fs s3) ta oid = Err Storage_NotFound \<and> same s3"
proof -
  have "obj_at env (rf_fs s) ta oid = Ok h" using mem_open [OF assms(1), of ta oid s] assms(9) by auto
  from obj_at_Ok [OF assms(2) this] obtain i where i: "position es oid = Some i" "rs ! i = (oh_file_id h, oh_obj_version h)"
    "oh_ta h = ta" "oh_object_id h = oid" "length (oh_file_id h) = 16" "length oid \<le> 255"
    using assms(5) by (metis option.inject prod.inject res.inject(1))
  let ?w = "h\<lparr>oh_data := overwritten (oh_data h) (unat off) buf, oh_obj_version := oh_obj_version h + 1\<rparr>"
  let ?t = "h\<lparr>oh_data := resize (oh_data h) (unat sz), oh_obj_version := oh_obj_version h + 1\<rparr>"
  have wf: "wf_handle ?w" "wf_handle ?t" using i assms(4,10-12) by (simp_all add: wf_handle_def overwritten_def resize_def)
  have ids: "oh_ta ?w = ta" "oh_object_id ?w = oid" "oh_file_id ?w = fst (rs ! i)" "oh_ta ?t = ta" "oh_object_id ?t = oid" "oh_file_id ?t = fst (rs ! i)"
    using i by simp_all
  obtain s1 where s1: "save_handle env ?w (length buf) s = Some ((Ok (length buf), ?w), s1)" "obj_at env (rf_fs s1) ta oid = Ok ?w"
    "\<forall>oid'. oid' \<noteq> oid \<longrightarrow> obj_at env (rf_fs s1) ta oid' = obj_at env (rf_fs s) ta oid'"
    using mem_save [OF assms(1-3,5,6,8) i(1) wf(1) ids(1-3), of "length buf"] by blast
  obtain s2 where s2: "save_handle env ?t () s = Some ((Ok (), ?t), s2)" "obj_at env (rf_fs s2) ta oid = Ok ?t"
    "\<forall>oid'. oid' \<noteq> oid \<longrightarrow> obj_at env (rf_fs s2) ta oid' = obj_at env (rf_fs s) ta oid'"
    using mem_save [OF assms(1-3,5,6,8) i(1) wf(2) ids(4-6), of "()"] by blast
  have "usize_add (unat off) (length buf) = (Ok (unat off + length buf) :: usize sres)"
    using assms(11) by (simp add: usize_add_def USIZE_MAX_def MAX_OBJECT_def)
  then have "reefs_write env h off buf s = Some ((Ok (length buf), ?w), s1)"
    using s1(1) assms(11) overwritten_eq [of "unat off" buf "oh_data h"] by (simp add: reefs_write_def Let_def)
  moreover have "reefs_truncate env h sz s = Some ((Ok (), ?t), s2)" using s2(1) assms(12) by (simp add: reefs_truncate_def)
  moreover obtain s3 dblob where s3: "reefs_delete env ta oid s = Some (Ok (), s3)" "is_dir env ta (remove_at es i) (remove_at rs i) dblob"
    "wf_dir (remove_at es i) (remove_at rs i)" "rf_fs s3 = (rf_fs s)(obj_path ta (fst (rs ! i)) := None, dir_path ta \<mapsto> dblob)"
    using mem.reefs_delete_Ok [OF assms(1-3) _ assms(5) i(1) assms(6), of 9] by (auto simp: mem.ready_def mem.used_def)
  moreover note del = deleted_objects [OF assms(2,5) i(1) assms(8,7) s3(2-4)]
  ultimately show ?thesis using s1(2,3) s2(2,3) unfolding Let_def by metis
qed

theorem store_update_witness:
  "\<exists>s h s0 s1 w. reefs_open (demo_store MemFs) (replicate 16 3) [7] s = Some (Ok h, s0) \<and> oh_data h = [1, 2] \<and>
     reefs_write (demo_store MemFs) h 1 [9] s = Some ((Ok 1, w), s1) \<and> oh_data w = [1, 9] \<and>
     obj_at (demo_store MemFs) (rf_fs s1) (replicate 16 3) [7] = Ok w"
proof -
  obtain s h where d: "demo_holds s h" using demo_created by blast
  then obtain s0 where o: "reefs_open (demo_store MemFs) (replicate 16 3) [7] s = Some (Ok h, s0)" using demo_open by blast
  have h: "dir_at (demo_store MemFs) (rf_fs s) (replicate 16 3) = Ok ([new_meta h], [(replicate 16 1, 1)])" "oh_data h = [1, 2]"
    using d by (simp_all add: demo_holds_def)
  have "overwritten [1, 2] (Suc 0) [9] = [1, 9]" by (simp add: overwritten_def)
  with store_update [OF demo_store(3,1,2) _ h(1) _ _ _ o, of 1 "[9]" 0] h(2)
  obtain s1 where "reefs_write (demo_store MemFs) h 1 [9] s = Some ((Ok 1, h\<lparr>oh_data := [1, 9], oh_obj_version := oh_obj_version h + 1\<rparr>), s1)"
    "obj_at (demo_store MemFs) (rf_fs s1) (replicate 16 3) [7] = Ok (h\<lparr>oh_data := [1, 9], oh_obj_version := oh_obj_version h + 1\<rparr>)"
    by (auto simp: MAX_OBJECT_def Let_def)
  moreover have "oh_data (h\<lparr>oh_data := [1, 9], oh_obj_version := oh_obj_version h + 1\<rparr>) = [1, 9]" by simp
  ultimately show ?thesis using o h(2) by blast
qed

text \<open>C39. A flaw of \<open>create\<close>: the reference to the file of the new object is stored in the line of the first object.
  When an application that has objects creates another one, the creation succeeds, and afterwards its first object
  can no longer be opened; neither can the new one, unless its file or another one happens to have the identifier 0.\<close>

theorem second_create_loses:
  assumes "re_fs env = MemFs" and "crypto_ok (re_prims env)" and "entropy_ok (re_entropy env)" and "length ta = 16"
    and "length oid \<le> 255" and "length data \<le> MAX_OBJECT"
    and "reefs_list env ta s = Some (Ok es, s0)" and "es \<noteq> []" and "length es + 1 < 2 ^ 20" and "position es oid = None"
  shows "\<exists>h s1 s2. reefs_create env ta oid fl data s = Some (Ok h, s1) \<and>
    reefs_open env ta (om_object_id (hd es)) s1 = Some (Err Storage_Corrupt, s2) \<and>
    (rf_fs s (obj_path ta (replicate 16 0)) = None \<and> oh_file_id h \<noteq> replicate 16 0 \<longrightarrow>
      (\<exists>s3. reefs_open env ta oid s1 = Some (Err Storage_Corrupt, s3)))"
proof -
  let ?F = "rf_fs s" and ?z = "replicate 16 (0 :: u8)"
  obtain rs where d: "dir_at env ?F ta = Ok (es, rs)" using mem_list [OF assms(1,7)] .
  note D = dir_at_Ok [OF d]
  have rs: "rs \<noteq> []" using D(1) assms(8) by auto
  have r: "mem.ready 9 6 s" by (simp add: mem.ready_def)
  obtain s1 h blob dblob where c: "reefs_create env ta oid fl data s = Some (Ok h, s1)" "oh_ta h = ta" "length (oh_file_id h) = 16"
    "oh_object_id h = oid" "oh_data h = data" "oh_obj_version h = 1" "is_object env h blob"
    "is_dir env ta (es @ [new_meta h]) (rs[0 := (oh_file_id h, 1)]) dblob" "wf_dir (es @ [new_meta h]) (rs[0 := (oh_file_id h, 1)])"
    "rf_fs s1 = ?F(obj_path ta (oh_file_id h) \<mapsto> blob, dir_path ta \<mapsto> dblob)"
    using mem.reefs_create_Ok [OF assms(1-3) r assms(4-6) d _ _ assms(10,9) D(2,3), of fl] rs by (simp add: mem.used_def) metis
  let ?rs = "refs (es @ [new_meta h]) (rs[0 := (oh_file_id h, 1)])"
  have G: "dir_at env (rf_fs s1) ta = Ok (es @ [new_meta h], ?rs)" using dir_at_is_dir [OF assms(2) c(9,8)] c(10) by simp
  have w: "wf_handle h" using c(2-5) assms(4-6) by (simp add: wf_handle_def)
  have R: "?rs ! 0 = (oh_file_id h, 1)" "?rs ! length es = (?z, 1)" "length ?rs = Suc (length es)"
    using D(1) rs assms(8) by (simp_all add: refs_def ref_at_def nth_append del: upt_Suc)
  have p: "position (es @ [new_meta h]) (om_object_id (hd es)) = Some 0" using assms(8) by (cases es) (simp_all add: position_def)
  have q: "position (es @ [new_meta h]) oid = Some (length es)" using position_snoc(1) [OF assms(10)] c(4) by (simp add: new_meta_def)
  have ne: "om_object_id (hd es) \<noteq> oid" using assms(8,10) by (simp add: position_None)
  have a: "obj_at env (rf_fs s1) ta (om_object_id (hd es)) = Err Storage_Corrupt"
    using obj_at_index [OF G p _ R(1)] R(3) decrypt_is_object [OF assms(2) w c(7), of "om_object_id (hd es)"] c(2-4,6,10) ne by simp
  have b: "obj_at env (rf_fs s1) ta oid = Err Storage_Corrupt" if "?F (obj_path ta ?z) = None" "oh_file_id h \<noteq> ?z"
    using obj_at_index [OF G q _ R(2)] R(3) that c(10) by simp
  show ?thesis
    using c(1) mem_open [OF assms(1), of ta "om_object_id (hd es)" s1, unfolded a] mem_open [OF assms(1), of ta oid s1] b by auto
qed

theorem second_create_loses_witness:
  "\<exists>s h h' s1 s2. obj_at (demo_store MemFs) (rf_fs s) (replicate 16 3) [7] = Ok h \<and>
     reefs_create (demo_store MemFs) (replicate 16 3) [8] 0 [] s = Some (Ok h', s1) \<and>
     reefs_open (demo_store MemFs) (replicate 16 3) [7] s1 = Some (Err Storage_Corrupt, s2)"
proof -
  obtain s h where d: "demo_holds s h" using demo_created by blast
  then obtain s0 where l: "reefs_list (demo_store MemFs) (replicate 16 3) s = Some (Ok [new_meta h], s0)" using demo_list by blast
  have h: "om_object_id (new_meta h) = [7]" "obj_at (demo_store MemFs) (rf_fs s) (replicate 16 3) [7] = Ok h"
    using d by (simp_all add: demo_holds_def new_meta_def)
  then have "position [new_meta h] [8] = None" by (simp add: position_def)
  from second_create_loses [OF demo_store(3,1,2) _ _ _ l _ _ this, of "[]" 0] h(1)
  obtain h' s1 s2 where "reefs_create (demo_store MemFs) (replicate 16 3) [8] 0 [] s = Some (Ok h', s1)"
    "reefs_open (demo_store MemFs) (replicate 16 3) [7] s1 = Some (Err Storage_Corrupt, s2)" by (auto simp: MAX_OBJECT_def)
  with h(2) show ?thesis by blast
qed

text \<open>C40. Renaming loses the object: it is written again under its file identifier and then this file is deleted. Every
  rename of an object that can be opened, to a name that is not in use, reports success, removes the object file, and leaves a
  directory in which the new name cannot be opened (as long as no file has the identifier 0).\<close>

theorem rename_loses:
  assumes "re_fs env = MemFs" and "crypto_ok (re_prims env)" and "entropy_ok (re_entropy env)" and "length ta = 16"
    and "length new \<le> 255" and "reefs_list env ta s = Some (Ok es, s0)" and "length es < 2 ^ 20" and "position es new = None"
    and "reefs_open env ta old s = Some (Ok h, s1)" and "length (oh_data h) \<le> MAX_OBJECT" and "rf_fs s (obj_path ta (replicate 16 0)) = None"
  shows "\<exists>s2 s3. reefs_rename env ta old new s = Some (Ok (), s2) \<and> rf_fs s2 (obj_path ta (oh_file_id h)) = None \<and>
    reefs_open env ta new s2 = Some (Err Storage_Corrupt, s3)"
proof -
  let ?F = "rf_fs s" and ?z = "replicate 16 (0 :: u8)"
  have o: "obj_at env ?F ta old = Ok h" using mem_open [OF assms(1), of ta old s] assms(9) by auto
  obtain rs where d: "dir_at env ?F ta = Ok (es, rs)" using mem_list [OF assms(1,6)] .
  obtain i where i: "position es old = Some i" "i < length rs" "length (oh_file_id h) = 16"
    by (rule obj_at_Ok [OF assms(2) o]) (use d in auto)
  note D = dir_at_Ok [OF d]
  have r: "mem.ready 9 9 s" by (simp add: mem.ready_def)
  define es' where "es' = remove_at es i"
  define rs' where "rs' = overlay (remove_at rs i) 0 [(oh_file_id h, oh_obj_version h + 1)]"
  obtain s2 dblob e where c: "reefs_rename env ta old new s = Some (Ok (), s2)" "om_object_id e = new"
    "is_dir env ta (es' @ [e]) rs' dblob" "wf_dir (es' @ [e]) rs'" "rf_fs s2 = ?F(obj_path ta (oh_file_id h) := None, dir_path ta \<mapsto> dblob)"
    using mem.reefs_rename_Ok [OF assms(1-3) r d i(1) assms(7) o assms(4,5,10)] unfolding es'_def rs'_def mem.used_def by blast
  have G: "dir_at env (rf_fs s2) ta = Ok (es' @ [e], refs (es' @ [e]) rs')" using dir_at_is_dir [OF assms(2) c(4,3)] c(5) by simp
  have "position es' new = None" using assms(8) set_remove_at [of es i] by (auto simp: position_None es'_def)
  then have p: "position (es' @ [e]) new = Some (length es')" using position_snoc(1) c(2) by blast
  have l: "length (remove_at rs i) = length es'" using i D(1) by (simp add: es'_def)
  obtain fid ver where f: "refs (es' @ [e]) rs' ! length es' = (fid, ver)" by fastforce
  have "fid = oh_file_id h \<or> fid = ?z"
    using f l by (cases "remove_at rs i") (auto simp: rs'_def refs_def ref_at_def nth_append simp del: upt_Suc split: if_splits)
  then have n: "rf_fs s2 (obj_path ta fid) = None" using c(5) assms(11) i(3) by auto
  have "obj_at env (rf_fs s2) ta new = Err Storage_Corrupt"
    using obj_at_index [OF G p _ f] n by (simp add: refs_def)
  then show ?thesis using mem_open [OF assms(1), of ta new s2] c(1,5) i(3) by auto
qed

theorem rename_loses_witness:
  "\<exists>s h s2 s3. obj_at (demo_store MemFs) (rf_fs s) (replicate 16 3) [7] = Ok h \<and>
     reefs_rename (demo_store MemFs) (replicate 16 3) [7] [8] s = Some (Ok (), s2) \<and>
     reefs_open (demo_store MemFs) (replicate 16 3) [8] s2 = Some (Err Storage_Corrupt, s3)"
proof -
  obtain s h where d: "demo_holds s h" using demo_created by blast
  obtain s0 where l: "reefs_list (demo_store MemFs) (replicate 16 3) s = Some (Ok [new_meta h], s0)" using demo_list [OF d] by blast
  obtain s1 where o: "reefs_open (demo_store MemFs) (replicate 16 3) [7] s = Some (Ok h, s1)" using demo_open [OF d] by blast
  have h: "om_object_id (new_meta h) = [7]" "obj_at (demo_store MemFs) (rf_fs s) (replicate 16 3) [7] = Ok h"
    "length (oh_data h) \<le> MAX_OBJECT" "rf_fs s (obj_path (replicate 16 3) (replicate 16 0)) = None"
    using d by (simp_all add: demo_holds_def new_meta_def MAX_OBJECT_def)
  then have "position [new_meta h] [8] = None" by (simp add: position_def)
  from rename_loses [OF demo_store(3,1,2) _ _ l _ this o h(3,4)] h(2) show ?thesis by auto
qed

text \<open>Contents of a directory file that \<open>open_dir\<close> accepts.\<close>

definition dir_sealed :: "('e, 'f) ree_env \<Rightarrow> bytes \<Rightarrow> object_meta list \<Rightarrow> file_ref list \<Rightarrow> bytes \<Rightarrow> bool" where
  "dir_sealed env ta es rs blob \<longleftrightarrow> (\<exists>nonce ct_and_tag mac pt. blob = nonce @ ct_and_tag @ mac \<and> length nonce = 12 \<and> length mac = 32 \<and>
     hmac_sha256_mac (re_prims env) (ta_key env ta ''rustee.storage.mac.v1'') ct_and_tag = Some mac \<and>
     gcm_encrypt (re_prims env) Aes256 (ta_key env ta ''rustee.storage.dir.v1'') nonce (dir_aad ta) pt = Some ct_and_tag \<and>
     parse_dir pt = Ok (es, rs))"

lemma ok_or_Ok: "ok_or x e = Ok y \<longleftrightarrow> x = Some y"
  by (cases x) simp_all

lemma open_dir_sealed:
  assumes "crypto_ok (re_prims env)" and "open_dir env ta blob = Ok (es, rs)"
  shows "dir_sealed env ta es rs blob"
proof -
  obtain k where k: "tsk env ta = Ok k" "\<forall>info. derive env k info = Ok (ta_key env ta info)"
    "\<forall>info. length (ta_key env ta info) = 32" using ta_keys [OF assms(1), of ta] .
  have g: "gcm_laws (re_prims env)" using assms(1) by (simp add: crypto_ok_def)
  define rest where "rest = drop 12 blob"
  define c where "c = take (length rest - 32) rest"
  define mac where "mac = drop (length rest - 32) rest"
  note D = assms(2) [unfolded open_dir_def k(1) k(2) [rule_format] res_bind.simps Let_def from_crypto_def AesKey_32 [OF k(3) [rule_format]]
    map_err.simps, folded rest_def, folded c_def mac_def]
  have l: "60 \<le> length blob" "48 \<le> length rest" "16 \<le> length c" using D by (auto split: if_splits)
  have m: "hmac_sha256_mac (re_prims env) (ta_key env ta ''rustee.storage.mac.v1'') c = Some mac"
    using D l by (auto simp: hmac_sha256_def ok_or_Ok split: if_splits)
  obtain pt where pt: "aes_gcm_decrypt (re_prims env) (key32 (ta_key env ta ''rustee.storage.dir.v1'')) (take 12 blob) (dir_aad ta)
      (take (length c - 16) c) (drop (length c - 16) c) (length (take (length c - 16) c)) = Ok pt" "parse_dir pt = Ok (es, rs)"
    using D l by (auto split: if_splits)
  have "gcm_encrypt (re_prims env) Aes256 (ta_key env ta ''rustee.storage.dir.v1'') (take 12 blob) (dir_aad ta) pt = Some c"
    using gcm_authentic(1) [OF g pt(1)] by (simp add: as_slice_def)
  moreover have "blob = take 12 blob @ c @ mac" unfolding c_def mac_def append_take_drop_id rest_def by simp
  moreover have "length (take 12 blob) = 12" "length mac = 32" using l(1,2) by (simp_all add: mac_def)
  ultimately show ?thesis unfolding dir_sealed_def using m pt(2) by blast
qed

lemma sbind_Ok: "sbind m k s = Some (Ok y, s') \<longleftrightarrow> (\<exists>x s1. m s = Some (Ok x, s1) \<and> k x s1 = Some (Ok y, s'))"
  by (auto simp: sbind_def split: option.splits res.splits)

lemma smap_err_Ok: "smap_err f m s = Some (Ok x, s') \<longleftrightarrow> m s = Some (Ok x, s')"
proof (cases "m s")
  case (Some a)
  then show ?thesis by (cases a, cases "fst a") (simp_all add: smap_err_def)
qed (simp add: smap_err_def)

text \<open>C38. What an application gets from a host it does not trust, whatever the backend answers: an object is opened only when the
  host returned a directory that was sealed for this application under its keys, in which the object has a line, and an
  object file whose file key and contents were sealed for this application, for the file identifier and version of that line
  and for the name asked for. The data of the handle are the data in that seal, the flags those of the directory line.\<close>

theorem open_authentic:
  assumes "crypto_ok (re_prims env)" and "reefs_open env ta oid s = Some (Ok h, s')"
  shows "\<exists>dblob s1 blob es rs i.
    on_fs (fr_read (re_fs env) (dir_path ta)) s = Some (Ok dblob, s1) \<and> dir_sealed env ta es rs dblob \<and>
    position es oid = Some i \<and> rs ! i = (oh_file_id h, oh_obj_version h) \<and> oh_flags h = om_flags (es ! i) \<and>
    on_fs (fr_read (re_fs env) (obj_path ta (oh_file_id h))) s1 = Some (Ok blob, s') \<and>
    oh_ta h = ta \<and> oh_object_id h = oid \<and> sealed env h blob"
proof -
  obtain dblob s1 es rs i fid ver blob where r: "on_fs (fr_read (re_fs env) (dir_path ta)) s = Some (Ok dblob, s1)"
    "open_dir env ta dblob = Ok (es, rs)" "position es oid = Some i" "index rs i = (Ok (fid, ver) :: file_ref sres)"
    "on_fs (fr_read (re_fs env) (obj_path ta fid)) s1 = Some (Ok blob, s')"
    "decrypt_object env ta fid oid (om_flags (es ! i)) ver blob = Ok h"
    using assms(2) unfolding reefs_open_def load_dir_full_def by (auto simp: sbind_Ok smap_err_Ok ok_or_Ok)
  have "rs ! i = (fid, ver)" using r(4) by (simp add: index_def split: if_splits)
  with r open_dir_sealed [OF assms(1) r(2)] decrypt_authentic [OF assms(1) r(6)] show ?thesis by blast
qed

theorem open_authentic_witness:
  "\<exists>s h s' blob s1. reefs_open (demo_store MemFs) (replicate 16 3) [7] s = Some (Ok h, s') \<and>
     on_fs (fr_read MemFs (obj_path (replicate 16 3) (oh_file_id h))) s1 = Some (Ok blob, s') \<and> sealed (demo_store MemFs) h blob"
proof -
  obtain s h where d: "demo_holds s h" using demo_created by blast
  obtain s1 where o: "reefs_open (demo_store MemFs) (replicate 16 3) [7] s = Some (Ok h, s1)" using demo_open [OF d] by blast
  from open_authentic [OF demo_store(1) o] o show ?thesis unfolding demo_store(3) by blast
qed

end
