(* ===== verification/Spec2Isabelle.thy ===== *)
theory Spec2Isabelle
  imports Table_Spec Guest_Props Load_Path Big_Props Storage_Props
begin

text \<open>Header.\<close>

end
